(* ===== verification/Prelude.thy ===== *)
theory Prelude
  imports
    Main
    "HOL-Library.Char_ord"
    "HOL-Library.List_Lexorder"
    "HOL-Library.Product_Lexorder"
    "HOL-Library.Multiset"
    "HOL-Library.Word"
begin

text \<open>
  Shared vocabulary of the development: Go error values with wrapping, 64-bit signed
  arithmetic, the list form of an SQL table with a primary key, and the generic lemmas the
  components use.  The collections \<open>table_simps\<close> and \<open>go_defs\<close> gather the rewrite rules
  of tables and of small Go helpers.
\<close>

named_theorems table_simps "reads and writes of primary-key tables"
named_theorems go_defs "definitions of small Go library helpers"

section \<open>Go values\<close>

text \<open>
  A Go \<open>string\<close> and a \<open>[]byte\<close> are both lists of bytes; an 8-bit character of HOL is one byte.
\<close>

type_synonym bytes = "char list"

text \<open>
  Errors.  \<open>errors.New\<close> values are constructors; \<open>fmt.Errorf ("...: %w", err)\<close> is \<open>Wrap\<close>.
  \<open>Engine\<close> stands for any error value the database driver, the network or a parser returns,
  whose text the program never inspects.
\<close>

datatype go_error =
    ErrIngestQueueFull
  | ErrPermanent
  | ErrTransient
  | Canceled
  | Engine string
  | Wrap string go_error

text \<open>\<open>errors.Is\<close> follows the chain of wrapped errors.\<close>

fun errors_Is :: "go_error \<Rightarrow> go_error \<Rightarrow> bool" where
  "errors_Is (Wrap m e) t = (Wrap m e = t \<or> errors_Is e t)"
| "errors_Is e t = (e = t)"

text \<open>A Go \<open>int64\<close> (and \<open>int\<close>, \<open>time.Duration\<close>) holds a result of arithmetic modulo \<open>2^64\<close>.\<close>

definition wrap64 :: "int \<Rightarrow> int" where
  "wrap64 n = (n + 2 ^ 63) mod 2 ^ 64 - 2 ^ 63"

definition in_int64 :: "int \<Rightarrow> bool" where
  "in_int64 n \<longleftrightarrow> - (2 ^ 63) \<le> n \<and> n < 2 ^ 63"

lemma wrap64_id: "in_int64 n \<Longrightarrow> wrap64 n = n"
  by (simp add: wrap64_def in_int64_def)

lemma wrap64_wrapped: "2 ^ 63 \<le> n \<Longrightarrow> n < 2 ^ 64 + 2 ^ 63 \<Longrightarrow> wrap64 n = n - 2 ^ 64"
proof -
  assume "2 ^ 63 \<le> n" "n < 2 ^ 64 + 2 ^ 63"
  then have "(n + 2 ^ 63 - 2 ^ 64) mod 2 ^ 64 = n + 2 ^ 63 - 2 ^ 64" by (intro mod_pos_pos_trivial) simp_all
  moreover have "(n + 2 ^ 63 - 2 ^ 64) mod 2 ^ 64 = (n + 2 ^ 63) mod 2 ^ 64" by (rule minus_mod_self2)
  ultimately show ?thesis by (simp add: wrap64_def)
qed

lemma wrap64_range: "in_int64 (wrap64 n)"
proof -
  have "0 \<le> (n + 2 ^ 63) mod 2 ^ 64" and "(n + 2 ^ 63) mod 2 ^ 64 < (2::int) ^ 64"
    by (simp_all only: pos_mod_sign pos_mod_bound zero_less_power zero_less_numeral)
  then show ?thesis by (simp add: wrap64_def in_int64_def)
qed

text \<open>\<open>wrap64\<close> is the signed reading of a 64-bit word.\<close>

lemma wrap64_sint: "wrap64 n = sint (word_of_int n :: 64 word)"
  by (simp add: wrap64_def sint_sbintrunc' signed_take_bit_eq_take_bit_shift take_bit_eq_mod)

text \<open>Go's integer division truncates towards zero.\<close>

definition go_div :: "int \<Rightarrow> int \<Rightarrow> int" where
  "go_div a b = sgn a * sgn b * (\<bar>a\<bar> div \<bar>b\<bar>)"

lemma go_div_nonneg: "0 \<le> a \<Longrightarrow> 0 < b \<Longrightarrow> go_div a b = a div b"
  by (cases "a = 0") (simp_all add: go_div_def)

section \<open>Tables with a primary key\<close>

text \<open>
  An SQL table is the list of its rows in row-id order.  \<open>find_row\<close> is
  \<open>SELECT ... WHERE key = ?\<close> on the primary key, \<open>upsert_row\<close> is
  \<open>INSERT ... ON CONFLICT (key) DO UPDATE\<close> where every column is overwritten from
  \<open>excluded\<close>: it keeps the place of an existing row and appends a new one.
\<close>

definition find_row :: "('r \<Rightarrow> 'k) \<Rightarrow> 'k \<Rightarrow> 'r list \<Rightarrow> 'r option" where
  "find_row key k rows = List.find (\<lambda>r. key r = k) rows"

definition upsert_row :: "('r \<Rightarrow> 'k) \<Rightarrow> 'r \<Rightarrow> 'r list \<Rightarrow> 'r list" where
  "upsert_row key r rows =
     (if key r \<in> key ` set rows then map (\<lambda>x. if key x = key r then r else x) rows
      else rows @ [r])"

text \<open>\<open>UPDATE ... SET ... WHERE\<close> and \<open>DELETE ... WHERE\<close>, with the number of rows affected.\<close>

definition update_rows :: "('r \<Rightarrow> bool) \<Rightarrow> ('r \<Rightarrow> 'r) \<Rightarrow> 'r list \<Rightarrow> 'r list" where
  "update_rows P f rows = map (\<lambda>r. if P r then f r else r) rows"

definition delete_rows :: "('r \<Rightarrow> bool) \<Rightarrow> 'r list \<Rightarrow> 'r list" where
  "delete_rows P rows = filter (\<lambda>r. \<not> P r) rows"

definition rows_affected :: "('r \<Rightarrow> bool) \<Rightarrow> 'r list \<Rightarrow> nat" where
  "rows_affected P rows = length (filter P rows)"

definition pk_distinct :: "('r \<Rightarrow> 'k) \<Rightarrow> 'r list \<Rightarrow> bool" where
  "pk_distinct key rows \<longleftrightarrow> distinct (map key rows)"

lemma find_row_Nil [simp, table_simps]: "find_row key k [] = None"
  by (simp add: find_row_def)

lemma find_row_Cons [simp, table_simps]:
  "find_row key k (r # rs) = (if key r = k then Some r else find_row key k rs)"
  by (simp add: find_row_def)

lemma find_row_Some: "find_row key k rows = Some r \<Longrightarrow> r \<in> set rows \<and> key r = k"
  by (induction rows) (auto split: if_splits)

lemma find_row_None: "find_row key k rows = None \<longleftrightarrow> k \<notin> key ` set rows"
  by (induction rows) auto

lemma find_row_append:
  "find_row key k (xs @ ys) =
     (case find_row key k xs of None \<Rightarrow> find_row key k ys | Some r \<Rightarrow> Some r)"
  by (induction xs) auto

lemma find_row_replace:
  "find_row key k (map (\<lambda>x. if key x = key r then r else x) rows) =
     (if k = key r then (if k \<in> key ` set rows then Some r else None) else find_row key k rows)"
  by (induction rows) auto

lemma find_row_upsert [table_simps]:
  "find_row key k (upsert_row key r rows) = (if k = key r then Some r else find_row key k rows)"
proof (cases "key r \<in> key ` set rows")
  case True
  then show ?thesis by (simp add: upsert_row_def find_row_replace)
next
  case False
  then have "find_row key (key r) rows = None" by (simp add: find_row_None)
  with False show ?thesis
    by (auto simp: upsert_row_def find_row_append split: option.split)
qed

lemma find_row_update [table_simps]:
  "(\<And>r. key (f r) = key r) \<Longrightarrow>
   find_row key k (update_rows P f rows) =
     map_option (\<lambda>r. if P r then f r else r) (find_row key k rows)"
  by (induction rows) (auto simp: update_rows_def)

lemma pk_distinct_find: "pk_distinct key rows \<Longrightarrow> r \<in> set rows \<Longrightarrow> find_row key (key r) rows = Some r"
  by (induction rows) (force simp: pk_distinct_def)+

lemma find_row_delete [table_simps]:
  "pk_distinct key rows \<Longrightarrow>
   find_row key k (delete_rows P rows) =
     (case find_row key k rows of None \<Rightarrow> None | Some r \<Rightarrow> if P r then None else Some r)"
proof (induction rows)
  case Nil
  show ?case by (simp add: delete_rows_def)
next
  case (Cons r rows)
  have "find_row key (key r) (filter (\<lambda>x. \<not> P x) rows) = None"
    using Cons.prems by (auto simp: pk_distinct_def find_row_None)
  with Cons show ?case
    by (auto simp: pk_distinct_def delete_rows_def split: option.splits)
qed

lemma keys_upsert:
  "map key (upsert_row key r rows) =
     (if key r \<in> key ` set rows then map key rows else map key rows @ [key r])"
  by (induction rows) (auto simp: upsert_row_def)

lemma pk_distinct_upsert [table_simps]:
  "pk_distinct key (upsert_row key r rows) \<longleftrightarrow> pk_distinct key rows"
  by (auto simp: pk_distinct_def keys_upsert)

lemma pk_distinct_update [table_simps]:
  "(\<And>r. key (f r) = key r) \<Longrightarrow> pk_distinct key (update_rows P f rows) \<longleftrightarrow> pk_distinct key rows"
proof -
  assume k: "\<And>r. key (f r) = key r"
  have "map key (update_rows P f rows) = map key rows"
    by (induction rows) (simp_all add: update_rows_def k)
  then show ?thesis by (simp add: pk_distinct_def)
qed

lemma pk_distinct_delete [table_simps]: "pk_distinct key rows \<Longrightarrow> pk_distinct key (delete_rows P rows)"
  by (induction rows) (auto simp: pk_distinct_def delete_rows_def)

lemma set_upsert: "set (upsert_row key r rows) \<subseteq> insert r (set rows)"
  by (auto simp: upsert_row_def)

lemma upsert_member: "r \<in> set (upsert_row key r rows)"
  by (auto simp: upsert_row_def)

lemma set_delete [simp]: "set (delete_rows P rows) = {r \<in> set rows. \<not> P r}"
  by (auto simp: delete_rows_def)

lemma set_update: "set (update_rows P f rows) = (\<lambda>r. if P r then f r else r) ` set rows"
  by (simp add: update_rows_def)

lemma length_delete: "length (delete_rows P rows) + rows_affected P rows = length rows"
  using sum_length_filter_compl [of P rows] by (simp add: delete_rows_def rows_affected_def)

text \<open>Removing rows picked from a table by key.\<close>

lemma pk_distinct_inj: "pk_distinct key rows \<Longrightarrow> x \<in> set rows \<Longrightarrow> y \<in> set rows \<Longrightarrow> key x = key y \<Longrightarrow> x = y"
  by (metis pk_distinct_find option.inject)

lemma length_remove_picked:
  assumes "pk_distinct key rows" "pk_distinct key picked" "set picked \<subseteq> set rows"
  shows "length (filter (\<lambda>r. key r \<notin> key ` set picked) rows) + length picked = length rows"
proof -
  let ?in = "filter (\<lambda>r. key r \<in> key ` set picked) rows"
  have "distinct rows" "distinct picked"
    using assms(1,2) by (auto simp: pk_distinct_def distinct_map)
  moreover have "set ?in = set picked"
    using assms(3) pk_distinct_inj [OF assms(1)] by (auto dest: subsetD)
  ultimately have "length ?in = length picked"
    by (metis distinct_card distinct_filter)
  then show ?thesis using sum_length_filter_compl [of "\<lambda>r. key r \<in> key ` set picked" rows] by simp
qed

lemma of_char_bound: "of_char c < (256::nat)"
  by (cases c) (simp add: of_char_def horner_sum_simps)

text \<open>The contract of an encoding: what was encoded is decoded as it was.\<close>

locale codec =
  fixes encode :: "'a \<Rightarrow> 'b" and decode :: "'b \<Rightarrow> 'a option"
  assumes decode_encode: "decode (encode x) = Some x"
begin

lemma encode_inj: "encode x = encode y \<longleftrightarrow> x = y"
  by (metis decode_encode option.inject)

end

text \<open>The store interface a component relies on when it reads and writes rows by primary key.\<close>

locale pk_store =
  fixes look :: "'k \<Rightarrow> 't \<Rightarrow> 'r option"
    and put :: "'r \<Rightarrow> 't \<Rightarrow> 't"
    and key :: "'r \<Rightarrow> 'k"
    and wf :: "'t \<Rightarrow> bool"
  assumes look_put: "wf t \<Longrightarrow> look k (put r t) = (if k = key r then Some r else look k t)"
    and wf_put: "wf t \<Longrightarrow> wf (put r t)"
begin

text \<open>A batch of writes: the last row written under a key is the one read back.\<close>

lemma wf_fold_put: "wf t \<Longrightarrow> wf (fold put rs t)"
  by (induction rs arbitrary: t) (auto intro: wf_put)

lemma look_fold_put:
  "wf t \<Longrightarrow> look k (fold put rs t) =
     (case find_row key k (rev rs) of None \<Rightarrow> look k t | Some r \<Rightarrow> Some r)"
proof (induction rs arbitrary: t)
  case Nil
  then show ?case by simp
next
  case (Cons r rs)
  have "look k (fold put rs (put r t)) =
      (case find_row key k (rev rs) of None \<Rightarrow> look k (put r t) | Some r \<Rightarrow> Some r)"
    using Cons.prems by (intro Cons.IH wf_put)
  with Cons.prems show ?case
    by (auto simp: look_put find_row_append split: option.splits)
qed

lemma look_fold_put_distinct:
  "wf t \<Longrightarrow> distinct (map key rs) \<Longrightarrow> r \<in> set rs \<Longrightarrow> look (key r) (fold put rs t) = Some r"
  using pk_distinct_find [of key "rev rs" r]
  by (simp add: look_fold_put pk_distinct_def rev_map [symmetric])

end

interpretation row_list: pk_store "find_row key" "upsert_row key" key "pk_distinct key"
  for key :: "'r \<Rightarrow> 'k"
  by unfold_locales (simp_all add: table_simps)

end
