(* ===== verification/GoTime.thy ===== *)
theory GoTime
  imports Prelude
begin

text \<open>
  \<open>time.Time\<close> of the Go standard library, as far as the program uses it: an instant with a
  zone offset, the proleptic Gregorian calendar, \<open>Format\<close> and \<open>Parse\<close> for the layouts that
  occur in the sources, \<open>IsZero\<close> and arithmetic with durations.  The database stores every
  timestamp as the text \<open>Format\<close> produced, so the round trip and the order of these texts
  are what the queries rest on.
\<close>

record gotime =
  t_sec :: int   \<comment> \<open>seconds since 1970-01-01T00:00:00Z\<close>
  t_nsec :: int  \<comment> \<open>nanoseconds within the second\<close>
  t_off :: int   \<comment> \<open>offset of the zone east of UTC, in seconds\<close>

text \<open>The zero \<open>time.Time{}\<close> is January 1, year 1, 00:00:00 UTC.\<close>

definition zero_time :: gotime where
  "zero_time = \<lparr>t_sec = -62135596800, t_nsec = 0, t_off = 0\<rparr>"

definition IsZero :: "gotime \<Rightarrow> bool" where
  "IsZero t \<longleftrightarrow> t_sec t = -62135596800 \<and> t_nsec t = 0"

definition UTC :: "gotime \<Rightarrow> gotime" where
  "UTC t = t\<lparr>t_off := 0\<rparr>"

text \<open>\<open>t.Add (d)\<close> for a duration in nanoseconds, and \<open>t.Sub (u)\<close>, which saturates.\<close>

definition time_Add :: "gotime \<Rightarrow> int \<Rightarrow> gotime" where
  "time_Add t d = t\<lparr>t_sec := t_sec t + (t_nsec t + d) div 1000000000,
                    t_nsec := (t_nsec t + d) mod 1000000000\<rparr>"

definition time_Sub :: "gotime \<Rightarrow> gotime \<Rightarrow> int" where
  "time_Sub t u =
     max (- (2 ^ 63)) (min (2 ^ 63 - 1)
       ((t_sec t - t_sec u) * 1000000000 + (t_nsec t - t_nsec u)))"

section \<open>The calendar\<close>

definition is_leap :: "int \<Rightarrow> bool" where
  "is_leap y \<longleftrightarrow> 4 dvd y \<and> (\<not> 100 dvd y \<or> 400 dvd y)"

text \<open>Days from January 1 of year 0 to January 1 of year \<open>y\<close>.\<close>

definition days_before_year :: "int \<Rightarrow> int" where
  "days_before_year y = 365 * y + (y + 3) div 4 - (y + 99) div 100 + (y + 399) div 400"

definition civil_year :: "int \<Rightarrow> int" where
  "civil_year n =
     (let y = 400 * n div 146097
      in if n < days_before_year y then y - 1
         else if days_before_year (y + 1) \<le> n then y + 1 else y)"

lemma div_step:
  fixes k y :: int
  assumes "0 < k"
  shows "(y + k) div k = (y + (k - 1)) div k + (if k dvd y then 1 else 0)"
proof (cases "k dvd y")
  case True
  then obtain q where "y = k * q" by blast
  with assms show ?thesis by (simp add: div_pos_pos_trivial)
next
  case False
  define r q where "r = y mod k" and "q = y div k"
  have y: "y = k * q + r" by (simp add: r_def q_def)
  have "r \<noteq> 0" "0 \<le> r" "r < k"
    using assms False by (simp_all add: r_def dvd_eq_mod_eq_0)
  then have r: "0 < r" "r < k" by simp_all
  have "(y + (k - 1)) div k = ((r - 1) + k * (q + 1)) div k"
    by (simp add: y algebra_simps)
  also have "\<dots> = q + 1"
    using assms r by (simp add: div_pos_pos_trivial)
  finally have *: "(y + (k - 1)) div k = q + 1" .
  have "(y + k) div k = q + 1"
    using assms div_add_self2 [of k y] by (simp add: q_def)
  with * False show ?thesis by simp
qed

lemma indicator_leap:
  "b \<longrightarrow> a \<Longrightarrow> c \<longrightarrow> b \<Longrightarrow>
   (if a then 1 else 0) - (if b then 1 else 0) + (if c then 1 else 0)
     = (if a \<and> (\<not> b \<or> c) then 1 else 0 :: int)"
  by (cases a; cases b; cases c) simp_all

lemma sum_shift:
  fixes i j k l :: int
  shows "i - j + k = l \<Longrightarrow>
    365 * (y + 1) + (a + i) - (b + j) + (c + k) = 365 * y + a - b + c + (365 + l)"
  by simp

lemma days_before_year_Suc:
  "days_before_year (y + 1) = days_before_year y + (if is_leap y then 366 else 365)"
proof -
  have e4: "(y + 1 + 3) div 4 = (y + 3) div 4 + (if 4 dvd y then 1 else 0)"
    using div_step [of 4 y] by simp
  have e100: "(y + 1 + 99) div 100 = (y + 99) div 100 + (if 100 dvd y then 1 else 0)"
    using div_step [of 100 y] by simp
  have e400: "(y + 1 + 399) div 400 = (y + 399) div 400 + (if 400 dvd y then 1 else 0)"
    using div_step [of 400 y] by simp
  have i1: "100 dvd y \<longrightarrow> 4 dvd y" and i2: "400 dvd y \<longrightarrow> 100 dvd y"
    by (auto intro: dvd_trans [of 4 100] dvd_trans [of 100 400])
  have "(if 4 dvd y then 1 else 0) - (if 100 dvd y then 1 else 0) + (if 400 dvd y then 1 else 0)
      = (if is_leap y then 1 else 0 :: int)"
    unfolding is_leap_def by (rule indicator_leap [OF i1 i2])
  then have "days_before_year (y + 1) = days_before_year y + (365 + (if is_leap y then 1 else 0))"
    unfolding days_before_year_def e4 e100 e400 by (rule sum_shift)
  then show ?thesis by simp
qed

lemma days_before_year_mono: "y < z \<Longrightarrow> days_before_year y + 365 \<le> days_before_year z"
proof (induction z rule: int_gr_induct [of y])
  case base
  then show ?case by (simp add: days_before_year_Suc)
next
  case (step z)
  then show ?case by (simp add: days_before_year_Suc)
qed

lemma days_before_year_bounds:
  "146097 * y - 400 \<le> 400 * days_before_year y"
  "400 * days_before_year y \<le> 146097 * y + 800"
proof -
  define a b c where "a = (y + 3) div 4" and "b = (y + 99) div 100" and "c = (y + 399) div 400"
  have "4 * a \<le> y + 3" "y + 3 < 4 * a + 4"
    unfolding a_def by simp_all
  moreover have "100 * b \<le> y + 99" "y + 99 < 100 * b + 100"
    unfolding b_def by simp_all
  moreover have "400 * c \<le> y + 399" "y + 399 < 400 * c + 400"
    unfolding c_def by simp_all
  moreover have "days_before_year y = 365 * y + a - b + c"
    by (simp add: days_before_year_def a_def b_def c_def)
  ultimately show "146097 * y - 400 \<le> 400 * days_before_year y"
    "400 * days_before_year y \<le> 146097 * y + 800"
    by linarith+
qed

lemma civil_year_bounds:
  "days_before_year (civil_year n) \<le> n \<and> n < days_before_year (civil_year n + 1)"
proof -
  define y where "y = 400 * n div 146097"
  have y: "146097 * y \<le> 400 * n" "400 * n < 146097 * y + 146097"
    unfolding y_def by simp_all
  have low: "days_before_year (y - 1) \<le> n"
    using y days_before_year_bounds(2) [of "y - 1"] by (simp add: algebra_simps)
  have high: "n < days_before_year (y + 2)"
    using y days_before_year_bounds(1) [of "y + 2"] by (simp add: algebra_simps)
  show ?thesis
    using low high unfolding civil_year_def Let_def y_def [symmetric]
    by (auto simp: add.commute)
qed

lemma civil_year_unique:
  "days_before_year y \<le> n \<Longrightarrow> n < days_before_year (y + 1) \<Longrightarrow> civil_year n = y"
  using civil_year_bounds [of n] days_before_year_mono [of y "civil_year n"]
    days_before_year_mono [of "civil_year n" y]
    days_before_year_mono [of "y + 1" "civil_year n"] days_before_year_mono [of "civil_year n + 1" y]
  by (cases "civil_year n < y"; cases "civil_year n = y"; cases "civil_year n = y + 1";
      cases "civil_year n + 1 = y"; simp)

text \<open>Days of a year before the first of a month, and the inverse.\<close>

definition days_before_month :: "bool \<Rightarrow> int \<Rightarrow> int" where
  "days_before_month leap m =
     (if m \<le> 1 then 0 else if m = 2 then 31
      else [59, 90, 120, 151, 181, 212, 243, 273, 304, 334] ! nat (m - 3) + (if leap then 1 else 0))"

definition daysIn :: "int \<Rightarrow> int \<Rightarrow> int" where
  "daysIn m y =
     (if m = 2 then (if is_leap y then 29 else 28)
      else if m = 4 \<or> m = 6 \<or> m = 9 \<or> m = 11 then 30 else 31)"

definition civil_month :: "bool \<Rightarrow> int \<Rightarrow> int" where
  "civil_month leap yd =
     (if yd < 31 then 1 else
      let d = (if leap then yd - 1 else yd) in
      if d < 59 then 2 else if d < 90 then 3 else if d < 120 then 4 else if d < 151 then 5
      else if d < 181 then 6 else if d < 212 then 7 else if d < 243 then 8 else if d < 273 then 9
      else if d < 304 then 10 else if d < 334 then 11 else 12)"

text \<open>Year, month and day of a day number, and the day number of a date.\<close>

definition civil_of_days :: "int \<Rightarrow> int \<times> int \<times> int" where
  "civil_of_days n =
     (let y = civil_year n; yd = n - days_before_year y; m = civil_month (is_leap y) yd
      in (y, m, yd - days_before_month (is_leap y) m + 1))"

definition days_of_civil :: "int \<Rightarrow> int \<Rightarrow> int \<Rightarrow> int" where
  "days_of_civil y m d = days_before_year y + days_before_month (is_leap y) m + d - 1"

lemma month_cases:
  fixes m :: int
  assumes "1 \<le> m" "m \<le> 12"
  obtains "m = 1" | "m = 2" | "m = 3" | "m = 4" | "m = 5" | "m = 6" | "m = 7" | "m = 8"
    | "m = 9" | "m = 10" | "m = 11" | "m = 12"
proof -
  have "m = 1 \<or> m = 2 \<or> m = 3 \<or> m = 4 \<or> m = 5 \<or> m = 6 \<or> m = 7 \<or> m = 8
      \<or> m = 9 \<or> m = 10 \<or> m = 11 \<or> m = 12"
    using assms by presburger
  then show thesis using that by blast
qed

lemma civil_month_inverse:
  assumes "0 \<le> yd" "yd < (if is_leap y then 366 else 365)"
  shows "let m = civil_month (is_leap y) yd; d = yd - days_before_month (is_leap y) m + 1
         in 1 \<le> m \<and> m \<le> 12 \<and> 1 \<le> d \<and> d \<le> daysIn m y"
  using assms
  by (cases "is_leap y") (simp_all add: civil_month_def days_before_month_def daysIn_def Let_def)

lemma civil_of_days_valid:
  assumes "civil_of_days n = (y, m, d)"
  shows "days_of_civil y m d = n" "1 \<le> m" "m \<le> 12" "1 \<le> d" "d \<le> daysIn m y"
proof -
  have "days_before_year y \<le> n" "n < days_before_year y + (if is_leap y then 366 else 365)"
    using civil_year_bounds [of n] assms by (auto simp: civil_of_days_def Let_def days_before_year_Suc)
  then have "0 \<le> n - days_before_year y" "n - days_before_year y < (if is_leap y then 366 else 365)"
    by auto
  from civil_month_inverse [OF this] assms
  show "1 \<le> m" "m \<le> 12" "1 \<le> d" "d \<le> daysIn m y"
    by (auto simp: civil_of_days_def Let_def)
  from assms show "days_of_civil y m d = n"
    by (auto simp: civil_of_days_def days_of_civil_def Let_def)
qed

lemma days_of_civil_bounds:
  assumes "1 \<le> m" "m \<le> 12" "1 \<le> d" "d \<le> daysIn m y"
  shows "days_before_year y \<le> days_of_civil y m d \<and> days_of_civil y m d < days_before_year (y + 1)"
  using assms(1,2)
  by (rule month_cases)
     (use assms(3,4) in \<open>simp_all add: days_of_civil_def days_before_month_def daysIn_def
        days_before_year_Suc split: if_splits\<close>)

lemma civil_of_days_of_civil:
  assumes "1 \<le> m" "m \<le> 12" "1 \<le> d" "d \<le> daysIn m y"
  shows "civil_of_days (days_of_civil y m d) = (y, m, d)"
proof -
  have y: "civil_year (days_of_civil y m d) = y"
    using days_of_civil_bounds [OF assms] by (intro civil_year_unique) auto
  have m: "civil_month (is_leap y) (days_of_civil y m d - days_before_year y) = m"
    using assms(1,2)
    by (rule month_cases)
       (use assms(3,4) in \<open>simp_all add: days_of_civil_def days_before_month_def daysIn_def
          civil_month_def split: if_splits\<close>)
  show ?thesis by (simp add: civil_of_days_def y m Let_def) (simp add: days_of_civil_def)
qed

section \<open>Decimal digits\<close>

definition digit_char :: "nat \<Rightarrow> char" where
  "digit_char d = ''0123456789'' ! d"

definition is_digit :: "char \<Rightarrow> bool" where
  "is_digit c \<longleftrightarrow> c \<in> set ''0123456789''"

definition digit_val :: "char \<Rightarrow> nat" where
  "digit_val c = of_char c - 48"

lemma digit_cases:
  fixes d :: nat
  assumes "d < 10"
  obtains "d = 0" | "d = 1" | "d = 2" | "d = 3" | "d = 4" | "d = 5" | "d = 6" | "d = 7"
    | "d = 8" | "d = 9"
proof -
  have "d = 0 \<or> d = 1 \<or> d = 2 \<or> d = 3 \<or> d = 4 \<or> d = 5 \<or> d = 6 \<or> d = 7 \<or> d = 8 \<or> d = 9"
    using assms by presburger
  then show thesis using that by blast
qed

lemma is_digit_char [simp]: "d < 10 \<Longrightarrow> is_digit (digit_char d)"
  by (erule digit_cases) (simp_all add: is_digit_def digit_char_def)

lemma digit_val_char [simp]: "d < 10 \<Longrightarrow> digit_val (digit_char d) = d"
  by (erule digit_cases) (simp_all add: digit_val_def digit_char_def)

lemma digit_char_less:
  "d < 10 \<Longrightarrow> e < 10 \<Longrightarrow> digit_char d < digit_char e \<longleftrightarrow> d < e"
  by (erule digit_cases; erule digit_cases) (simp_all add: digit_char_def less_char_def)

lemma digit_char_inj:
  "d < 10 \<Longrightarrow> e < 10 \<Longrightarrow> digit_char d = digit_char e \<longleftrightarrow> d = e"
  by (metis digit_val_char)

text \<open>Unsigned and signed decimal text (\<open>strconv.Itoa\<close>, \<open>%d\<close>).\<close>

fun go_utoa :: "nat \<Rightarrow> string" where
  "go_utoa n = (if n < 10 then [digit_char n] else go_utoa (n div 10) @ [digit_char (n mod 10)])"

declare go_utoa.simps [simp del]

definition go_itoa :: "int \<Rightarrow> string" where
  "go_itoa n = (if n < 0 then CHR ''-'' # go_utoa (nat (- n)) else go_utoa (nat n))"

text \<open>The value of a digit string.\<close>

definition digits_val :: "string \<Rightarrow> nat" where
  "digits_val s = foldl (\<lambda>v c. v * 10 + digit_val c) 0 s"

lemma digits_val_snoc [simp]: "digits_val (s @ [c]) = digits_val s * 10 + digit_val c"
  by (simp add: digits_val_def)

lemma digits_val_utoa [simp]: "digits_val (go_utoa n) = n"
proof (induction n rule: go_utoa.induct)
  case (1 n)
  then show ?case
    by (cases "n < 10") (simp_all add: go_utoa.simps [of n] digits_val_def)
qed

lemma go_utoa_inj: "go_utoa m = go_utoa n \<longleftrightarrow> m = n"
  by (rule iffI, drule arg_cong [of _ _ digits_val]) simp_all

lemma go_utoa_digits: "\<forall>c \<in> set (go_utoa n). is_digit c"
proof (induction n rule: go_utoa.induct)
  case (1 n)
  then show ?case by (cases "n < 10") (auto simp: go_utoa.simps [of n])
qed

lemma go_utoa_not_minus: "go_utoa m \<noteq> CHR ''-'' # s"
proof
  assume "go_utoa m = CHR ''-'' # s"
  then have "CHR ''-'' \<in> set (go_utoa m)" by simp
  with go_utoa_digits [of m] have "is_digit (CHR ''-'')" by blast
  then show False by (simp add: is_digit_def)
qed

lemma go_itoa_inj: "go_itoa m = go_itoa n \<longleftrightarrow> m = n"
proof -
  have "CHR ''-'' # s \<noteq> go_utoa k" for s k
    using go_utoa_not_minus [of k s] by (rule not_sym)
  moreover have "nat (- m) = nat (- n) \<longleftrightarrow> m = n" if "m < 0" "n < 0"
    using that by linarith
  moreover have "nat m = nat n \<longleftrightarrow> m = n" if "0 \<le> m" "0 \<le> n"
    using that by linarith
  ultimately show ?thesis
    by (cases "m < 0"; cases "n < 0") (simp_all add: go_itoa_def go_utoa_inj go_utoa_not_minus)
qed

section \<open>Formatting\<close>

text \<open>\<open>appendInt (b, x, width)\<close> pads with zeros to \<open>width\<close>.\<close>

definition append_int :: "int \<Rightarrow> nat \<Rightarrow> string" where
  "append_int x width =
     (let s = go_utoa (nat \<bar>x\<bar>)
      in (if x < 0 then ''-'' else []) @ replicate (width - length s) CHR ''0'' @ s)"

definition pad2 :: "nat \<Rightarrow> string" where
  "pad2 n = [digit_char (n div 10), digit_char (n mod 10)]"

definition pad4 :: "nat \<Rightarrow> string" where
  "pad4 n = [digit_char (n div 1000), digit_char (n div 100 mod 10),
             digit_char (n div 10 mod 10), digit_char (n mod 10)]"

lemma zero_digit: "CHR ''0'' = digit_char 0"
  by (simp add: digit_char_def)

lemma utoa_1: "n < 10 \<Longrightarrow> go_utoa n = [digit_char n]"
  by (simp add: go_utoa.simps)

lemma utoa_step: "10 \<le> n \<Longrightarrow> go_utoa n = go_utoa (n div 10) @ [digit_char (n mod 10)]"
  by (simp add: go_utoa.simps [of n])

lemma utoa_2: "10 \<le> n \<Longrightarrow> n < 100 \<Longrightarrow> go_utoa n = [digit_char (n div 10), digit_char (n mod 10)]"
  by (simp add: utoa_step utoa_1 less_mult_imp_div_less)

lemma utoa_3:
  assumes "100 \<le> n" "n < 1000"
  shows "go_utoa n = [digit_char (n div 100), digit_char (n div 10 mod 10), digit_char (n mod 10)]"
proof -
  have "10 \<le> n div 10" "n div 10 < 100" using assms by linarith+
  from utoa_2 [OF this] assms show ?thesis
    by (simp add: utoa_step div_mult2_eq [symmetric])
qed

lemma utoa_4:
  assumes "1000 \<le> n" "n < 10000"
  shows "go_utoa n = pad4 n"
proof -
  have "100 \<le> n div 10" "n div 10 < 1000" using assms by linarith+
  from utoa_3 [OF this] assms show ?thesis
    by (simp add: utoa_step pad4_def div_mult2_eq [symmetric])
qed

lemma append_int_2: "0 \<le> x \<Longrightarrow> x < 100 \<Longrightarrow> append_int x 2 = pad2 (nat x)"
  by (cases "nat x < 10") (simp_all add: append_int_def pad2_def utoa_1 utoa_2 zero_digit)

lemma append_int_4: "0 \<le> x \<Longrightarrow> x < 10000 \<Longrightarrow> append_int x 4 = pad4 (nat x)"
proof -
  assume x: "0 \<le> x" "x < 10000"
  define n where "n = nat x"
  have n: "n < 10000" "nat \<bar>x\<bar> = n" using x by (auto simp: n_def)
  have r: "replicate 2 c = [c, c]" "replicate 3 c = [c, c, c]" for c :: char
    by (simp_all add: numeral_2_eq_2 numeral_3_eq_3)
  consider (1) "n < 10" | (2) "10 \<le> n" "n < 100" | (3) "100 \<le> n" "n < 1000" | (4) "1000 \<le> n"
    by linarith
  then have "replicate (4 - length (go_utoa n)) CHR ''0'' @ go_utoa n = pad4 n"
  proof cases
    case 1
    then show ?thesis by (simp add: utoa_1 pad4_def zero_digit r)
  next
    case 2
    then have "n div 10 < 10" by linarith
    with 2 show ?thesis by (simp add: utoa_2 pad4_def zero_digit r)
  next
    case 3
    then have "n div 100 < 10" by linarith
    with 3 show ?thesis by (simp add: utoa_3 pad4_def zero_digit)
  next
    case 4
    with n show ?thesis by (simp add: utoa_4) (simp add: pad4_def)
  qed
  then show ?thesis using x n by (simp add: append_int_def n_def)
qed

text \<open>The broken-down local time of an instant.\<close>

definition days_1970 :: int where
  "days_1970 = 719528"

definition local_secs :: "gotime \<Rightarrow> int" where
  "local_secs t = t_sec t + t_off t"

definition date_of :: "gotime \<Rightarrow> int \<times> int \<times> int" where
  "date_of t = civil_of_days (local_secs t div 86400 + days_1970)"

definition year_of :: "gotime \<Rightarrow> int" where
  "year_of t = fst (date_of t)"

definition clock_of :: "gotime \<Rightarrow> int \<times> int \<times> int" where
  "clock_of t = (let s = local_secs t mod 86400 in (s div 3600, s mod 3600 div 60, s mod 60))"

text \<open>The common part of the layouts: \<open>2006-01-02\<close>, a separator, \<open>15:04:05\<close>.\<close>

definition format_date_time :: "char \<Rightarrow> gotime \<Rightarrow> string" where
  "format_date_time sep t =
     (case date_of t of (y, m, d) \<Rightarrow> case clock_of t of (hh, mm, ss) \<Rightarrow>
        append_int y 4 @ ''-'' @ append_int m 2 @ ''-'' @ append_int d 2 @ [sep] @
        append_int hh 2 @ '':'' @ append_int mm 2 @ '':'' @ append_int ss 2)"

text \<open>\<open>t.Format (time.RFC3339)\<close>: a zone of offset 0 is written \<open>Z\<close>.\<close>

definition format_zone :: "int \<Rightarrow> string" where
  "format_zone off =
     (if off = 0 then ''Z''
      else let zone = go_div off 60; a = \<bar>zone\<bar>
           in (if zone < 0 then ''-'' else ''+'') @ append_int (a div 60) 2 @ '':'' @
              append_int (a mod 60) 2)"

definition format_RFC3339 :: "gotime \<Rightarrow> string" where
  "format_RFC3339 t = format_date_time (CHR ''T'') t @ format_zone (t_off t)"

text \<open>
  The layout \<open>2006-01-02 15:04:05\<close>, which is also the text of SQLite's \<open>datetime('now')\<close>
  and \<open>CURRENT_TIMESTAMP\<close> (both in UTC).
\<close>

definition format_datetime :: "gotime \<Rightarrow> string" where
  "format_datetime t = format_date_time (CHR '' '') t"

definition sqlite_datetime :: "gotime \<Rightarrow> string" where
  "sqlite_datetime t = format_datetime (UTC t)"

section \<open>Parsing\<close>

text \<open>
  \<open>time.Parse\<close> walks over the chunks of the layout.  Each layout of the sources is given by
  its chunks, as \<open>nextStdChunk\<close> splits it: \<open>Z07:00\<close> is \<open>CZoneZ\<close>, \<open>-07:00\<close> is \<open>CZoneNum\<close>.
\<close>

datatype chunk =
    CYear | CMonth | CDay | CHour | CMin | CSec | CZoneZ | CZoneNum | CLit char

definition layout_date :: "chunk list" where
  "layout_date = [CYear, CLit (CHR ''-''), CMonth, CLit (CHR ''-''), CDay]"

definition layout_clock :: "chunk list" where
  "layout_clock = [CHour, CLit (CHR '':''), CMin, CLit (CHR '':''), CSec]"

definition layout_RFC3339 :: "chunk list" where
  "layout_RFC3339 = layout_date @ [CLit (CHR ''T'')] @ layout_clock @ [CZoneZ]"

definition layout_space_zone :: "chunk list" where
  "layout_space_zone = layout_date @ [CLit (CHR '' '')] @ layout_clock @ [CZoneNum]"

definition layout_T_Z :: "chunk list" where
  "layout_T_Z = layout_date @ [CLit (CHR ''T'')] @ layout_clock @ [CLit (CHR ''Z'')]"

definition layout_datetime :: "chunk list" where
  "layout_datetime = layout_date @ [CLit (CHR '' '')] @ layout_clock"

record fields =
  f_year :: int
  f_month :: int
  f_day :: int
  f_hour :: int
  f_min :: int
  f_sec :: int
  f_nsec :: int
  f_zone :: "int option"

definition no_fields :: fields where
  "no_fields = \<lparr>f_year = 0, f_month = -1, f_day = -1, f_hour = 0, f_min = 0, f_sec = 0,
                 f_nsec = 0, f_zone = None\<rparr>"

text \<open>\<open>getnum (s, fixed)\<close>: one or two digits, exactly two when \<open>fixed\<close>.\<close>

fun getnum :: "bool \<Rightarrow> string \<Rightarrow> (int \<times> string) option" where
  "getnum fixed [] = None"
| "getnum fixed [a] = (if is_digit a \<and> \<not> fixed then Some (int (digit_val a), []) else None)"
| "getnum fixed (a # b # s) =
     (if \<not> is_digit a then None
      else if is_digit b then Some (int (digit_val a * 10 + digit_val b), s)
      else if fixed then None else Some (int (digit_val a), b # s))"

definition in_range :: "int \<Rightarrow> int \<Rightarrow> (int \<times> string) option \<Rightarrow> (int \<times> string) option" where
  "in_range lo hi r =
     (case r of None \<Rightarrow> None | Some (n, s) \<Rightarrow> if lo \<le> n \<and> n \<le> hi then Some (n, s) else None)"

fun get_year :: "string \<Rightarrow> (int \<times> string) option" where
  "get_year (a # b # c # d # s) =
     (if is_digit a \<and> is_digit b \<and> is_digit c \<and> is_digit d
      then Some (int (digits_val [a, b, c, d]), s) else None)"
| "get_year s = None"

text \<open>A fractional second after the seconds is accepted although the layout has none.\<close>

definition get_frac :: "string \<Rightarrow> int \<times> string" where
  "get_frac s =
     (case s of
        p # d # _ \<Rightarrow>
          if (p = CHR ''.'' \<or> p = CHR '','') \<and> is_digit d
          then (let ds = takeWhile is_digit (tl s); k = take 9 ds
                in (int (digits_val k) * 10 ^ (9 - length k), dropWhile is_digit (tl s)))
          else (0, s)
      | _ \<Rightarrow> (0, s))"

fun get_zone :: "string \<Rightarrow> (int \<times> string) option" where
  "get_zone (sg # a # b # c # d # e # s) =
     (if c \<noteq> CHR '':'' then None else
      case in_range 0 24 (getnum True [a, b]) of None \<Rightarrow> None | Some (hr, _) \<Rightarrow>
      case in_range 0 60 (getnum True [d, e]) of None \<Rightarrow> None | Some (mm, _) \<Rightarrow>
      if sg = CHR ''+'' then Some ((hr * 60 + mm) * 60, s)
      else if sg = CHR ''-'' then Some (- ((hr * 60 + mm) * 60), s) else None)"
| "get_zone s = None"

fun parse_chunk :: "chunk \<Rightarrow> string \<Rightarrow> fields \<Rightarrow> (fields \<times> string) option" where
  "parse_chunk (CLit c) s f =
     (if c = CHR '' '' then
        (if s \<noteq> [] \<and> hd s \<noteq> CHR '' '' then None
         else Some (f, dropWhile (\<lambda>x. x = CHR '' '') s))
      else case s of [] \<Rightarrow> None | x # s' \<Rightarrow> if x = c then Some (f, s') else None)"
| "parse_chunk CYear s f = map_option (\<lambda>(n, s'). (f\<lparr>f_year := n\<rparr>, s')) (get_year s)"
| "parse_chunk CMonth s f =
     map_option (\<lambda>(n, s'). (f\<lparr>f_month := n\<rparr>, s')) (in_range 1 12 (getnum True s))"
| "parse_chunk CDay s f = map_option (\<lambda>(n, s'). (f\<lparr>f_day := n\<rparr>, s')) (getnum True s)"
| "parse_chunk CHour s f =
     map_option (\<lambda>(n, s'). (f\<lparr>f_hour := n\<rparr>, s')) (in_range 0 23 (getnum False s))"
| "parse_chunk CMin s f =
     map_option (\<lambda>(n, s'). (f\<lparr>f_min := n\<rparr>, s')) (in_range 0 59 (getnum True s))"
| "parse_chunk CSec s f =
     map_option (\<lambda>(n, s'). case get_frac s' of (ns, s'') \<Rightarrow> (f\<lparr>f_sec := n, f_nsec := ns\<rparr>, s''))
       (in_range 0 59 (getnum True s))"
| "parse_chunk CZoneZ s f =
     (case s of
        x # s' \<Rightarrow> if x = CHR ''Z'' then Some (f\<lparr>f_zone := Some 0\<rparr>, s')
                  else map_option (\<lambda>(n, s'). (f\<lparr>f_zone := Some n\<rparr>, s')) (get_zone s)
      | [] \<Rightarrow> None)"
| "parse_chunk CZoneNum s f = map_option (\<lambda>(n, s'). (f\<lparr>f_zone := Some n\<rparr>, s')) (get_zone s)"

fun parse_chunks :: "chunk list \<Rightarrow> string \<Rightarrow> fields \<Rightarrow> fields option" where
  "parse_chunks [] s f = (if s = [] then Some f else None)"
| "parse_chunks (c # cs) s f =
     (case parse_chunk c s f of None \<Rightarrow> None | Some (f', s') \<Rightarrow> parse_chunks cs s' f')"

text \<open>\<open>Date (...)\<close> of the fields, the day checked against its month.\<close>

definition fields_time :: "fields \<Rightarrow> gotime option" where
  "fields_time f =
     (if f_day f < 1 \<or> daysIn (f_month f) (f_year f) < f_day f then None
      else let off = (case f_zone f of None \<Rightarrow> 0 | Some z \<Rightarrow> z)
           in Some \<lparr>t_sec = (days_of_civil (f_year f) (f_month f) (f_day f) - days_1970) * 86400
                       + f_hour f * 3600 + f_min f * 60 + f_sec f - off,
                   t_nsec = f_nsec f, t_off = off\<rparr>)"

definition time_Parse :: "chunk list \<Rightarrow> string \<Rightarrow> gotime option" where
  "time_Parse layout s =
     (case parse_chunks layout s no_fields of None \<Rightarrow> None | Some f \<Rightarrow> fields_time f)"

section \<open>Round trip\<close>

lemma pad2_length [simp]: "length (pad2 n) = 2"
  by (simp add: pad2_def)

lemma pad4_length [simp]: "length (pad4 n) = 4"
  by (simp add: pad4_def)

lemma getnum_pad2 [simp]: "n < 100 \<Longrightarrow> getnum b (pad2 n @ s) = Some (int n, s)"
proof -
  assume n: "n < 100"
  then have "n div 10 < 10" by linarith
  with n show ?thesis by (simp add: pad2_def)
qed

lemma get_year_pad4 [simp]: "n < 10000 \<Longrightarrow> get_year (pad4 n @ s) = Some (int n, s)"
proof -
  assume n: "n < 10000"
  then have d: "n div 1000 < 10" by linarith
  have "n div 1000 * 10 + n div 100 mod 10 = n div 100"
    using div_mult_mod_eq [of "n div 100" 10] by (simp add: div_mult2_eq [symmetric])
  moreover have "n div 100 * 10 + n div 10 mod 10 = n div 10"
    using div_mult_mod_eq [of "n div 10" 10] by (simp add: div_mult2_eq [symmetric])
  moreover have "n div 10 * 10 + n mod 10 = n" by simp
  ultimately have
    "((n div 1000 * 10 + n div 100 mod 10) * 10 + n div 10 mod 10) * 10 + n mod 10 = n"
    by (simp only:)
  with d show ?thesis by (simp add: pad4_def digits_val_def)
qed

lemma clock_of_range:
  assumes "clock_of t = (hh, mm, ss)"
  shows "0 \<le> hh" "hh < 24" "0 \<le> mm" "mm < 60" "0 \<le> ss" "ss < 60"
    "hh * 3600 + mm * 60 + ss = local_secs t mod 86400"
proof -
  define s where "s = local_secs t mod 86400"
  have s: "0 \<le> s" "s < 86400" by (simp_all add: s_def)
  have e: "hh = s div 3600" "mm = s mod 3600 div 60" "ss = s mod 60"
    using assms by (simp_all add: clock_of_def Let_def s_def)
  show "0 \<le> hh" "hh < 24" "0 \<le> mm" "mm < 60" "0 \<le> ss" "ss < 60"
    using s unfolding e by auto
  have "s = s div 3600 * 3600 + s mod 3600" "s mod 3600 = s mod 3600 div 60 * 60 + s mod 3600 mod 60"
    by simp_all
  moreover have "s mod 3600 mod 60 = s mod 60"
    by (rule mod_mod_cancel) simp
  ultimately show "hh * 3600 + mm * 60 + ss = local_secs t mod 86400"
    unfolding e s_def [symmetric] by linarith
qed

lemma date_of_range:
  assumes "date_of t = (y, m, d)"
  shows "1 \<le> m" "m \<le> 12" "1 \<le> d" "d \<le> daysIn m y" "d < 100"
    "days_of_civil y m d = local_secs t div 86400 + days_1970"
proof -
  show v: "1 \<le> m" "m \<le> 12" "1 \<le> d" "d \<le> daysIn m y"
      "days_of_civil y m d = local_secs t div 86400 + days_1970"
    using civil_of_days_valid [of "local_secs t div 86400 + days_1970" y m d] assms
    by (simp_all add: date_of_def)
  have "daysIn m y \<le> 31" by (simp add: daysIn_def)
  with v show "d < 100" by simp
qed

definition year4 :: "gotime \<Rightarrow> bool" where
  "year4 t \<longleftrightarrow> 0 \<le> year_of t \<and> year_of t < 10000"

text \<open>The text of a date and time whose year has four digits.\<close>

lemma format_date_time_pads:
  assumes "date_of t = (y, m, d)" "clock_of t = (hh, mm, ss)" "year4 t"
  shows "format_date_time sep t =
    pad4 (nat y) @ CHR ''-'' # pad2 (nat m) @ CHR ''-'' # pad2 (nat d) @ sep #
    pad2 (nat hh) @ CHR '':'' # pad2 (nat mm) @ CHR '':'' # pad2 (nat ss)"
  using assms date_of_range [OF assms(1)] clock_of_range [OF assms(2)]
  by (simp add: format_date_time_def append_int_2 append_int_4 year4_def year_of_def)

text \<open>Parsing the common part leaves the rest of the text and the fields of the instant.\<close>

definition time_fields :: "gotime \<Rightarrow> fields" where
  "time_fields t =
     (case date_of t of (y, m, d) \<Rightarrow> case clock_of t of (hh, mm, ss) \<Rightarrow>
        no_fields\<lparr>f_year := y, f_month := m, f_day := d, f_hour := hh, f_min := mm, f_sec := ss\<rparr>)"

lemma not_space_pad2: "n < 100 \<Longrightarrow> dropWhile (\<lambda>x. x = CHR '' '') (pad2 n @ s) = pad2 n @ s"
proof -
  assume "n < 100"
  then have "n div 10 < 10" by linarith
  then have "is_digit (digit_char (n div 10))" by simp
  then have "digit_char (n div 10) \<noteq> CHR '' ''" by (auto simp: is_digit_def)
  then show ?thesis by (simp add: pad2_def)
qed

lemma parse_date:
  assumes "0 \<le> y" "y < 10000" "1 \<le> m" "m \<le> 12" "1 \<le> d" "d < 100"
  shows "parse_chunks (layout_date @ cs)
      (pad4 (nat y) @ CHR ''-'' # pad2 (nat m) @ CHR ''-'' # pad2 (nat d) @ s) f
    = parse_chunks cs s (f\<lparr>f_year := y, f_month := m, f_day := d\<rparr>)"
  using assms by (simp add: layout_date_def in_range_def)

lemma parse_date_time:
  assumes "year4 t" "\<not> (s \<noteq> [] \<and> (hd s = CHR ''.'' \<or> hd s = CHR '',''))"
  shows "parse_chunks (layout_date @ [CLit sep] @ layout_clock @ cs) (format_date_time sep t @ s) no_fields
       = parse_chunks cs s (time_fields t)"
proof -
  obtain y m d where date: "date_of t = (y, m, d)" by (cases "date_of t")
  obtain hh mm ss where clock: "clock_of t = (hh, mm, ss)" by (cases "clock_of t")
  note r = date_of_range [OF date] clock_of_range [OF clock]
  have y: "0 \<le> y" "y < 10000"
    using assms(1) date by (simp_all add: year4_def year_of_def)
  have n: "nat hh < 100" "nat mm < 100" "nat ss < 100"
    using r by auto
  have frac: "get_frac s = (0, s)"
    using assms(2) by (auto simp: get_frac_def split: list.splits)
  show ?thesis
    using r n
    by (simp add: format_date_time_pads [OF date clock assms(1)] parse_date [OF y])
       (simp add: layout_clock_def in_range_def not_space_pad2 frac time_fields_def date clock no_fields_def)
qed

text \<open>A text with another separator fails at the separator.\<close>

lemma parse_wrong_separator:
  assumes "year4 t" "c \<noteq> sep" "c \<noteq> CHR '' ''"
  shows "parse_chunks (layout_date @ CLit c # cs) (format_date_time sep t @ s) no_fields = None"
proof -
  obtain y m d where date: "date_of t = (y, m, d)" by (cases "date_of t")
  obtain hh mm ss where clock: "clock_of t = (hh, mm, ss)" by (cases "clock_of t")
  note r = date_of_range [OF date] clock_of_range [OF clock]
  have y: "0 \<le> y" "y < 10000"
    using assms(1) date by (simp_all add: year4_def year_of_def)
  show ?thesis
    using r assms(2,3)
    by (simp add: format_date_time_pads [OF date clock assms(1)] parse_date [OF y])
qed

text \<open>A zone that \<open>Format\<close> can write exactly: whole minutes, less than a day.\<close>

definition zone_ok :: "int \<Rightarrow> bool" where
  "zone_ok off \<longleftrightarrow> off mod 60 = 0 \<and> \<bar>off\<bar> < 86400"

lemma go_div_abs: "0 < b \<Longrightarrow> \<bar>go_div a b\<bar> = \<bar>a\<bar> div b"
  by (cases "a = 0")
     (simp_all add: go_div_def abs_mult pos_imp_zdiv_nonneg_iff)

lemma zone_arith:
  fixes a :: int
  assumes "a mod 60 = 0"
  shows "(a div 60 div 60 * 60 + a div 60 mod 60) * 60 = a"
proof -
  have "a div 60 div 60 * 60 + a div 60 mod 60 = a div 60"
    by (rule div_mult_mod_eq)
  moreover have "a div 60 * 60 = a"
    using div_mult_mod_eq [of a 60] assms by simp
  ultimately show ?thesis by (simp only:)
qed

lemma parse_zone:
  assumes "zone_ok off"
  shows "parse_chunks [CZoneZ] (format_zone off) f = Some (f\<lparr>f_zone := Some off\<rparr>)"
proof (cases "off = 0")
  case True
  then show ?thesis by (simp add: format_zone_def)
next
  case False
  define a where "a = \<bar>off\<bar> div 60"
  have off: "off mod 60 = 0" "\<bar>off\<bar> < 86400" using assms by (simp_all add: zone_ok_def)
  have "\<bar>off\<bar> mod 60 = 0" using off(1) by presburger
  from zone_arith [OF this] have abs: "(a div 60 * 60 + a mod 60) * 60 = \<bar>off\<bar>"
    by (simp only: a_def)
  define h n where "h = a div 60" and "n = a mod 60"
  have a: "0 \<le> a" "a < 1440" using off by (auto simp: a_def)
  have hn: "0 \<le> h" "h < 24" "0 \<le> n" "n < 60" "(h * 60 + n) * 60 = \<bar>off\<bar>"
    using a abs by (auto simp: h_def n_def)
  have aa: "\<bar>go_div off 60\<bar> = a" by (simp add: go_div_abs a_def)
  have "a \<noteq> 0" using abs False by auto
  then have sg: "go_div off 60 < 0 \<longleftrightarrow> off < 0"
    using False a by (auto simp: go_div_def a_def sgn_if)
  have zone: "format_zone off = (if off < 0 then CHR ''-'' else CHR ''+'') #
      pad2 (nat h) @ CHR '':'' # pad2 (nat n)"
    using False hn by (simp add: format_zone_def aa sg append_int_2 Let_def h_def [symmetric] n_def [symmetric])
  have g: "get_zone (sgc # pad2 (nat h) @ CHR '':'' # pad2 (nat n)) =
     (if sgc = CHR ''+'' then Some (\<bar>off\<bar>, [])
      else if sgc = CHR ''-'' then Some (- \<bar>off\<bar>, []) else None)" for sgc
    using getnum_pad2 [of "nat h" True "[]"] getnum_pad2 [of "nat n" True "[]"] hn
    by (simp add: pad2_def in_range_def)
  show ?thesis unfolding zone by (simp add: g)
qed

text \<open>Parsing what \<open>Format\<close> wrote gives the instant back, cut to whole seconds.\<close>

lemma fields_time_of:
  assumes "0 \<le> year_of t"
  shows "fields_time (time_fields t\<lparr>f_zone := z\<rparr>) =
    Some \<lparr>t_sec = local_secs t - (case z of None \<Rightarrow> 0 | Some o' \<Rightarrow> o'), t_nsec = 0,
          t_off = (case z of None \<Rightarrow> 0 | Some o' \<Rightarrow> o')\<rparr>"
proof -
  obtain y m d where date: "date_of t = (y, m, d)" by (cases "date_of t")
  obtain hh mm ss where clock: "clock_of t = (hh, mm, ss)" by (cases "clock_of t")
  note r = date_of_range [OF date] clock_of_range [OF clock]
  have "(days_of_civil y m d - days_1970) * 86400 + (hh * 3600 + mm * 60 + ss) = local_secs t"
    unfolding r(6) r(13) by simp
  then have "(days_of_civil y m d - days_1970) * 86400 + hh * 3600 + mm * 60 + ss = local_secs t"
    by simp
  with r show ?thesis
    by (simp add: fields_time_def time_fields_def date clock no_fields_def Let_def)
qed

lemma parse_format_RFC3339:
  assumes "year4 t" "zone_ok (t_off t)"
  shows "time_Parse layout_RFC3339 (format_RFC3339 t) = Some (t\<lparr>t_nsec := 0\<rparr>)"
proof -
  have "hd (format_zone (t_off t)) \<noteq> CHR ''.''" "hd (format_zone (t_off t)) \<noteq> CHR '',''"
    by (simp_all add: format_zone_def Let_def)
  then have "parse_chunks layout_RFC3339 (format_RFC3339 t) no_fields =
      Some (time_fields t\<lparr>f_zone := Some (t_off t)\<rparr>)"
    using parse_date_time [OF assms(1), of "format_zone (t_off t)" "CHR ''T''" "[CZoneZ]"]
      parse_zone [OF assms(2)]
    by (simp add: layout_RFC3339_def format_RFC3339_def)
  then show ?thesis
    using assms(1) fields_time_of [of t "Some (t_off t)"]
    by (simp add: time_Parse_def year4_def local_secs_def)
qed

text \<open>A date and time without a zone is not an RFC 3339 text in any of the layouts with one.\<close>

lemma parse_datetime_text:
  assumes "year4 t"
  shows "time_Parse layout_RFC3339 (format_datetime t) = None"
    "time_Parse layout_T_Z (format_datetime t) = None"
    "time_Parse layout_space_zone (format_datetime t) = None"
  using parse_wrong_separator [OF assms, of "CHR ''T''" "CHR '' ''" "layout_clock @ cs" "[]" for cs]
    parse_date_time [OF assms, of "[]" "CHR '' ''" "[CZoneNum]"]
  by (simp_all add: time_Parse_def format_datetime_def layout_RFC3339_def layout_T_Z_def
      layout_space_zone_def)

section \<open>Order of timestamp texts\<close>

text \<open>
  SQLite compares \<open>TEXT\<close> values byte by byte, which is the order on strings here
  (\<open>List_Lexorder\<close> over \<open>Char_ord\<close>).  Texts of one layout are in the order of the local
  times they denote.
\<close>

lemma append_less:
  fixes xs ys :: "'a::order list"
  shows "length xs = length ys \<Longrightarrow> xs @ us < ys @ vs \<longleftrightarrow> xs < ys \<or> xs = ys \<and> us < vs"
  by (induction xs ys rule: list_induct2) auto

lemma digit_pair_less:
  fixes m n :: nat
  shows "m div 10 < n div 10 \<or> m div 10 = n div 10 \<and> m mod 10 < n mod 10 \<longleftrightarrow> m < n"
proof -
  have "m = m div 10 * 10 + m mod 10" "n = n div 10 * 10 + n mod 10"
    and "m mod 10 < 10" "n mod 10 < 10" by simp_all
  then show ?thesis by arith
qed

lemma pad2_less: "m < 100 \<Longrightarrow> n < 100 \<Longrightarrow> pad2 m < pad2 n \<longleftrightarrow> m < n"
proof -
  assume "m < 100" "n < 100"
  then have "m div 10 < 10" "n div 10 < 10" by linarith+
  then show ?thesis
    using digit_pair_less [of m n] by (auto simp: pad2_def digit_char_less digit_char_inj)
qed

lemma pad4_less: "m < 10000 \<Longrightarrow> n < 10000 \<Longrightarrow> pad4 m < pad4 n \<longleftrightarrow> m < n"
proof -
  assume mn: "m < 10000" "n < 10000"
  have split: "pad4 k = pad2 (k div 100) @ pad2 (k mod 100)" for k
  proof -
    have "k mod 100 div 10 = k div 10 mod 10"
      using mod_mult2_eq [of k 10 10] by simp
    moreover have "k mod 100 mod 10 = k mod 10" by (rule mod_mod_cancel) simp
    ultimately show ?thesis by (simp add: pad4_def pad2_def div_mult2_eq [symmetric])
  qed
  have r: "m div 100 < 100" "n div 100 < 100" "m mod 100 < 100" "n mod 100 < 100"
    using mn by auto
  have "pad2 a = pad2 b \<longleftrightarrow> a = b" if "a < 100" "b < 100" for a b
    using pad2_less [OF that] pad2_less [OF that(2,1)] by (metis less_irrefl linorder_neqE_nat)
  with r have "pad4 m < pad4 n \<longleftrightarrow>
      m div 100 < n div 100 \<or> m div 100 = n div 100 \<and> m mod 100 < n mod 100"
    by (simp add: split append_less pad2_less)
  moreover have "m = m div 100 * 100 + m mod 100" "n = n div 100 * 100 + n mod 100"
    by simp_all
  ultimately show ?thesis using r(3,4) by arith
qed

lemma pad2_eq: "m < 100 \<Longrightarrow> n < 100 \<Longrightarrow> pad2 m = pad2 n \<longleftrightarrow> m = n"
  using pad2_less [of m n] pad2_less [of n m] by (metis less_irrefl linorder_neqE_nat)

lemma pad4_eq: "m < 10000 \<Longrightarrow> n < 10000 \<Longrightarrow> pad4 m = pad4 n \<longleftrightarrow> m = n"
  using pad4_less [of m n] pad4_less [of n m] by (metis less_irrefl linorder_neqE_nat)

lemma civil_year_mono: "a \<le> b \<Longrightarrow> civil_year a \<le> civil_year b"
proof (rule ccontr)
  assume ab: "a \<le> b" and "\<not> civil_year a \<le> civil_year b"
  then have "civil_year b + 1 \<le> civil_year a" by simp
  then have "days_before_year (civil_year b + 1) \<le> days_before_year (civil_year a)"
    using days_before_year_mono [of "civil_year b + 1" "civil_year a"]
    by (cases "civil_year b + 1 = civil_year a") auto
  then show False
    using civil_year_bounds [of a] civil_year_bounds [of b] ab by linarith
qed

lemma month_step:
  "1 \<le> m \<Longrightarrow> m \<le> 11 \<Longrightarrow>
   days_before_month (is_leap y) (m + 1) = days_before_month (is_leap y) m + daysIn m y"
  by (rule month_cases [of m]) (simp_all add: days_before_month_def daysIn_def)

lemma month_gap:
  "m < m' \<Longrightarrow> 1 \<le> m \<Longrightarrow> m' \<le> 12 \<Longrightarrow>
   days_before_month (is_leap y) m + daysIn m y \<le> days_before_month (is_leap y) m'"
proof (induction m' rule: int_gr_induct [of m])
  case base
  then show ?case by (simp add: month_step)
next
  case (step i)
  moreover have "0 \<le> daysIn i y" by (simp add: daysIn_def)
  ultimately show ?case by (simp add: month_step)
qed

lemma civil_less:
  assumes a: "civil_of_days a = (y, m, d)" and b: "civil_of_days b = (y', m', d')" and "a < b"
  shows "(y, m, d) < (y', m', d')"
proof (cases "y = y'")
  case False
  then show ?thesis
    using civil_year_mono [of a b] assms by (auto simp: civil_of_days_def Let_def)
next
  case True
  note va = civil_of_days_valid [OF a] and vb = civil_of_days_valid [OF b]
  have "\<not> m' < m"
    using month_gap [of m' m y] va vb True \<open>a < b\<close> by (auto simp: days_of_civil_def)
  moreover have "d < d'" if "m = m'"
    using va(1) vb(1) True that \<open>a < b\<close> by (auto simp: days_of_civil_def)
  ultimately show ?thesis using True by (cases "m = m'") auto
qed

lemma civil_less_iff:
  assumes a: "civil_of_days a = (y, m, d)" and b: "civil_of_days b = (y', m', d')"
  shows "(y, m, d) < (y', m', d') \<longleftrightarrow> a < b" "(y, m, d) = (y', m', d') \<longleftrightarrow> a = b"
proof -
  consider "a < b" | "a = b" | "b < a" by linarith
  then have "((y, m, d) < (y', m', d') \<longleftrightarrow> a < b) \<and> ((y, m, d) = (y', m', d') \<longleftrightarrow> a = b)"
  proof cases
    case 1
    with civil_less [OF a b] show ?thesis by auto
  next
    case 2
    with a b show ?thesis by simp
  next
    case 3
    with civil_less [OF b a] show ?thesis by auto
  qed
  then show "(y, m, d) < (y', m', d') \<longleftrightarrow> a < b" "(y, m, d) = (y', m', d') \<longleftrightarrow> a = b"
    by blast+
qed

lemma clock_less_iff:
  fixes h m s h' m' s' :: int
  assumes "0 \<le> m" "m < 60" "0 \<le> s" "s < 60" "0 \<le> m'" "m' < 60" "0 \<le> s'" "s' < 60"
  shows "h * 3600 + m * 60 + s < h' * 3600 + m' * 60 + s' \<longleftrightarrow> (h, m, s) < (h', m', s')"
  using assms by auto

lemma day_split_less:
  fixes a b :: int
  assumes that: "0 < k"
  shows "a < b \<longleftrightarrow> a div k < b div k \<or> a div k = b div k \<and> a mod k < b mod k"
proof -
  have e: "a = a div k * k + a mod k" "b = b div k * k + b mod k" by simp_all
  have r: "0 \<le> a mod k" "a mod k < k" "0 \<le> b mod k" "b mod k < k" using that by simp_all
  consider "a div k < b div k" | "a div k = b div k" | "b div k < a div k" by linarith
  then show ?thesis
  proof cases
    case 1
    then have "\<not> b \<le> a" using zdiv_mono1 [of b a k] that by linarith
    with 1 show ?thesis by simp
  next
    case 2
    then show ?thesis using e by (metis add_less_cancel_left less_irrefl)
  next
    case 3
    then have "\<not> a \<le> b" using zdiv_mono1 [of a b k] that by linarith
    with 3 show ?thesis by simp
  qed
qed

lemma pads_less:
  assumes "y < 10000" "m < 100" "d < 100" "h < 100" "n < 100" "s < 100"
    "y' < 10000" "m' < 100" "d' < 100" "h' < 100" "n' < 100" "s' < 100"
  shows "pad4 y @ c # pad2 m @ c # pad2 d @ sep # pad2 h @ k # pad2 n @ k # pad2 s
       < pad4 y' @ c # pad2 m' @ c # pad2 d' @ sep # pad2 h' @ k # pad2 n' @ k # pad2 s'
    \<longleftrightarrow> (y, m, d, h, n, s) < (y', m', d', h', n', s')"
  using assms by (auto simp add: append_less pad2_less pad4_less pad2_eq pad4_eq)

lemma nat_tuple_less:
  fixes y m d h n s :: int
  assumes "0 \<le> y" "0 \<le> m" "0 \<le> d" "0 \<le> h" "0 \<le> n" "0 \<le> s"
    "0 \<le> y'" "0 \<le> m'" "0 \<le> d'" "0 \<le> h'" "0 \<le> n'" "0 \<le> s'"
  shows "(nat y, nat m, nat d, nat h, nat n, nat s) < (nat y', nat m', nat d', nat h', nat n', nat s')
    \<longleftrightarrow> (y, m, d, h, n, s) < (y', m', d', h', n', s')"
proof -
  have "nat a < nat b \<longleftrightarrow> a < b" "nat a \<le> nat b \<longleftrightarrow> a \<le> b" if "0 \<le> a" "0 \<le> b" for a b
    using that by linarith+
  then show ?thesis using assms by (simp only: less_prod_simp)
qed

lemma format_date_time_less:
  assumes "year4 t" "year4 u"
  shows "format_date_time sep t < format_date_time sep u \<longleftrightarrow> local_secs t < local_secs u"
proof -
  obtain y m d where date: "date_of t = (y, m, d)" by (cases "date_of t")
  obtain hh mm ss where clock: "clock_of t = (hh, mm, ss)" by (cases "clock_of t")
  obtain y' m' d' where date': "date_of u = (y', m', d')" by (cases "date_of u")
  obtain hh' mm' ss' where clock': "clock_of u = (hh', mm', ss')" by (cases "clock_of u")
  note r = date_of_range [OF date] clock_of_range [OF clock]
  note r' = date_of_range [OF date'] clock_of_range [OF clock']
  have y: "0 \<le> y" "y < 10000" "0 \<le> y'" "y' < 10000"
    using assms date date' by (simp_all add: year4_def year_of_def)
  have days: "local_secs t div 86400 < local_secs u div 86400 \<longleftrightarrow> (y, m, d) < (y', m', d')"
    "local_secs t div 86400 = local_secs u div 86400 \<longleftrightarrow> (y, m, d) = (y', m', d')"
    using civil_less_iff [of _ y m d _ y' m' d'] date date' by (auto simp: date_of_def)
  have secs: "local_secs t mod 86400 < local_secs u mod 86400 \<longleftrightarrow> (hh, mm, ss) < (hh', mm', ss')"
    using clock_less_iff r r' by (metis r(13) r'(13))
  have "local_secs t < local_secs u \<longleftrightarrow>
      (y, m, d) < (y', m', d') \<or> (y, m, d) = (y', m', d') \<and> (hh, mm, ss) < (hh', mm', ss')"
    using day_split_less [of 86400 "local_secs t" "local_secs u"] by (simp add: days secs)
  also have "\<dots> \<longleftrightarrow> (y, m, d, hh, mm, ss) < (y', m', d', hh', mm', ss')"
    by auto
  also have "\<dots> \<longleftrightarrow> (nat y, nat m, nat d, nat hh, nat mm, nat ss)
      < (nat y', nat m', nat d', nat hh', nat mm', nat ss')"
    by (rule nat_tuple_less [symmetric]) (use r r' y in simp_all)
  also have "\<dots> \<longleftrightarrow> format_date_time sep t < format_date_time sep u"
    unfolding format_date_time_pads [OF date clock assms(1)] format_date_time_pads [OF date' clock' assms(2)]
    by (rule pads_less [symmetric]) (use r(2,5,8,10,12) r'(2,5,8,10,12) y in linarith)+
  finally show ?thesis by blast
qed

lemma format_date_time_le:
  assumes "year4 t" "year4 u"
  shows "format_date_time sep t \<le> format_date_time sep u \<longleftrightarrow> local_secs t \<le> local_secs u"
  using format_date_time_less [OF assms(2,1), of sep] by (simp add: linorder_not_less [symmetric])

lemma format_date_time_length: "year4 t \<Longrightarrow> length (format_date_time sep t) = 19"
  by (cases "date_of t"; cases "clock_of t") (simp add: format_date_time_pads)

text \<open>RFC 3339 texts in one zone are in the order of the instants.\<close>

lemma format_RFC3339_le:
  assumes "year4 t" "year4 u" "t_off t = t_off u"
  shows "format_RFC3339 t \<le> format_RFC3339 u \<longleftrightarrow> t_sec t \<le> t_sec u"
proof -
  have "format_RFC3339 u < format_RFC3339 t \<longleftrightarrow>
      format_date_time (CHR ''T'') u < format_date_time (CHR ''T'') t"
    using assms by (simp add: format_RFC3339_def append_less format_date_time_length)
  then show ?thesis
    using format_date_time_less [OF assms(2,1)] assms(3)
    by (auto simp: linorder_not_less [symmetric] local_secs_def)
qed

lemma format_datetime_le:
  "year4 t \<Longrightarrow> year4 u \<Longrightarrow> t_off t = t_off u \<Longrightarrow>
   format_datetime t \<le> format_datetime u \<longleftrightarrow> t_sec t \<le> t_sec u"
  by (simp add: format_datetime_def format_date_time_le local_secs_def)

end
