(* ===== verification/GoJson.thy ===== *)
theory GoJson
  imports GoTime
begin

text \<open>
  The part of \<open>encoding/json\<close> the program uses: the validity check and value structure of a
  document (a lexer and a stack machine, like Go's scanner), unquoting of string literals, the
  decoding of numbers, strings, string slices and \<open>time.Time\<close>, case-insensitive matching of
  object keys to struct fields, and \<open>Marshal\<close> of a \<open>[]string\<close>.
\<close>

section \<open>Lexer\<close>

datatype token =
    TLBrace | TRBrace | TLBrack | TRBrack | TColon | TComma
  | TStr string | TNum string | TTrue | TFalse | TNull

abbreviation quote_char :: char where "quote_char \<equiv> CHR 0x22"
abbreviation backslash :: char where "backslash \<equiv> CHR 0x5C"

definition hex_val :: "char \<Rightarrow> nat option" where
  "hex_val c =
     (if is_digit c then Some (digit_val c)
      else if c \<in> set ''abcdef'' then Some (of_char c - 87)
      else if c \<in> set ''ABCDEF'' then Some (of_char c - 55) else None)"

definition is_hex :: "char \<Rightarrow> bool" where
  "is_hex c \<longleftrightarrow> hex_val c \<noteq> None"

text \<open>The raw text of a string literal up to its closing quote, and the rest of the input.\<close>

fun lex_string :: "string \<Rightarrow> (string \<times> string) option" where
  "lex_string [] = None"
| "lex_string (c # s) =
     (if c = quote_char then Some ([], s)
      else if c = backslash then
        (case s of
           [] \<Rightarrow> None
         | e # s' \<Rightarrow>
             if e = CHR ''u'' then
               (case s' of
                  h1 # h2 # h3 # h4 # s'' \<Rightarrow>
                    if is_hex h1 \<and> is_hex h2 \<and> is_hex h3 \<and> is_hex h4
                    then map_option (\<lambda>(r, t). (c # e # h1 # h2 # h3 # h4 # r, t)) (lex_string s'')
                    else None
                | _ \<Rightarrow> None)
             else if e \<in> set ''bfnrt/'' \<or> e = backslash \<or> e = quote_char
             then map_option (\<lambda>(r, t). (c # e # r, t)) (lex_string s')
             else None)
      else if of_char c < (32 :: nat) then None
      else map_option (\<lambda>(r, t). (c # r, t)) (lex_string s))"

lemma lex_string_shorter: "lex_string s = Some (r, t) \<Longrightarrow> length t < length s"
  by (induction s arbitrary: r t rule: lex_string.induct)
     (fastforce split: if_splits list.splits)+

text \<open>A number literal: sign, integer part, fraction, exponent.\<close>

definition lex_int :: "string \<Rightarrow> (string \<times> string) option" where
  "lex_int s =
     (case s of
        [] \<Rightarrow> None
      | c # r \<Rightarrow> if c = CHR ''0'' then Some (''0'', r)
                else if is_digit c then Some (takeWhile is_digit s, dropWhile is_digit s) else None)"

definition lex_frac :: "string \<Rightarrow> (string \<times> string) option" where
  "lex_frac s =
     (case s of
        c # r \<Rightarrow> if c = CHR ''.'' then
                   (if takeWhile is_digit r = [] then None
                    else Some (c # takeWhile is_digit r, dropWhile is_digit r))
                 else Some ([], s)
      | [] \<Rightarrow> Some ([], s))"

definition lex_exp :: "string \<Rightarrow> (string \<times> string) option" where
  "lex_exp s =
     (case s of
        c # r \<Rightarrow>
          if c = CHR ''e'' \<or> c = CHR ''E'' then
            (let sg = (case r of x # _ \<Rightarrow> if x = CHR ''+'' \<or> x = CHR ''-'' then [x] else [] | [] \<Rightarrow> []);
                 r' = drop (length sg) r
             in if takeWhile is_digit r' = [] then None
                else Some (c # sg @ takeWhile is_digit r', dropWhile is_digit r'))
          else Some ([], s)
      | [] \<Rightarrow> Some ([], s))"

definition lex_number :: "string \<Rightarrow> (string \<times> string) option" where
  "lex_number s =
     (let sg = (case s of x # _ \<Rightarrow> if x = CHR ''-'' then [x] else [] | [] \<Rightarrow> []) in
      case lex_int (drop (length sg) s) of None \<Rightarrow> None | Some (i, s1) \<Rightarrow>
      case lex_frac s1 of None \<Rightarrow> None | Some (f, s2) \<Rightarrow>
      case lex_exp s2 of None \<Rightarrow> None | Some (e, s3) \<Rightarrow> Some (sg @ i @ f @ e, s3))"

lemma lex_int_shorter: "lex_int s = Some (i, t) \<Longrightarrow> length t < length s"
  by (auto simp: lex_int_def length_dropWhile_le less_Suc_eq_le split: list.splits if_splits)

lemma lex_frac_shorter: "lex_frac s = Some (i, t) \<Longrightarrow> length t \<le> length s"
  by (auto simp: lex_frac_def le_SucI length_dropWhile_le split: list.splits if_splits)

lemma lex_exp_shorter: "lex_exp s = Some (i, t) \<Longrightarrow> length t \<le> length s"
  by (auto simp: lex_exp_def Let_def intro: le_SucI le_trans [OF length_dropWhile_le]
      split: list.splits if_splits)

lemma lex_number_shorter: "lex_number s = Some (n, t) \<Longrightarrow> length t < length s"
  by (auto simp: lex_number_def Let_def split: option.splits list.splits if_splits
      dest!: lex_int_shorter lex_frac_shorter lex_exp_shorter)

definition is_space :: "char \<Rightarrow> bool" where
  "is_space c \<longleftrightarrow> c = CHR '' '' \<or> c = CHR 0x09 \<or> c = CHR 0x0A \<or> c = CHR 0x0D"

definition punct :: "char \<Rightarrow> token option" where
  "punct c =
     (if c = CHR ''{'' then Some TLBrace else if c = CHR ''}'' then Some TRBrace
      else if c = CHR ''['' then Some TLBrack else if c = CHR '']'' then Some TRBrack
      else if c = CHR '':'' then Some TColon else if c = CHR '','' then Some TComma else None)"

definition literal_token :: "string \<Rightarrow> (token \<times> nat) option" where
  "literal_token s =
     (if take 4 s = ''true'' then Some (TTrue, 4) else if take 5 s = ''false'' then Some (TFalse, 5)
      else if take 4 s = ''null'' then Some (TNull, 4) else None)"

function lex :: "string \<Rightarrow> token list option" where
  "lex [] = Some []"
| "lex (c # s) =
     (if is_space c then lex s
      else case punct c of Some p \<Rightarrow> map_option (Cons p) (lex s) | None \<Rightarrow>
      if c = quote_char then
        (case lex_string s of None \<Rightarrow> None | Some (r, t) \<Rightarrow> map_option (Cons (TStr r)) (lex t))
      else case literal_token (c # s) of
        Some (l, n) \<Rightarrow> map_option (Cons l) (lex (drop n (c # s)))
      | None \<Rightarrow>
          (case lex_number (c # s) of None \<Rightarrow> None
           | Some (n, t) \<Rightarrow> map_option (Cons (TNum n)) (lex t)))"
  by pat_completeness auto
termination
  by (relation "measure length")
     (auto simp: literal_token_def split: if_splits dest!: lex_string_shorter lex_number_shorter)

section \<open>Values\<close>

text \<open>String literals and keys keep their raw text, as the decoder sees it.\<close>

datatype json =
    JNull | JBool bool | JNum string | JStr string
  | JArr "json list" | JObj "(string \<times> json) list"

text \<open>
  The scanner's stack: an open array with its elements in reverse, an open object with its
  members in reverse and the key whose value is being read.
\<close>

datatype frame = FArr "json list" | FObj "(string \<times> json) list" string

datatype mode =
    MVal | MValOrEnd | MKey | MKeyOrEnd | MColon | MArrNext | MObjNext | MDone json

fun emit :: "json \<Rightarrow> frame list \<Rightarrow> frame list \<times> mode" where
  "emit v [] = ([], MDone v)"
| "emit v (FArr xs # st) = (FArr (v # xs) # st, MArrNext)"
| "emit v (FObj kvs k # st) = (FObj ((k, v) # kvs) k # st, MObjNext)"

definition maxNestingDepth :: nat where
  "maxNestingDepth = 10000"

fun begin_value :: "frame list \<Rightarrow> token \<Rightarrow> (frame list \<times> mode) option" where
  "begin_value st (TStr s) = Some (emit (JStr s) st)"
| "begin_value st (TNum n) = Some (emit (JNum n) st)"
| "begin_value st TTrue = Some (emit (JBool True) st)"
| "begin_value st TFalse = Some (emit (JBool False) st)"
| "begin_value st TNull = Some (emit JNull st)"
| "begin_value st TLBrack =
     (if length st < maxNestingDepth then Some (FArr [] # st, MValOrEnd) else None)"
| "begin_value st TLBrace =
     (if length st < maxNestingDepth then Some (FObj [] [] # st, MKeyOrEnd) else None)"
| "begin_value st t = None"

fun end_value :: "frame list \<Rightarrow> token \<Rightarrow> (frame list \<times> mode) option" where
  "end_value (FArr xs # st) TRBrack = Some (emit (JArr (rev xs)) st)"
| "end_value (FObj kvs k # st) TRBrace = Some (emit (JObj (rev kvs)) st)"
| "end_value st t = None"

fun begin_key :: "frame list \<Rightarrow> token \<Rightarrow> (frame list \<times> mode) option" where
  "begin_key (FObj kvs k # st) (TStr s) = Some (FObj kvs s # st, MColon)"
| "begin_key st t = None"

definition json_step :: "frame list \<Rightarrow> mode \<Rightarrow> token \<Rightarrow> (frame list \<times> mode) option" where
  "json_step st m t =
     (case m of
        MVal \<Rightarrow> begin_value st t
      | MValOrEnd \<Rightarrow> if t = TRBrack then end_value st t else begin_value st t
      | MKey \<Rightarrow> begin_key st t
      | MKeyOrEnd \<Rightarrow> if t = TRBrace then end_value st t else begin_key st t
      | MColon \<Rightarrow> if t = TColon then Some (st, MVal) else None
      | MArrNext \<Rightarrow> if t = TComma then Some (st, MVal) else if t = TRBrack then end_value st t else None
      | MObjNext \<Rightarrow> if t = TComma then Some (st, MKey) else if t = TRBrace then end_value st t else None
      | MDone v \<Rightarrow> None)"

fun json_steps :: "frame list \<Rightarrow> mode \<Rightarrow> token list \<Rightarrow> json option" where
  "json_steps st m [] = (case m of MDone v \<Rightarrow> Some v | _ \<Rightarrow> None)"
| "json_steps st m (t # ts) =
     (case json_step st m t of None \<Rightarrow> None | Some (st', m') \<Rightarrow> json_steps st' m' ts)"

definition json_parse :: "bytes \<Rightarrow> json option" where
  "json_parse s = (case lex s of None \<Rightarrow> None | Some ts \<Rightarrow> json_steps [] MVal ts)"

section \<open>Strings\<close>

text \<open>The bytes of a code point in UTF-8 (\<open>utf8.EncodeRune\<close>) and the replacement character.\<close>

definition utf8_enc :: "nat \<Rightarrow> string" where
  "utf8_enc n =
     (if n < 128 then [char_of n]
      else if n < 2048 then [char_of (192 + n div 64), char_of (128 + n mod 64)]
      else if n < 65536 then
        [char_of (224 + n div 4096), char_of (128 + n div 64 mod 64), char_of (128 + n mod 64)]
      else [char_of (240 + n div 262144), char_of (128 + n div 4096 mod 64),
            char_of (128 + n div 64 mod 64), char_of (128 + n mod 64)])"

definition replacement :: string where
  "replacement = [CHR 0xEF, CHR 0xBF, CHR 0xBD]"

text \<open>
  The length of the valid multi-byte sequence at the head of a text, 0 when there is none
  (\<open>utf8.DecodeRune\<close> then reports an invalid byte).
\<close>

definition byte_in :: "nat \<Rightarrow> nat \<Rightarrow> char \<Rightarrow> bool" where
  "byte_in lo hi c \<longleftrightarrow> lo \<le> of_char c \<and> of_char c \<le> hi"

definition utf8_len :: "string \<Rightarrow> nat" where
  "utf8_len s =
     (case s of
        a # b # r \<Rightarrow>
          if byte_in 194 223 a then (if byte_in 128 191 b then 2 else 0)
          else (case r of
            c # r' \<Rightarrow>
              if byte_in 224 239 a then
                (if byte_in (if of_char a = (224::nat) then 160 else 128)
                            (if of_char a = (237::nat) then 159 else 191) b
                    \<and> byte_in 128 191 c then 3 else 0)
              else (case r' of
                d # _ \<Rightarrow>
                  if byte_in 240 244 a
                     \<and> byte_in (if of_char a = (240::nat) then 144 else 128)
                               (if of_char a = (244::nat) then 143 else 191) b
                     \<and> byte_in 128 191 c \<and> byte_in 128 191 d
                  then 4 else 0
              | [] \<Rightarrow> 0)
          | [] \<Rightarrow> 0)
      | _ \<Rightarrow> 0)"

text \<open>\<open>getu4\<close>: the code of \<open>\uXXXX\<close> at the head of the text.\<close>

fun getu4 :: "string \<Rightarrow> nat option" where
  "getu4 (b # u # h1 # h2 # h3 # h4 # s) =
     (if b = backslash \<and> u = CHR ''u'' then
        (case (hex_val h1, hex_val h2, hex_val h3, hex_val h4) of
           (Some a, Some b, Some c, Some d) \<Rightarrow> Some (((a * 16 + b) * 16 + c) * 16 + d)
         | _ \<Rightarrow> None)
      else None)"
| "getu4 s = None"

text \<open>The character a one-letter escape stands for.\<close>

definition unescape :: "char \<Rightarrow> char" where
  "unescape e =
     (if e = CHR ''b'' then CHR 0x08 else if e = CHR ''f'' then CHR 0x0C
      else if e = CHR ''n'' then CHR 0x0A else if e = CHR ''r'' then CHR 0x0D
      else if e = CHR ''t'' then CHR 0x09 else e)"

text \<open>
  \<open>unquote\<close> on the raw text of a literal: escapes are decoded, surrogate pairs joined, lone
  surrogates and invalid bytes replaced.
\<close>

function unquote :: "string \<Rightarrow> string" where
  "unquote [] = []"
| "unquote (c # s) =
     (if c = backslash then
        (case getu4 (c # s) of
           Some r \<Rightarrow>
             if 55296 \<le> r \<and> r < 57344 then
               (case getu4 (drop 5 s) of
                  Some r1 \<Rightarrow>
                    if r < 56320 \<and> 56320 \<le> r1 \<and> r1 < 57344
                    then utf8_enc ((r - 55296) * 1024 + (r1 - 56320) + 65536) @ unquote (drop 11 s)
                    else replacement @ unquote (drop 5 s)
                | None \<Rightarrow> replacement @ unquote (drop 5 s))
             else utf8_enc r @ unquote (drop 5 s)
         | None \<Rightarrow> (case s of [] \<Rightarrow> [] | e # s' \<Rightarrow> unescape e # unquote s'))
      else if of_char c < (128 :: nat) then c # unquote s
      else if utf8_len (c # s) = 0 then replacement @ unquote s
      else take (utf8_len (c # s)) (c # s) @ unquote (drop (utf8_len (c # s) - 1) s))"
  by pat_completeness auto
termination by (relation "measure length") auto

text \<open>
  Case folding of keys: ASCII letters to upper case, and the two other characters that fold to
  an ASCII letter (the Kelvin sign and the long s).
\<close>

definition ascii_upper :: "char \<Rightarrow> char" where
  "ascii_upper c = (if byte_in 97 122 c then char_of (of_char c - 32 :: nat) else c)"

fun fold_name :: "string \<Rightarrow> string" where
  "fold_name (a # b # c # s) =
     (if a = CHR 0xE2 \<and> b = CHR 0x84 \<and> c = CHR 0xAA then CHR ''K'' # fold_name s
      else if a = CHR 0xC5 \<and> b = CHR 0xBF then CHR ''S'' # fold_name (c # s)
      else ascii_upper a # fold_name (b # c # s))"
| "fold_name [a, b] =
     (if a = CHR 0xC5 \<and> b = CHR 0xBF then ''S'' else [ascii_upper a, ascii_upper b])"
| "fold_name [a] = [ascii_upper a]"
| "fold_name [] = []"

definition key_matches :: "string \<Rightarrow> string \<Rightarrow> bool" where
  "key_matches field raw \<longleftrightarrow> fold_name (unquote raw) = fold_name field"

section \<open>Decoding into Go values\<close>

text \<open>
  A decoder takes the value already in the destination, as \<open>null\<close> leaves it unchanged and a
  repeated key decodes onto it.  \<open>None\<close> is an error of \<open>Unmarshal\<close>.
\<close>

definition decode_string :: "string \<Rightarrow> json \<Rightarrow> string option" where
  "decode_string cur v = (case v of JStr r \<Rightarrow> Some (unquote r) | JNull \<Rightarrow> Some cur | _ \<Rightarrow> None)"

definition int_literal :: "string \<Rightarrow> int option" where
  "int_literal n =
     (let neg = (take 1 n = ''-''); ds = (if neg then drop 1 n else n); v = int (digits_val ds)
      in if ds \<noteq> [] \<and> (\<forall>c \<in> set ds. is_digit c) then Some (if neg then - v else v) else None)"

definition decode_int64 :: "int \<Rightarrow> json \<Rightarrow> int option" where
  "decode_int64 cur v =
     (case v of
        JNum n \<Rightarrow> (case int_literal n of None \<Rightarrow> None | Some i \<Rightarrow> if in_int64 i then Some i else None)
      | JNull \<Rightarrow> Some cur
      | _ \<Rightarrow> None)"

definition decode_time :: "gotime \<Rightarrow> json \<Rightarrow> gotime option" where
  "decode_time cur v =
     (case v of JStr r \<Rightarrow> time_Parse layout_RFC3339 r | JNull \<Rightarrow> Some cur | _ \<Rightarrow> None)"

text \<open>A slice: elements decode onto the elements already there, new ones onto the empty string.\<close>

fun decode_elems :: "string list \<Rightarrow> json list \<Rightarrow> string list option" where
  "decode_elems cur [] = Some []"
| "decode_elems cur (v # vs) =
     (case decode_string (case cur of [] \<Rightarrow> [] | c # _ \<Rightarrow> c) v of None \<Rightarrow> None | Some x \<Rightarrow>
      case decode_elems (drop 1 cur) vs of None \<Rightarrow> None | Some xs \<Rightarrow> Some (x # xs))"

definition decode_strings :: "string list \<Rightarrow> json \<Rightarrow> string list option" where
  "decode_strings cur v = (case v of JArr vs \<Rightarrow> decode_elems cur vs | JNull \<Rightarrow> Some [] | _ \<Rightarrow> None)"

text \<open>
  A struct: each member goes to the field its key names; unknown keys are skipped.  \<open>ft\<close> maps
  a raw key to the decoder of the whole struct with that field replaced.
\<close>

fun decode_members ::
  "(string \<Rightarrow> ('r \<Rightarrow> json \<Rightarrow> 'r option) option) \<Rightarrow> 'r \<Rightarrow> (string \<times> json) list \<Rightarrow> 'r option" where
  "decode_members ft r [] = Some r"
| "decode_members ft r ((k, v) # kvs) =
     (case ft k of
        None \<Rightarrow> decode_members ft r kvs
      | Some d \<Rightarrow> (case d r v of None \<Rightarrow> None | Some r' \<Rightarrow> decode_members ft r' kvs))"

definition decode_struct ::
  "(string \<Rightarrow> ('r \<Rightarrow> json \<Rightarrow> 'r option) option) \<Rightarrow> 'r \<Rightarrow> json \<Rightarrow> 'r option" where
  "decode_struct ft cur v =
     (case v of JObj kvs \<Rightarrow> decode_members ft cur kvs | JNull \<Rightarrow> Some cur | _ \<Rightarrow> None)"

text \<open>The decoder of one field, from a decoder of its value, its reader and its writer.\<close>

definition field_decoder ::
  "('f \<Rightarrow> json \<Rightarrow> 'f option) \<Rightarrow> ('r \<Rightarrow> 'f) \<Rightarrow> ('f \<Rightarrow> 'r \<Rightarrow> 'r) \<Rightarrow> 'r \<Rightarrow> json \<Rightarrow> 'r option" where
  "field_decoder d getf setf r v = map_option (\<lambda>x. setf x r) (d (getf r) v)"

text \<open>The first field of a table whose name the key matches.\<close>

fun lookup_field :: "(string \<times> 'd) list \<Rightarrow> string \<Rightarrow> 'd option" where
  "lookup_field [] k = None"
| "lookup_field ((n, d) # fs) k = (if key_matches n k then Some d else lookup_field fs k)"

text \<open>
  Decoding into \<open>map[string]interface{}\<close> succeeds on an object (or \<open>null\<close>) all of whose numbers
  are in the range of a \<open>float64\<close>.
\<close>

definition float_in_range :: "string \<Rightarrow> bool" where
  "float_in_range n =
     (let body = (if take 1 n = ''-'' then drop 1 n else n);
          mant = takeWhile (\<lambda>c. c \<noteq> CHR ''e'' \<and> c \<noteq> CHR ''E'') body;
          ex = drop (Suc (length mant)) body;
          ip = takeWhile is_digit mant; fp = drop (Suc (length ip)) mant;
          m = digits_val (ip @ fp);
          e = (if take 1 ex = ''-'' then - int (digits_val (drop 1 ex))
               else if take 1 ex = ''+'' then int (digits_val (drop 1 ex))
               else int (digits_val ex)) - int (length fp)
      in if 0 \<le> e then m * 10 ^ nat e < 2 ^ 1024 - 2 ^ 970
         else m < (2 ^ 1024 - 2 ^ 970) * 10 ^ nat (- e))"

fun numbers_in_range :: "json \<Rightarrow> bool" where
  "numbers_in_range (JNum n) = float_in_range n"
| "numbers_in_range (JArr vs) = (\<forall>v \<in> set vs. numbers_in_range v)"
| "numbers_in_range (JObj kvs) = (\<forall>kv \<in> set kvs. numbers_in_range (snd kv))"
| "numbers_in_range v = True"

definition unmarshal_map :: "bytes \<Rightarrow> bool" where
  "unmarshal_map s =
     (case json_parse s of
        Some (JObj kvs) \<Rightarrow> numbers_in_range (JObj kvs)
      | Some JNull \<Rightarrow> True
      | _ \<Rightarrow> False)"

section \<open>Marshal of a string slice\<close>

definition hex_digit :: "nat \<Rightarrow> char" where
  "hex_digit n = ''0123456789abcdef'' ! n"

definition escape_byte :: "char \<Rightarrow> string" where
  "escape_byte c =
     (if c = quote_char \<or> c = backslash then [backslash, c]
      else if c = CHR 0x08 then [backslash, CHR ''b''] else if c = CHR 0x0C then [backslash, CHR ''f'']
      else if c = CHR 0x0A then [backslash, CHR ''n''] else if c = CHR 0x0D then [backslash, CHR ''r'']
      else if c = CHR 0x09 then [backslash, CHR ''t'']
      else if of_char c < (32::nat) \<or> c = CHR ''<'' \<or> c = CHR ''>'' \<or> c = CHR ''&''
      then [backslash] @ ''u00'' @ [hex_digit (of_char c div 16), hex_digit (of_char c mod 16)]
      else [c])"

function escape_string :: "string \<Rightarrow> string" where
  "escape_string [] = []"
| "escape_string (c # s) =
     (if of_char c < (128::nat) then escape_byte c @ escape_string s
      else if utf8_len (c # s) = 0 then backslash # ''ufffd'' @ escape_string s
      else if take 3 (c # s) = [CHR 0xE2, CHR 0x80, CHR 0xA8] then backslash # ''u2028'' @ escape_string (drop 2 s)
      else if take 3 (c # s) = [CHR 0xE2, CHR 0x80, CHR 0xA9] then backslash # ''u2029'' @ escape_string (drop 2 s)
      else take (utf8_len (c # s)) (c # s) @ escape_string (drop (utf8_len (c # s) - 1) s))"
  by pat_completeness auto
termination by (relation "measure length") auto

definition quote_string :: "string \<Rightarrow> string" where
  "quote_string s = quote_char # escape_string s @ [quote_char]"

fun join_comma :: "string list \<Rightarrow> string" where
  "join_comma [] = []"
| "join_comma [s] = s"
| "join_comma (s # ss) = s @ CHR '','' # join_comma ss"

definition marshal_strings :: "string list \<Rightarrow> string" where
  "marshal_strings ss = CHR ''['' # join_comma (map quote_string ss) @ '']''"

text \<open>What the simplifier needs to parse and decode a concrete document.\<close>

lemmas json_eval =
  json_parse_def is_space_def punct_def literal_token_def lex_number_def lex_int_def lex_frac_def
  lex_exp_def is_digit_def json_step_def maxNestingDepth_def decode_string_def decode_int64_def
  int_literal_def decode_time_def decode_strings_def decode_struct_def field_decoder_def
  key_matches_def ascii_upper_def byte_in_def digits_val_def digit_val_def in_int64_def
  unmarshal_map_def float_in_range_def

end
