(* ===== verification/Models.thy ===== *)
theory Models
  imports GoJson
begin

text \<open>
  The data model of \<open>models/models.go\<close> and the lifecycle tables of \<open>models/status_priority.go\<close>,
  with the JSON decoding the struct tags describe.  A \<open>nil\<close> slice and an empty one are both
  \<open>[]\<close>: the program treats them alike.
\<close>

section \<open>Status and lifecycle\<close>

type_synonym JobStatus = string

definition JobStatusQueued :: JobStatus where "JobStatusQueued = ''queued''"
definition JobStatusInProgress :: JobStatus where "JobStatusInProgress = ''in_progress''"
definition JobStatusCompleted :: JobStatus where "JobStatusCompleted = ''completed''"
definition JobStatusWaiting :: JobStatus where "JobStatusWaiting = ''waiting''"
definition JobStatusRequested :: JobStatus where "JobStatusRequested = ''requested''"
definition JobStatusCancelled :: JobStatus where "JobStatusCancelled = ''cancelled''"
definition JobStatusStale :: JobStatus where "JobStatusStale = ''stale''"

lemmas status_defs =
  JobStatusQueued_def JobStatusInProgress_def JobStatusCompleted_def JobStatusWaiting_def
  JobStatusRequested_def JobStatusCancelled_def JobStatusStale_def

text \<open>
  The pair \<open>(priority, known)\<close> of the Go functions is an option: \<open>None\<close> is \<open>(0, false)\<close>.
\<close>

definition JobStatusPriority :: "JobStatus \<Rightarrow> nat option" where
  "JobStatusPriority s =
     (if s = JobStatusWaiting then Some 1
      else if s = JobStatusQueued then Some 2
      else if s = JobStatusRequested then Some 3
      else if s = JobStatusInProgress then Some 4
      else if s = JobStatusCompleted \<or> s = JobStatusCancelled \<or> s = JobStatusStale then Some 5
      else None)"

definition RunStatusPriority :: "JobStatus \<Rightarrow> nat option" where
  "RunStatusPriority s =
     (if s = JobStatusRequested then Some 1
      else if s = JobStatusInProgress then Some 2
      else if s = JobStatusCompleted \<or> s = JobStatusCancelled then Some 3
      else None)"

definition IsTerminalJobStatus :: "JobStatus \<Rightarrow> bool" where
  "IsTerminalJobStatus s \<longleftrightarrow> s = JobStatusCompleted \<or> s = JobStatusCancelled \<or> s = JobStatusStale"

definition IsTerminalRunStatus :: "JobStatus \<Rightarrow> bool" where
  "IsTerminalRunStatus s \<longleftrightarrow> s = JobStatusCompleted \<or> s = JobStatusCancelled"

section \<open>Payloads\<close>

record WorkflowJob =
  j_ID :: int
  j_Name :: string
  j_Status :: JobStatus
  j_Labels :: "string list"
  j_HtmlUrl :: string
  j_Conclusion :: string
  j_CreatedAt :: gotime
  j_StartedAt :: gotime
  j_CompletedAt :: gotime
  j_RunID :: int

record WorkflowRun =
  r_ID :: int
  r_Name :: string
  r_Status :: JobStatus
  r_HtmlUrl :: string
  r_DisplayTitle :: string
  r_Conclusion :: string
  r_CreatedAt :: gotime
  r_RunStartedAt :: gotime
  r_UpdatedAt :: gotime
  r_RepositoryName :: string

record Repository =
  repo_Name :: string
  repo_Url :: string

record WorkflowJobEvent =
  je_Action :: string
  je_WorkflowJob :: WorkflowJob

record WorkflowRunEvent =
  re_Action :: string
  re_Repository :: Repository
  re_WorkflowRun :: WorkflowRun

text \<open>The zero values a declaration \<open>var event models.WorkflowJobEvent\<close> starts from.\<close>

definition zero_job :: WorkflowJob where
  "zero_job = \<lparr>j_ID = 0, j_Name = [], j_Status = [], j_Labels = [], j_HtmlUrl = [],
     j_Conclusion = [], j_CreatedAt = zero_time, j_StartedAt = zero_time,
     j_CompletedAt = zero_time, j_RunID = 0\<rparr>"

definition zero_run :: WorkflowRun where
  "zero_run = \<lparr>r_ID = 0, r_Name = [], r_Status = [], r_HtmlUrl = [], r_DisplayTitle = [],
     r_Conclusion = [], r_CreatedAt = zero_time, r_RunStartedAt = zero_time,
     r_UpdatedAt = zero_time, r_RepositoryName = []\<rparr>"

definition zero_job_event :: WorkflowJobEvent where
  "zero_job_event = \<lparr>je_Action = [], je_WorkflowJob = zero_job\<rparr>"

definition zero_run_event :: WorkflowRunEvent where
  "zero_run_event = \<lparr>re_Action = [], re_Repository = \<lparr>repo_Name = [], repo_Url = []\<rparr>,
     re_WorkflowRun = zero_run\<rparr>"

text \<open>The decoders the \<open>json\<close> tags of the structs give; \<open>binding\<close> tags are not read by \<open>Unmarshal\<close>.\<close>

definition job_fields :: "(string \<times> (WorkflowJob \<Rightarrow> json \<Rightarrow> WorkflowJob option)) list" where
  "job_fields =
     [(''id'', field_decoder decode_int64 j_ID (\<lambda>x. j_ID_update (\<lambda>_. x))),
      (''name'', field_decoder decode_string j_Name (\<lambda>x. j_Name_update (\<lambda>_. x))),
      (''status'', field_decoder decode_string j_Status (\<lambda>x. j_Status_update (\<lambda>_. x))),
      (''labels'', field_decoder decode_strings j_Labels (\<lambda>x. j_Labels_update (\<lambda>_. x))),
      (''html_url'', field_decoder decode_string j_HtmlUrl (\<lambda>x. j_HtmlUrl_update (\<lambda>_. x))),
      (''conclusion'', field_decoder decode_string j_Conclusion (\<lambda>x. j_Conclusion_update (\<lambda>_. x))),
      (''created_at'', field_decoder decode_time j_CreatedAt (\<lambda>x. j_CreatedAt_update (\<lambda>_. x))),
      (''started_at'', field_decoder decode_time j_StartedAt (\<lambda>x. j_StartedAt_update (\<lambda>_. x))),
      (''completed_at'', field_decoder decode_time j_CompletedAt (\<lambda>x. j_CompletedAt_update (\<lambda>_. x))),
      (''run_id'', field_decoder decode_int64 j_RunID (\<lambda>x. j_RunID_update (\<lambda>_. x)))]"

definition run_fields :: "(string \<times> (WorkflowRun \<Rightarrow> json \<Rightarrow> WorkflowRun option)) list" where
  "run_fields =
     [(''id'', field_decoder decode_int64 r_ID (\<lambda>x. r_ID_update (\<lambda>_. x))),
      (''name'', field_decoder decode_string r_Name (\<lambda>x. r_Name_update (\<lambda>_. x))),
      (''status'', field_decoder decode_string r_Status (\<lambda>x. r_Status_update (\<lambda>_. x))),
      (''html_url'', field_decoder decode_string r_HtmlUrl (\<lambda>x. r_HtmlUrl_update (\<lambda>_. x))),
      (''display_title'', field_decoder decode_string r_DisplayTitle (\<lambda>x. r_DisplayTitle_update (\<lambda>_. x))),
      (''conclusion'', field_decoder decode_string r_Conclusion (\<lambda>x. r_Conclusion_update (\<lambda>_. x))),
      (''created_at'', field_decoder decode_time r_CreatedAt (\<lambda>x. r_CreatedAt_update (\<lambda>_. x))),
      (''run_started_at'', field_decoder decode_time r_RunStartedAt (\<lambda>x. r_RunStartedAt_update (\<lambda>_. x))),
      (''updated_at'', field_decoder decode_time r_UpdatedAt (\<lambda>x. r_UpdatedAt_update (\<lambda>_. x))),
      (''repository_name'', field_decoder decode_string r_RepositoryName (\<lambda>x. r_RepositoryName_update (\<lambda>_. x)))]"

definition repository_fields :: "(string \<times> (Repository \<Rightarrow> json \<Rightarrow> Repository option)) list" where
  "repository_fields =
     [(''name'', field_decoder decode_string repo_Name (\<lambda>x. repo_Name_update (\<lambda>_. x))),
      (''url'', field_decoder decode_string repo_Url (\<lambda>x. repo_Url_update (\<lambda>_. x)))]"

definition job_event_fields :: "(string \<times> (WorkflowJobEvent \<Rightarrow> json \<Rightarrow> WorkflowJobEvent option)) list" where
  "job_event_fields =
     [(''action'', field_decoder decode_string je_Action (\<lambda>x. je_Action_update (\<lambda>_. x))),
      (''workflow_job'', field_decoder (decode_struct (lookup_field job_fields)) je_WorkflowJob
         (\<lambda>x. je_WorkflowJob_update (\<lambda>_. x)))]"

definition run_event_fields :: "(string \<times> (WorkflowRunEvent \<Rightarrow> json \<Rightarrow> WorkflowRunEvent option)) list" where
  "run_event_fields =
     [(''action'', field_decoder decode_string re_Action (\<lambda>x. re_Action_update (\<lambda>_. x))),
      (''repository'', field_decoder (decode_struct (lookup_field repository_fields)) re_Repository
         (\<lambda>x. re_Repository_update (\<lambda>_. x))),
      (''workflow_run'', field_decoder (decode_struct (lookup_field run_fields)) re_WorkflowRun
         (\<lambda>x. re_WorkflowRun_update (\<lambda>_. x)))]"

text \<open>\<open>json.Unmarshal (eventData, &event)\<close>; \<open>None\<close> is a non-nil error.\<close>

definition unmarshal_job_event :: "bytes \<Rightarrow> WorkflowJobEvent option" where
  "unmarshal_job_event s =
     (case json_parse s of None \<Rightarrow> None
      | Some v \<Rightarrow> decode_struct (lookup_field job_event_fields) zero_job_event v)"

definition unmarshal_run_event :: "bytes \<Rightarrow> WorkflowRunEvent option" where
  "unmarshal_run_event s =
     (case json_parse s of None \<Rightarrow> None
      | Some v \<Rightarrow> decode_struct (lookup_field run_event_fields) zero_run_event v)"

section \<open>Events of the ingest pipeline\<close>

record EventSequence =
  EventID :: string
  SequenceID :: int
  Timestamp :: gotime
  DeliveryID :: string
  ReceivedAt :: gotime

record OrderedEvent =
  Sequence :: EventSequence
  EventType :: string
  RawPayload :: bytes
  ProcessedAt :: "gotime option"
  OrderingKey :: string
  StatusPriority :: int
  Persisted :: bool

record WorkflowUpdateEvent =
  wu_Type :: string
  wu_Action :: string
  wu_ID :: int
  wu_Status :: string
  wu_Timestamp :: string
  wu_WorkflowJob :: WorkflowJob
  wu_WorkflowRun :: WorkflowRun

text \<open>A point of \<open>metrics_snapshots\<close> and the running and queued counts of one label.\<close>

record MetricsSnapshot =
  ms_Timestamp :: int
  ms_Running :: int
  ms_Queued :: int

record LabelJobCount =
  lc_Label :: string
  lc_Running :: nat
  lc_Queued :: nat

end
