(* ===== verification/Lifecycle.thy ===== *)
theory Lifecycle
  imports Models
begin

text \<open>
  The lifecycle contract the typed-table writes rest on (the comments of
  \<open>models/status_priority.go\<close> and of \<open>AddOrUpdateJob\<close>): a status table with a top priority that
  exactly the terminal statuses have, and different priorities for different statuses below it.
  The locale proves what the contract is for: progress is monotone, a terminal status is final,
  and the status reached does not depend on the order of arrival.
\<close>

section \<open>The transition rule\<close>

text \<open>
  The \<open>switch\<close> of \<open>AddOrUpdateJob\<close> and \<open>AddOrUpdateRun\<close>: whether an incoming status with a known
  priority replaces the existing one.
\<close>

definition accepts ::
  "(JobStatus \<Rightarrow> nat option) \<Rightarrow> (JobStatus \<Rightarrow> bool) \<Rightarrow> JobStatus option \<Rightarrow> JobStatus \<Rightarrow> bool" where
  "accepts prio terminal existing incoming =
     (case prio incoming of None \<Rightarrow> False | Some p \<Rightarrow>
      case existing of None \<Rightarrow> True | Some e \<Rightarrow>
        if terminal e \<and> e = incoming then False
        else if terminal e then False
        else (case prio e of None \<Rightarrow> True | Some q \<Rightarrow> \<not> p < q))"

text \<open>The specification of one write, on the status alone.\<close>

definition advance ::
  "(JobStatus \<Rightarrow> nat option) \<Rightarrow> (JobStatus \<Rightarrow> bool) \<Rightarrow> JobStatus \<Rightarrow> JobStatus option \<Rightarrow> JobStatus option" where
  "advance prio terminal incoming existing =
     (if accepts prio terminal existing incoming then Some incoming else existing)"

locale lifecycle =
  fixes prio :: "JobStatus \<Rightarrow> nat option"
    and terminal :: "JobStatus \<Rightarrow> bool"
    and top :: nat
  assumes terminal_top: "terminal s \<longleftrightarrow> prio s = Some top"
    and prio_le_top: "prio s = Some p \<Longrightarrow> p \<le> top"
    and prio_inj: "prio s = Some p \<Longrightarrow> prio t = Some p \<Longrightarrow> p < top \<Longrightarrow> s = t"
begin

abbreviation "known s \<equiv> prio s \<noteq> None"
abbreviation "next_status \<equiv> advance prio terminal"

lemma accepts_new: "accepts prio terminal None s \<longleftrightarrow> known s"
  by (auto simp: accepts_def split: option.splits)

lemma accepts_known:
  "prio e = Some q \<Longrightarrow> prio s = Some p \<Longrightarrow> accepts prio terminal (Some e) s \<longleftrightarrow> q \<le> p \<and> q < top"
  using prio_le_top [of e q] by (auto simp: accepts_def terminal_top)

lemma terminal_absorbs: "terminal e \<Longrightarrow> next_status s (Some e) = Some e"
  by (auto simp: advance_def accepts_def split: option.splits)

lemma unknown_rejected: "\<not> known s \<Longrightarrow> next_status s e = e"
  by (auto simp: advance_def accepts_def)

lemma next_known:
  "next_status s e = Some t \<Longrightarrow> (\<And>e'. e = Some e' \<Longrightarrow> known e') \<Longrightarrow> known t"
  by (auto simp: advance_def accepts_def split: if_splits option.splits)

text \<open>Progress: the priority of the status never goes down.\<close>

lemma next_mono:
  assumes "prio e = Some q"
  shows "\<exists>t p. next_status s (Some e) = Some t \<and> prio t = Some p \<and> q \<le> p"
  using assms by (cases "prio s") (auto simp: advance_def accepts_known accepts_def)

text \<open>
  The statuses seen so far determine the status reached, as long as at most one terminal status
  is among them: it is the one of highest priority.
\<close>

definition one_terminal :: "JobStatus set \<Rightarrow> bool" where
  "one_terminal S \<longleftrightarrow> (\<forall>s \<in> S. \<forall>t \<in> S. terminal s \<longrightarrow> terminal t \<longrightarrow> s = t)"

definition highest :: "JobStatus set \<Rightarrow> JobStatus option \<Rightarrow> bool" where
  "highest S r \<longleftrightarrow>
     (case r of
        None \<Rightarrow> \<forall>s \<in> S. \<not> known s
      | Some t \<Rightarrow> t \<in> S \<and> known t \<and> (\<forall>s \<in> S. \<forall>p. prio s = Some p \<longrightarrow> p \<le> the (prio t)))"

lemma highest_unique:
  assumes S: "one_terminal S" and r: "highest S r" and r': "highest S r'"
  shows "r = r'"
proof (cases r)
  case None
  with r r' show ?thesis by (auto simp: highest_def split: option.splits)
next
  case (Some t)
  with r r' obtain t' where t': "r' = Some t'"
    by (auto simp: highest_def split: option.splits)
  from r Some obtain p where t: "t \<in> S" "prio t = Some p"
    and max: "\<And>s q. s \<in> S \<Longrightarrow> prio s = Some q \<Longrightarrow> q \<le> p"
    by (auto simp: highest_def)
  from r' t' obtain p' where u: "t' \<in> S" "prio t' = Some p'"
    and max': "\<And>s q. s \<in> S \<Longrightarrow> prio s = Some q \<Longrightarrow> q \<le> p'"
    by (auto simp: highest_def)
  have "p' = p" using max [OF u] max' [OF t] by simp
  with t u have p: "prio t = Some p" "prio t' = Some p" and "t \<in> S" "t' \<in> S" by simp_all
  then have "t = t'"
    using S prio_inj [OF p] prio_le_top [OF p(1)]
    by (cases "p < top") (auto simp: one_terminal_def terminal_top)
  with Some t' show ?thesis by simp
qed

lemma highest_step:
  assumes "one_terminal (insert s S)" "highest S r"
  shows "highest (insert s S) (next_status s r)"
proof (cases "prio s")
  case None
  with assms(2) show ?thesis by (auto simp: unknown_rejected highest_def split: option.splits)
next
  case (Some p)
  show ?thesis
  proof (cases r)
    case None
    with assms(2) Some show ?thesis
      by (auto simp: highest_def advance_def accepts_new)
  next
    case (Some e)
    with assms(2) obtain q where e: "e \<in> S" "prio e = Some q"
      and max: "\<forall>s \<in> S. \<forall>p. prio s = Some p \<longrightarrow> p \<le> q"
      by (auto simp: highest_def)
    note ac = accepts_known [OF e(2) \<open>prio s = Some p\<close>]
    show ?thesis
    proof (cases "q \<le> p \<and> q < top")
      case True
      with \<open>prio s = Some p\<close> Some max ac show ?thesis
        by (auto simp: highest_def advance_def)
    next
      case False
      then have "p \<le> q" using prio_le_top [of s p] \<open>prio s = Some p\<close> by auto
      with False e max Some \<open>prio s = Some p\<close> ac show ?thesis
        by (auto simp: highest_def advance_def)
    qed
  qed
qed

lemma highest_fold:
  assumes "one_terminal (set ss \<union> S)" "highest S r"
  shows "highest (set ss \<union> S) (fold next_status ss r)"
  using assms
proof (induction ss arbitrary: S r)
  case Nil
  then show ?case by simp
next
  case (Cons s ss)
  have "one_terminal (insert s S)"
    using Cons.prems(1) by (auto simp: one_terminal_def)
  then have "highest (insert s S) (next_status s r)"
    using Cons.prems(2) by (rule highest_step)
  then show ?case using Cons.IH [of "insert s S"] Cons.prems(1) by simp
qed

lemma highest_empty: "highest {} None"
  by (simp add: highest_def)

text \<open>Order independence of a batch of writes that starts from no row.\<close>

lemma order_independent:
  assumes "set ss = set ts" "one_terminal (set ss)"
  shows "fold next_status ss None = fold next_status ts None"
  using highest_fold [of ss "{}" None] highest_fold [of ts "{}" None] assms highest_empty
    highest_unique [of "set ss"] by simp

lemma reaches_terminal:
  assumes "one_terminal (set ss)" "s \<in> set ss" "terminal s"
  shows "fold next_status ss None = Some s"
proof -
  from assms(3) have s: "prio s = Some top" by (simp add: terminal_top)
  then have "highest (set ss) (Some s)"
    using assms(2) prio_le_top by (auto simp: highest_def)
  then show ?thesis
    using highest_fold [of ss "{}" None] assms(1) highest_empty highest_unique [of "set ss"] by simp
qed

lemma terminal_fold: "terminal e \<Longrightarrow> fold next_status ss (Some e) = Some e"
  by (induction ss) (simp_all add: terminal_absorbs)

end

section \<open>The two lifecycles of the program\<close>

lemma JobStatusPriority_top: "JobStatusPriority s = Some 5 \<longleftrightarrow> IsTerminalJobStatus s"
  by (auto simp: JobStatusPriority_def IsTerminalJobStatus_def status_defs)

lemma RunStatusPriority_top: "RunStatusPriority s = Some 3 \<longleftrightarrow> IsTerminalRunStatus s"
  by (auto simp: RunStatusPriority_def IsTerminalRunStatus_def status_defs)

interpretation job: lifecycle JobStatusPriority IsTerminalJobStatus 5
  by unfold_locales
     (auto simp: JobStatusPriority_top, auto simp: JobStatusPriority_def split: if_splits)

interpretation run: lifecycle RunStatusPriority IsTerminalRunStatus 3
  by unfold_locales
     (auto simp: RunStatusPriority_top, auto simp: RunStatusPriority_def split: if_splits)

end
