(* ===== verification/Db_Core.thy ===== *)
theory Db_Core
  imports Lifecycle
begin

text \<open>
  The database of \<open>internal/database\<close>: the rows of the four tables of
  \<open>migrations/000001_create_initial_schema.up.sql\<close>, the database handle the operations act on,
  the conversions between Go values and columns, and the guarded upsert both typed tables share.

  An SQL statement of the source is translated to the function on rows it denotes.  Whether the
  engine executes a statement (lock timeouts, I/O errors, a cancelled context) is not decided by
  the program: each statement, \<open>BEGIN\<close> and \<open>COMMIT\<close> takes its outcome from a tape of the state,
  an exhausted tape meaning success; a transaction that does not commit leaves the tables as they
  were.
\<close>

section \<open>Rows\<close>

record job_row =
  jr_id :: int
  jr_name :: string
  jr_run_id :: int
  jr_status :: string
  jr_labels :: string
  jr_html_url :: string
  jr_conclusion :: string
  jr_created_at :: string
  jr_started_at :: "string option"
  jr_completed_at :: "string option"
  jr_updated_at :: string

record run_row =
  rr_id :: int
  rr_name :: string
  rr_status :: string
  rr_repository :: string
  rr_html_url :: string
  rr_display_title :: string
  rr_conclusion :: string
  rr_created_at :: string
  rr_run_started_at :: "string option"
  rr_updated_at :: "string option"

record event_row =
  er_delivery_id :: string
  er_event_type :: string
  er_sequence_id :: int
  er_github_timestamp :: string
  er_received_at :: string
  er_processed_at :: "string option"
  er_raw_payload :: "string option"
  er_status :: string
  er_ordering_key :: string
  er_status_priority :: int

record snapshot_row =
  sn_id :: nat
  sn_timestamp :: string
  sn_running_jobs :: nat
  sn_queued_jobs :: nat

text \<open>
  The handle (\<open>DBWrapper\<close>): the committed tables, the outcomes of the coming engine calls and the
  clock.  The record is extensible: the operations work on any state that contains it.
\<close>

record dbw =
  workflow_jobs :: "job_row list"
  workflow_runs :: "run_row list"
  webhook_events :: "event_row list"
  metrics_snapshots :: "snapshot_row list"
  tape :: "bool list"   \<comment> \<open>True: the engine call succeeds\<close>
  clock :: gotime       \<comment> \<open>\<open>time.Now()\<close>, in the zone of the process\<close>

text \<open>One call of the engine: its outcome and the state with the rest of the tape.\<close>

definition engine :: "('a dbw_scheme) \<Rightarrow> bool \<times> ('a dbw_scheme)" where
  "engine w = (case tape w of [] \<Rightarrow> (True, w) | b # bs \<Rightarrow> (b, w\<lparr>tape := bs\<rparr>))"

definition db_error :: "string \<Rightarrow> go_error" where
  "db_error m = Wrap m (Engine ''database'')"

definition healthy :: "('a dbw_scheme) \<Rightarrow> bool" where
  "healthy w \<longleftrightarrow> tape w = []"

lemma engine_healthy [simp]: "healthy w \<Longrightarrow> engine w = (True, w)"
  by (simp add: engine_def healthy_def)

lemma engine_tape: "\<exists>bs. snd (engine w) = w\<lparr>tape := bs\<rparr>"
  by (cases "tape w") (auto simp: engine_def intro: exI [of _ "tape w"] exI [of _ "[]"])

lemma engine_cases:
  obtains b bs where "engine w = (b, w\<lparr>tape := bs\<rparr>)"
  using engine_tape [of w] by (cases "engine w") auto

lemma engine_cases_healthy:
  obtains b bs where "engine w = (b, w\<lparr>tape := bs\<rparr>)" "healthy w \<longrightarrow> b \<and> bs = []"
proof -
  obtain b bs where e: "engine w = (b, w\<lparr>tape := bs\<rparr>)" by (rule engine_cases)
  have "b \<and> bs = []" if "healthy w"
  proof -
    from e that have "b" "w = w\<lparr>tape := bs\<rparr>" by simp_all
    from arg_cong [OF this(2), of tape] have "bs = tape w" by simp
    with \<open>b\<close> that show ?thesis by (simp add: healthy_def)
  qed
  with e show thesis by (blast intro: that)
qed

lemma engine_twice:
  obtains b1 t1 b2 t2 where "engine w = (b1, w\<lparr>tape := t1\<rparr>)"
    "engine (w\<lparr>tape := t1\<rparr>) = (b2, w\<lparr>tape := t2\<rparr>)"
proof -
  obtain b1 t1 where 1: "engine w = (b1, w\<lparr>tape := t1\<rparr>)" by (rule engine_cases)
  obtain b2 t2 where 2: "engine (w\<lparr>tape := t1\<rparr>) = (b2, w\<lparr>tape := t2\<rparr>)"
    by (rule engine_cases [of "w\<lparr>tape := t1\<rparr>"]) auto
  from 1 2 show thesis by (rule that)
qed

section \<open>Columns\<close>

text \<open>\<open>formatNullableTime\<close> and \<open>parseTime\<close>.\<close>

definition formatNullableTime :: "gotime \<Rightarrow> string option" where
  "formatNullableTime t = (if IsZero t then None else Some (format_RFC3339 t))"

definition parseTime :: "string \<Rightarrow> gotime" where
  "parseTime s =
     (if s = [] then zero_time
      else case time_Parse layout_RFC3339 s of Some t \<Rightarrow> t | None \<Rightarrow>
           case time_Parse layout_space_zone s of Some t \<Rightarrow> t | None \<Rightarrow>
           case time_Parse layout_T_Z s of Some t \<Rightarrow> t | None \<Rightarrow> zero_time)"

text \<open>A \<open>sql.NullString\<close> read through \<open>.String\<close>.\<close>

definition null_string :: "string option \<Rightarrow> string" where
  "null_string s = (case s of None \<Rightarrow> [] | Some t \<Rightarrow> t)"

text \<open>\<open>labelsToJSON\<close> and \<open>labelsFromJSON\<close>.\<close>

definition labelsToJSON :: "string list \<Rightarrow> string" where
  "labelsToJSON labels = marshal_strings labels"

definition labelsFromJSON :: "string \<Rightarrow> string list" where
  "labelsFromJSON s =
     (if s = [] then []
      else case json_parse s of None \<Rightarrow> []
           | Some v \<Rightarrow> (case decode_strings [] v of None \<Rightarrow> [] | Some ls \<Rightarrow> ls))"

text \<open>Instants the text columns keep exactly, up to the fraction of a second.\<close>

definition time_ok :: "gotime \<Rightarrow> bool" where
  "time_ok t \<longleftrightarrow> year4 t \<and> zone_ok (t_off t)"

definition whole_secs :: "gotime \<Rightarrow> gotime" where
  "whole_secs t = t\<lparr>t_nsec := 0\<rparr>"

lemma format_RFC3339_not_Nil [simp]: "format_RFC3339 t \<noteq> []"
  by (simp add: format_RFC3339_def format_zone_def Let_def)

lemma parseTime_format: "time_ok t \<Longrightarrow> parseTime (format_RFC3339 t) = whole_secs t"
  by (simp add: parseTime_def time_ok_def parse_format_RFC3339 whole_secs_def)

lemma format_datetime_not_Nil [simp]: "format_datetime t \<noteq> []"
  by (cases "date_of t"; cases "clock_of t") (simp add: format_datetime_def format_date_time_def)

text \<open>The text of SQLite's clock is in none of the layouts \<open>parseTime\<close> knows.\<close>

lemma parseTime_datetime: "year4 t \<Longrightarrow> parseTime (format_datetime t) = zero_time"
  by (simp add: parseTime_def parse_datetime_text)

section \<open>Guarded upsert\<close>

text \<open>The write \<open>AddOrUpdateJob\<close> and \<open>AddOrUpdateRun\<close> perform, as a function on the table.\<close>

definition guarded_put ::
  "(JobStatus \<Rightarrow> nat option) \<Rightarrow> (JobStatus \<Rightarrow> bool) \<Rightarrow> ('r \<Rightarrow> 'k) \<Rightarrow> ('r \<Rightarrow> JobStatus)
     \<Rightarrow> 'r \<Rightarrow> 'r list \<Rightarrow> 'r list" where
  "guarded_put prio terminal key status r rows =
     (if accepts prio terminal (map_option status (find_row key (key r) rows)) (status r)
      then upsert_row key r rows else rows)"

locale guarded_table =
  pk_store look put key wf + lifecycle prio terminal top
  for look :: "'k \<Rightarrow> 't \<Rightarrow> 'r option" and put :: "'r \<Rightarrow> 't \<Rightarrow> 't" and key :: "'r \<Rightarrow> 'k"
    and wf :: "'t \<Rightarrow> bool" and prio terminal top +
  fixes status :: "'r \<Rightarrow> JobStatus" and gput :: "'r \<Rightarrow> 't \<Rightarrow> 't"
  assumes gput: "wf t \<Longrightarrow> gput r t =
      (if accepts prio terminal (map_option status (look (key r) t)) (status r) then put r t else t)"
begin

lemma wf_gput: "wf t \<Longrightarrow> wf (gput r t)"
  by (simp add: gput wf_put)

lemma wf_fold_gput: "wf t \<Longrightarrow> wf (fold gput rs t)"
  by (induction rs arbitrary: t) (simp_all add: wf_gput)

lemma look_gput:
  "wf t \<Longrightarrow> look k (gput r t) =
     (if k = key r \<and> accepts prio terminal (map_option status (look k t)) (status r)
      then Some r else look k t)"
  by (auto simp: gput look_put)

lemma status_gput:
  "wf t \<Longrightarrow> map_option status (look k (gput r t)) =
     (if k = key r then next_status (status r) (map_option status (look k t))
      else map_option status (look k t))"
  by (auto simp: look_gput advance_def)

text \<open>A batch of writes advances the status under a key by the writes with that key, in order.\<close>

lemma status_fold_gput:
  "wf t \<Longrightarrow> map_option status (look k (fold gput rs t)) =
     fold next_status (map status (filter (\<lambda>r. key r = k) rs)) (map_option status (look k t))"
  by (induction rs arbitrary: t) (simp_all add: wf_gput status_gput)

lemma gput_order_independent:
  assumes "wf t" "look k t = None"
    and "{status r |r. r \<in> set rs \<and> key r = k} = {status r |r. r \<in> set rs' \<and> key r = k}"
    and "one_terminal {status r |r. r \<in> set rs \<and> key r = k}"
  shows "map_option status (look k (fold gput rs t)) = map_option status (look k (fold gput rs' t))"
proof -
  have s: "set (map status (filter (\<lambda>r. key r = k) rs)) = {status r |r. r \<in> set rs \<and> key r = k}" for rs
    by auto
  show ?thesis
    using assms(1,2) order_independent [of "map status (filter (\<lambda>r. key r = k) rs)"
        "map status (filter (\<lambda>r. key r = k) rs')"] assms(3,4)
    by (simp only: status_fold_gput s) simp
qed

lemma gput_terminal_final:
  "wf t \<Longrightarrow> look k t = Some r \<Longrightarrow> terminal (status r) \<Longrightarrow> look k (fold gput rs t) = Some r"
proof (induction rs arbitrary: t)
  case Nil
  then show ?case by simp
next
  case (Cons x rs)
  then have "look k (gput x t) = Some r"
    by (auto simp: look_gput accepts_def split: option.splits)
  with Cons show ?case by (simp add: wf_gput)
qed

lemma gput_mono:
  assumes "wf t" "look k t = Some r" "prio (status r) = Some q"
  shows "\<exists>r' p. look k (fold gput rs t) = Some r' \<and> prio (status r') = Some p \<and> q \<le> p"
  using assms
proof (induction rs arbitrary: t r q)
  case Nil
  then show ?case by auto
next
  case (Cons x rs)
  have "\<exists>r1 p. look k (gput x t) = Some r1 \<and> prio (status r1) = Some p \<and> q \<le> p"
    using Cons.prems next_mono [of "status r" q "status x"]
    by (auto simp: look_gput advance_def split: if_splits)
  then obtain r1 p where "look k (gput x t) = Some r1" "prio (status r1) = Some p" "q \<le> p"
    by blast
  with Cons.IH [of "gput x t" r1 p] Cons.prems(1) show ?case
    by (fastforce simp: wf_gput)
qed

end

text \<open>The two typed tables.\<close>

abbreviation put_job :: "job_row \<Rightarrow> job_row list \<Rightarrow> job_row list" where
  "put_job \<equiv> guarded_put JobStatusPriority IsTerminalJobStatus jr_id jr_status"

abbreviation put_run :: "run_row \<Rightarrow> run_row list \<Rightarrow> run_row list" where
  "put_run \<equiv> guarded_put RunStatusPriority IsTerminalRunStatus rr_id rr_status"

interpretation job_table: guarded_table "find_row jr_id" "upsert_row jr_id" jr_id "pk_distinct jr_id"
  JobStatusPriority IsTerminalJobStatus 5 jr_status put_job
  by unfold_locales (simp add: guarded_put_def)

interpretation run_table: guarded_table "find_row rr_id" "upsert_row rr_id" rr_id "pk_distinct rr_id"
  RunStatusPriority IsTerminalRunStatus 3 rr_status put_run
  by unfold_locales (simp add: guarded_put_def)

end
