(* ===== verification/Db_Workflow.thy ===== *)
theory Db_Workflow
  imports Db_Core
begin

text \<open>
  The typed-table operations of \<open>internal/database/workflow.go\<close>: the guarded upserts of jobs and
  runs, the reads by id and by run, the current job counts and the stale-job sweep.  The first
  lemmas show that each upsert performs the guarded write of \<open>Db_Core\<close> or nothing.
\<close>

section \<open>Upserts\<close>

definition job_row_of :: "WorkflowJob \<Rightarrow> gotime \<Rightarrow> job_row" where
  "job_row_of job now =
     \<lparr>jr_id = j_ID job, jr_name = j_Name job, jr_run_id = j_RunID job, jr_status = j_Status job,
      jr_labels = labelsToJSON (j_Labels job), jr_html_url = j_HtmlUrl job,
      jr_conclusion = j_Conclusion job, jr_created_at = format_RFC3339 (j_CreatedAt job),
      jr_started_at = formatNullableTime (j_StartedAt job),
      jr_completed_at = formatNullableTime (j_CompletedAt job),
      jr_updated_at = sqlite_datetime now\<rparr>"

definition AddOrUpdateJob ::
  "WorkflowJob \<Rightarrow> gotime \<Rightarrow> ('a dbw_scheme) \<Rightarrow> ('a dbw_scheme) \<times> (go_error + bool)" where
  "AddOrUpdateJob workflowJob eventTimestamp w =
     (case JobStatusPriority (j_Status workflowJob) of
        None \<Rightarrow> (w, Inr False)
      | Some incomingPrio \<Rightarrow>
     (case engine w of (begin_ok, w) \<Rightarrow>
        if \<not> begin_ok then (w, Inl (db_error ''failed to start transaction'')) else
      case engine w of (select_ok, w) \<Rightarrow>
        if \<not> select_ok then (w, Inl (db_error ''failed to load existing job status'')) else
      let existing = map_option jr_status (find_row jr_id (j_ID workflowJob) (workflow_jobs w));
          rejected = (case existing of None \<Rightarrow> False | Some e \<Rightarrow>
            if IsTerminalJobStatus e \<and> e = j_Status workflowJob then True
            else if IsTerminalJobStatus e then True
            else (case JobStatusPriority e of
                    Some existingPrio \<Rightarrow> incomingPrio < existingPrio | None \<Rightarrow> False))
      in if rejected then (w, Inr False) else
      (case engine w of (exec_ok, w) \<Rightarrow>
        if \<not> exec_ok then (w, Inl (db_error ''failed to execute upsert'')) else
      case engine w of (commit_ok, w) \<Rightarrow>
        if \<not> commit_ok then (w, Inl (db_error ''failed to commit transaction''))
        else (w\<lparr>workflow_jobs := upsert_row jr_id (job_row_of workflowJob (clock w)) (workflow_jobs w)\<rparr>,
              Inr True))))"

definition run_row_of :: "WorkflowRun \<Rightarrow> run_row" where
  "run_row_of run =
     \<lparr>rr_id = r_ID run, rr_name = r_Name run, rr_status = r_Status run,
      rr_repository = r_RepositoryName run, rr_html_url = r_HtmlUrl run,
      rr_display_title = r_DisplayTitle run, rr_conclusion = r_Conclusion run,
      rr_created_at = format_RFC3339 (r_CreatedAt run),
      rr_run_started_at = formatNullableTime (r_RunStartedAt run),
      rr_updated_at = formatNullableTime (r_UpdatedAt run)\<rparr>"

definition AddOrUpdateRun ::
  "WorkflowRun \<Rightarrow> gotime \<Rightarrow> ('a dbw_scheme) \<Rightarrow> ('a dbw_scheme) \<times> (go_error + bool)" where
  "AddOrUpdateRun workflowRun eventTimestamp w =
     (case RunStatusPriority (r_Status workflowRun) of
        None \<Rightarrow> (w, Inr False)
      | Some incomingPrio \<Rightarrow>
     (case engine w of (begin_ok, w) \<Rightarrow>
        if \<not> begin_ok then (w, Inl (db_error ''failed to start transaction'')) else
      case engine w of (select_ok, w) \<Rightarrow>
        if \<not> select_ok then (w, Inl (db_error ''failed to load existing run status'')) else
      let existing = map_option rr_status (find_row rr_id (r_ID workflowRun) (workflow_runs w));
          rejected = (case existing of None \<Rightarrow> False | Some e \<Rightarrow>
            if IsTerminalRunStatus e \<and> e = r_Status workflowRun then True
            else if IsTerminalRunStatus e then True
            else (case RunStatusPriority e of
                    Some existingPrio \<Rightarrow> incomingPrio < existingPrio | None \<Rightarrow> False))
      in if rejected then (w, Inr False) else
      (case engine w of (exec_ok, w) \<Rightarrow>
        if \<not> exec_ok then (w, Inl (db_error ''failed to execute upsert'')) else
      case engine w of (commit_ok, w) \<Rightarrow>
        if \<not> commit_ok then (w, Inl (db_error ''failed to commit transaction''))
        else (w\<lparr>workflow_runs := upsert_row rr_id (run_row_of workflowRun) (workflow_runs w)\<rparr>,
              Inr True))))"

text \<open>
  Every outcome of an upsert: an error that changes nothing but the tape, or the guarded write
  with the answer whether it was accepted.
\<close>

definition job_accepted :: "WorkflowJob \<Rightarrow> ('a dbw_scheme) \<Rightarrow> bool" where
  "job_accepted job w \<longleftrightarrow>
     accepts JobStatusPriority IsTerminalJobStatus
       (map_option jr_status (find_row jr_id (j_ID job) (workflow_jobs w))) (j_Status job)"

definition run_accepted :: "WorkflowRun \<Rightarrow> ('a dbw_scheme) \<Rightarrow> bool" where
  "run_accepted run w \<longleftrightarrow>
     accepts RunStatusPriority IsTerminalRunStatus
       (map_option rr_status (find_row rr_id (r_ID run) (workflow_runs w))) (r_Status run)"

lemma job_row_of_simps [simp]:
  "jr_id (job_row_of job now) = j_ID job" "jr_status (job_row_of job now) = j_Status job"
  by (simp_all add: job_row_of_def)

lemma run_row_of_simps [simp]:
  "rr_id (run_row_of run) = r_ID run" "rr_status (run_row_of run) = r_Status run"
  by (simp_all add: run_row_of_def)

lemma AddOrUpdateJob_outcome:
  obtains (failed) e bs where "AddOrUpdateJob job ts w = (w\<lparr>tape := bs\<rparr>, Inl e)"
    | (written) bs where "AddOrUpdateJob job ts w =
        (w\<lparr>tape := bs, workflow_jobs := put_job (job_row_of job (clock w)) (workflow_jobs w)\<rparr>, Inr (job_accepted job w))"
proof -
  obtain b1 t1 b2 t2 where 1: "engine w = (b1, w\<lparr>tape := t1\<rparr>)"
    "engine (w\<lparr>tape := t1\<rparr>) = (b2, w\<lparr>tape := t2\<rparr>)" by (rule engine_twice)
  obtain b3 t3 b4 t4 where 2: "engine (w\<lparr>tape := t2\<rparr>) = (b3, w\<lparr>tape := t3\<rparr>)"
    "engine (w\<lparr>tape := t3\<rparr>) = (b4, w\<lparr>tape := t4\<rparr>)"
    by (rule engine_twice [of "w\<lparr>tape := t2\<rparr>"]) auto
  have "(\<exists>e bs. AddOrUpdateJob job ts w = (w\<lparr>tape := bs\<rparr>, Inl e)) \<or>
      (\<exists>bs. AddOrUpdateJob job ts w =
        (w\<lparr>tape := bs, workflow_jobs := put_job (job_row_of job (clock w)) (workflow_jobs w)\<rparr>, Inr (job_accepted job w)))"
    unfolding AddOrUpdateJob_def job_accepted_def
    by (cases b1; cases b2; cases b3; cases b4)
       (auto simp: 1 2 guarded_put_def accepts_def split: option.splits
         intro: exI [of _ "tape w"])
  then show thesis using failed written by blast
qed

lemma AddOrUpdateJob_healthy:
  assumes "healthy w"
  shows "AddOrUpdateJob job ts w =
    (w\<lparr>workflow_jobs := put_job (job_row_of job (clock w)) (workflow_jobs w)\<rparr>, Inr (job_accepted job w))"
  using assms
  by (auto simp: AddOrUpdateJob_def job_accepted_def guarded_put_def accepts_def split: option.splits)

lemma AddOrUpdateRun_outcome:
  obtains (failed) e bs where "AddOrUpdateRun run ts w = (w\<lparr>tape := bs\<rparr>, Inl e)"
    | (written) bs where "AddOrUpdateRun run ts w =
        (w\<lparr>tape := bs, workflow_runs := put_run (run_row_of run) (workflow_runs w)\<rparr>, Inr (run_accepted run w))"
proof -
  obtain b1 t1 b2 t2 where 1: "engine w = (b1, w\<lparr>tape := t1\<rparr>)"
    "engine (w\<lparr>tape := t1\<rparr>) = (b2, w\<lparr>tape := t2\<rparr>)" by (rule engine_twice)
  obtain b3 t3 b4 t4 where 2: "engine (w\<lparr>tape := t2\<rparr>) = (b3, w\<lparr>tape := t3\<rparr>)"
    "engine (w\<lparr>tape := t3\<rparr>) = (b4, w\<lparr>tape := t4\<rparr>)"
    by (rule engine_twice [of "w\<lparr>tape := t2\<rparr>"]) auto
  have "(\<exists>e bs. AddOrUpdateRun run ts w = (w\<lparr>tape := bs\<rparr>, Inl e)) \<or>
      (\<exists>bs. AddOrUpdateRun run ts w =
        (w\<lparr>tape := bs, workflow_runs := put_run (run_row_of run) (workflow_runs w)\<rparr>, Inr (run_accepted run w)))"
    unfolding AddOrUpdateRun_def run_accepted_def
    by (cases b1; cases b2; cases b3; cases b4)
       (auto simp: 1 2 guarded_put_def accepts_def split: option.splits
         intro: exI [of _ "tape w"])
  then show thesis using failed written by blast
qed

lemma AddOrUpdateRun_healthy:
  assumes "healthy w"
  shows "AddOrUpdateRun run ts w =
    (w\<lparr>workflow_runs := put_run (run_row_of run) (workflow_runs w)\<rparr>, Inr (run_accepted run w))"
  using assms
  by (auto simp: AddOrUpdateRun_def run_accepted_def guarded_put_def accepts_def split: option.splits)

section \<open>Reads\<close>

definition job_of_row :: "job_row \<Rightarrow> WorkflowJob" where
  "job_of_row r =
     \<lparr>j_ID = jr_id r, j_Name = jr_name r, j_Status = jr_status r,
      j_Labels = labelsFromJSON (jr_labels r), j_HtmlUrl = jr_html_url r,
      j_Conclusion = jr_conclusion r, j_CreatedAt = parseTime (jr_created_at r),
      j_StartedAt = parseTime (null_string (jr_started_at r)),
      j_CompletedAt = parseTime (null_string (jr_completed_at r)), j_RunID = jr_run_id r\<rparr>"

definition GetWorkflowJobByID ::
  "int \<Rightarrow> ('a dbw_scheme) \<Rightarrow> ('a dbw_scheme) \<times> (go_error + WorkflowJob)" where
  "GetWorkflowJobByID jobID w =
     (case engine w of (query_ok, w) \<Rightarrow>
        if \<not> query_ok then (w, Inl (Engine ''database''))
        else (w, Inr (case find_row jr_id jobID (workflow_jobs w) of
                        None \<Rightarrow> zero_job | Some r \<Rightarrow> job_of_row r)))"

definition GetWorkflowJobsByRunID ::
  "int \<Rightarrow> ('a dbw_scheme) \<Rightarrow> ('a dbw_scheme) \<times> (go_error + WorkflowJob list)" where
  "GetWorkflowJobsByRunID runID w =
     (case engine w of (query_ok, w) \<Rightarrow>
        if \<not> query_ok then (w, Inl (Engine ''database'')) else
      case engine w of (rows_ok, w) \<Rightarrow>
        if \<not> rows_ok then (w, Inl (Engine ''database''))
        else (w, Inr (map job_of_row
               (rev (sort_key jr_created_at (rev (filter (\<lambda>r. jr_run_id r = runID) (workflow_jobs w))))))))"

definition GetCurrentJobCounts ::
  "('a dbw_scheme) \<Rightarrow> ('a dbw_scheme) \<times> (go_error + nat \<times> nat)" where
  "GetCurrentJobCounts w =
     (case engine w of (query_ok, w) \<Rightarrow>
        if \<not> query_ok then (w, Inl (Engine ''database''))
        else (w, Inr (rows_affected (\<lambda>r. jr_status r = ''in_progress'') (workflow_jobs w),
                      rows_affected (\<lambda>r. jr_status r = ''queued'') (workflow_jobs w))))"

section \<open>Stale jobs\<close>

text \<open>\<open>time.Now().Add (-d)\<close> for a duration of the configuration.\<close>

definition cutoff_time :: "int \<Rightarrow> ('a dbw_scheme) \<Rightarrow> gotime" where
  "cutoff_time d w = time_Add (clock w) (wrap64 (- d))"

definition stale_row :: "string \<Rightarrow> job_row \<Rightarrow> bool" where
  "stale_row cutoff r \<longleftrightarrow>
     (jr_status r = ''queued'' \<or> jr_status r = ''in_progress'') \<and> jr_created_at r < cutoff"

definition mark_stale :: "string \<Rightarrow> job_row \<Rightarrow> job_row" where
  "mark_stale now r = r\<lparr>jr_status := ''stale'', jr_completed_at := Some now\<rparr>"

definition CleanupStaleJobs ::
  "int \<Rightarrow> ('a dbw_scheme) \<Rightarrow> ('a dbw_scheme) \<times> (go_error + nat)" where
  "CleanupStaleJobs threshold w =
     (let cutoffTime = format_RFC3339 (cutoff_time threshold w) in
      case engine w of (exec_ok, w) \<Rightarrow>
        if \<not> exec_ok then (w, Inl (db_error ''failed to mark stale jobs'')) else
      let w' = w\<lparr>workflow_jobs := update_rows (stale_row cutoffTime)
                   (mark_stale (sqlite_datetime (clock w))) (workflow_jobs w)\<rparr>;
          affected = rows_affected (stale_row cutoffTime) (workflow_jobs w)
      in case engine w' of (count_ok, w'') \<Rightarrow>
        if \<not> count_ok then (w'', Inl (db_error ''failed to get affected rows count''))
        else (w'', Inr affected))"

lemma mark_stale_simps [simp]:
  "jr_id (mark_stale now r) = jr_id r" "jr_status (mark_stale now r) = ''stale''"
  "jr_created_at (mark_stale now r) = jr_created_at r"
  by (simp_all add: mark_stale_def)

lemma CleanupStaleJobs_healthy:
  assumes "healthy w"
  shows "CleanupStaleJobs d w = (w\<lparr>workflow_jobs := update_rows (stale_row (format_RFC3339 (cutoff_time d w)))
      (mark_stale (sqlite_datetime (clock w))) (workflow_jobs w)\<rparr>,
      Inr (rows_affected (stale_row (format_RFC3339 (cutoff_time d w))) (workflow_jobs w)))"
  using assms by (simp add: CleanupStaleJobs_def Let_def cutoff_time_def) (simp add: healthy_def engine_def)

lemma CleanupStaleJobs_outcome:
  obtains (failed) bs e where "CleanupStaleJobs d w = (w\<lparr>tape := bs\<rparr>, Inl e)"
    | (marked) bs r where "CleanupStaleJobs d w =
        (w\<lparr>tape := bs, workflow_jobs := update_rows (stale_row (format_RFC3339 (cutoff_time d w)))
            (mark_stale (sqlite_datetime (clock w))) (workflow_jobs w)\<rparr>, r)"
proof -
  obtain b1 t1 where 1: "engine w = (b1, w\<lparr>tape := t1\<rparr>)" by (rule engine_cases)
  define u where "u = w\<lparr>tape := t1, workflow_jobs := update_rows (stale_row (format_RFC3339 (cutoff_time d w)))
            (mark_stale (sqlite_datetime (clock w))) (workflow_jobs w)\<rparr>"
  obtain b2 t2 where 2: "engine u = (b2, u\<lparr>tape := t2\<rparr>)" by (rule engine_cases)
  show thesis
    by (cases b1; cases b2)
       (use failed [of t1] marked [of t2] 1 2 in
         \<open>simp_all add: CleanupStaleJobs_def cutoff_time_def u_def Let_def\<close>)
qed

end
