(* ===== verification/Db_Events.thy ===== *)
theory Db_Events
  imports Db_Core
begin

text \<open>
  The \<open>webhook_events\<close> table, \<open>internal/database/event.go\<close>: storing single events and batches,
  reading the pending events in lifecycle order, and marking them.  The lemmas show what a stored
  event is read back as, that the pending queries return a sorted prefix, and that the table
  keeps its invariant, under which the row scan never meets a \<open>NULL\<close> payload.
\<close>

section \<open>Storing\<close>

definition event_row_of :: "OrderedEvent \<Rightarrow> event_row" where
  "event_row_of ev =
     \<lparr>er_delivery_id = DeliveryID (Sequence ev), er_event_type = EventType ev,
      er_sequence_id = SequenceID (Sequence ev),
      er_github_timestamp = format_RFC3339 (Timestamp (Sequence ev)),
      er_received_at = format_RFC3339 (ReceivedAt (Sequence ev)),
      er_processed_at = map_option format_RFC3339 (ProcessedAt ev),
      er_raw_payload = Some (RawPayload ev),
      er_status = (if ProcessedAt ev \<noteq> None then ''processed'' else ''pending''),
      er_ordering_key = OrderingKey ev, er_status_priority = StatusPriority ev\<rparr>"

text \<open>\<open>StoreWebhookEvent\<close> tries the upsert up to three times.\<close>

fun store_retry :: "nat \<Rightarrow> OrderedEvent \<Rightarrow> ('a dbw_scheme) \<Rightarrow> ('a dbw_scheme) \<times> go_error option" where
  "store_retry 0 ev w = (w, Some (Engine ''database''))"
| "store_retry (Suc n) ev w =
     (case engine w of (exec_ok, w) \<Rightarrow>
        if exec_ok
        then (w\<lparr>webhook_events := upsert_row er_delivery_id (event_row_of ev) (webhook_events w)\<rparr>, None)
        else store_retry n ev w)"

definition StoreWebhookEvent ::
  "OrderedEvent \<Rightarrow> ('a dbw_scheme) \<Rightarrow> ('a dbw_scheme) \<times> go_error option" where
  "StoreWebhookEvent ev w = store_retry 3 ev w"

text \<open>
  The loop of \<open>StoreWebhookEvents\<close> inside its transaction: the rows written so far, or \<open>None\<close> when
  a statement failed.  A nil pointer in the batch is skipped.
\<close>

fun store_rows ::
  "OrderedEvent option list \<Rightarrow> ('a dbw_scheme) \<Rightarrow> event_row list \<Rightarrow> ('a dbw_scheme) \<times> event_row list option" where
  "store_rows [] w rows = (w, Some rows)"
| "store_rows (None # evs) w rows = store_rows evs w rows"
| "store_rows (Some ev # evs) w rows =
     (case engine w of (exec_ok, w) \<Rightarrow>
        if \<not> exec_ok then (w, None)
        else store_rows evs w (upsert_row er_delivery_id (event_row_of ev) rows))"

definition StoreWebhookEvents ::
  "OrderedEvent option list \<Rightarrow> ('a dbw_scheme) \<Rightarrow> ('a dbw_scheme) \<times> go_error option" where
  "StoreWebhookEvents events w =
     (if events = [] then (w, None) else
      case engine w of (begin_ok, w) \<Rightarrow>
        if \<not> begin_ok then (w, Some (db_error ''failed to begin batch tx'')) else
      case engine w of (prepare_ok, w) \<Rightarrow>
        if \<not> prepare_ok then (w, Some (db_error ''failed to prepare batch insert'')) else
      case store_rows events w (webhook_events w) of
        (w, None) \<Rightarrow> (w, Some (db_error ''failed to exec batch insert''))
      | (w, Some rows) \<Rightarrow>
     (case engine w of (commit_ok, w) \<Rightarrow>
        if \<not> commit_ok then (w, Some (db_error ''failed to commit batch insert''))
        else (w\<lparr>webhook_events := rows\<rparr>, None)))"

section \<open>Reading pending events\<close>

definition event_of_row :: "event_row \<Rightarrow> OrderedEvent" where
  "event_of_row r =
     \<lparr>Sequence = \<lparr>EventID = er_delivery_id r, SequenceID = er_sequence_id r,
        Timestamp = parseTime (er_github_timestamp r), DeliveryID = er_delivery_id r,
        ReceivedAt = parseTime (er_received_at r)\<rparr>,
      EventType = er_event_type r, RawPayload = null_string (er_raw_payload r),
      ProcessedAt = map_option parseTime (er_processed_at r), OrderingKey = er_ordering_key r,
      StatusPriority = er_status_priority r, Persisted = True\<rparr>"

definition order_key :: "event_row \<Rightarrow> string \<times> string \<times> int" where
  "order_key r = (er_github_timestamp r, er_ordering_key r, er_status_priority r)"

text \<open>\<open>WHERE ... ORDER BY github_timestamp, ordering_key, status_priority LIMIT ?\<close>\<close>

definition select_ordered :: "(event_row \<Rightarrow> bool) \<Rightarrow> nat \<Rightarrow> event_row list \<Rightarrow> event_row list" where
  "select_ordered P limit rows = take limit (sort_key order_key (filter P rows))"

text \<open>Scanning a \<open>NULL\<close> payload into a Go string is an error.\<close>

definition scan_events :: "event_row list \<Rightarrow> go_error + OrderedEvent list" where
  "scan_events rows =
     (if \<exists>r \<in> set rows. er_raw_payload r = None
      then Inl (Wrap ''failed to scan event row'' (Engine ''scan'')) else Inr (map event_of_row rows))"

definition GetPendingEventsGrouped ::
  "nat \<Rightarrow> ('a dbw_scheme) \<Rightarrow> ('a dbw_scheme) \<times> (go_error + OrderedEvent list)" where
  "GetPendingEventsGrouped limit w =
     (case engine w of (query_ok, w) \<Rightarrow>
        if \<not> query_ok then (w, Inl (db_error ''failed to query pending events'')) else
      case scan_events (select_ordered (\<lambda>r. er_status r = ''pending'') limit (webhook_events w)) of
        Inl e \<Rightarrow> (w, Inl e)
      | Inr events \<Rightarrow>
     (case engine w of (rows_ok, w) \<Rightarrow>
        if \<not> rows_ok then (w, Inl (Engine ''database'')) else (w, Inr events)))"

definition GetPendingEventsByAge ::
  "int \<Rightarrow> nat \<Rightarrow> ('a dbw_scheme) \<Rightarrow> ('a dbw_scheme) \<times> (go_error + OrderedEvent list)" where
  "GetPendingEventsByAge maxAge limit w =
     (let cutoff = format_RFC3339 (time_Add (clock w) (wrap64 (- maxAge))) in
      case engine w of (query_ok, w) \<Rightarrow>
        if \<not> query_ok then (w, Inl (db_error ''failed to query pending events by age'')) else
      case scan_events (select_ordered (\<lambda>r. er_status r = ''pending'' \<and> er_received_at r \<le> cutoff)
             limit (webhook_events w)) of
        Inl e \<Rightarrow> (w, Inl e)
      | Inr events \<Rightarrow>
     (case engine w of (rows_ok, w) \<Rightarrow>
        if \<not> rows_ok then (w, Inl (Engine ''database'')) else (w, Inr events)))"

section \<open>Marking\<close>

definition mark_processed :: "string \<Rightarrow> event_row \<Rightarrow> event_row" where
  "mark_processed now r = r\<lparr>er_status := ''processed'', er_processed_at := Some now, er_raw_payload := None\<rparr>"

definition mark_failed :: "event_row \<Rightarrow> event_row" where
  "mark_failed r = r\<lparr>er_status := ''failed''\<rparr>"

definition MarkEventProcessed ::
  "string \<Rightarrow> ('a dbw_scheme) \<Rightarrow> ('a dbw_scheme) \<times> go_error option" where
  "MarkEventProcessed deliveryID w =
     (case engine w of (exec_ok, w) \<Rightarrow>
        if \<not> exec_ok then (w, Some (db_error ''failed to mark event as processed''))
        else (w\<lparr>webhook_events := update_rows (\<lambda>r. er_delivery_id r = deliveryID)
                  (mark_processed (format_RFC3339 (clock w))) (webhook_events w)\<rparr>, None))"

definition MarkEventFailed ::
  "string \<Rightarrow> ('a dbw_scheme) \<Rightarrow> ('a dbw_scheme) \<times> go_error option" where
  "MarkEventFailed deliveryID w =
     (case engine w of (exec_ok, w) \<Rightarrow>
        if \<not> exec_ok then (w, Some (db_error ''failed to mark event as failed''))
        else (w\<lparr>webhook_events := update_rows (\<lambda>r. er_delivery_id r = deliveryID)
                  mark_failed (webhook_events w)\<rparr>, None))"

section \<open>The invariant of the table\<close>

text \<open>
  One row per delivery; a pending row has its payload and no processing time; a processed row has
  a processing time.
\<close>

definition event_row_ok :: "event_row \<Rightarrow> bool" where
  "event_row_ok r \<longleftrightarrow>
     er_status r \<in> {''pending'', ''processed'', ''failed''} \<and>
     (er_status r = ''pending'' \<longrightarrow> er_raw_payload r \<noteq> None \<and> er_processed_at r = None) \<and>
     (er_status r = ''processed'' \<longrightarrow> er_processed_at r \<noteq> None)"

definition events_wf :: "event_row list \<Rightarrow> bool" where
  "events_wf rows \<longleftrightarrow> pk_distinct er_delivery_id rows \<and> (\<forall>r \<in> set rows. event_row_ok r)"

lemma event_row_of_simps [simp]:
  "er_delivery_id (event_row_of ev) = DeliveryID (Sequence ev)"
  "er_event_type (event_row_of ev) = EventType ev"
  "er_raw_payload (event_row_of ev) = Some (RawPayload ev)"
  "er_status (event_row_of ev) = ''pending'' \<longleftrightarrow> ProcessedAt ev = None"
  by (simp_all add: event_row_of_def)

lemma mark_simps [simp]:
  "er_delivery_id (mark_processed now r) = er_delivery_id r" "er_status (mark_processed now r) = ''processed''"
  "er_delivery_id (mark_failed r) = er_delivery_id r" "er_status (mark_failed r) = ''failed''"
  by (simp_all add: mark_processed_def mark_failed_def)

lemma event_row_of_ok: "event_row_ok (event_row_of ev)"
  by (simp add: event_row_ok_def event_row_of_def)

lemma events_wf_upsert: "events_wf rows \<Longrightarrow> events_wf (upsert_row er_delivery_id (event_row_of ev) rows)"
  using set_upsert [of er_delivery_id "event_row_of ev" rows]
  by (auto simp: events_wf_def pk_distinct_upsert event_row_of_ok)

lemma events_wf_update:
  assumes "events_wf rows" "\<And>r. er_delivery_id (f r) = er_delivery_id r"
    "\<And>r. r \<in> set rows \<Longrightarrow> P r \<Longrightarrow> event_row_ok (f r)"
  shows "events_wf (update_rows P f rows)"
  using assms by (auto simp: events_wf_def pk_distinct_update set_update)

lemma events_wf_processed: "events_wf rows \<Longrightarrow> events_wf (update_rows P (mark_processed now) rows)"
  by (rule events_wf_update) (simp_all add: event_row_ok_def mark_processed_def)

lemma events_wf_failed: "events_wf rows \<Longrightarrow> events_wf (update_rows P mark_failed rows)"
  by (rule events_wf_update) (simp_all add: event_row_ok_def mark_failed_def)

lemma events_wf_delete: "events_wf rows \<Longrightarrow> events_wf (delete_rows P rows)"
  by (simp add: events_wf_def pk_distinct_delete)

text \<open>What a batch does: the rows of the batch, in order, or nothing at all.\<close>

definition put_event :: "OrderedEvent \<Rightarrow> event_row list \<Rightarrow> event_row list" where
  "put_event ev = upsert_row er_delivery_id (event_row_of ev)"

definition present :: "'x option list \<Rightarrow> 'x list" where
  "present xs = List.map_filter (\<lambda>x. x) xs"

lemma present_simps [simp]:
  "present [] = []" "present (None # xs) = present xs" "present (Some x # xs) = x # present xs"
  "present (map Some ys) = ys"
  by (simp_all add: present_def List.map_filter_simps, induction ys)
     (simp_all add: List.map_filter_simps)

lemma store_rows_outcome:
  "\<exists>bs. store_rows evs w rows = (w\<lparr>tape := bs\<rparr>, None) \<or>
        store_rows evs w rows = (w\<lparr>tape := bs\<rparr>, Some (fold put_event (present evs) rows))"
proof (induction evs w rows rule: store_rows.induct)
  case (1 w rows)
  then show ?case by (auto intro: exI [of _ "tape w"])
next
  case (2 evs w rows)
  then show ?case by simp
next
  case (3 ev evs w rows)
  obtain b t where e: "engine w = (b, w\<lparr>tape := t\<rparr>)" by (rule engine_cases)
  show ?case
  proof (cases b)
    case False
    with e show ?thesis by auto
  next
    case True
    with "3.IH" [OF e [symmetric]] e show ?thesis by (auto simp: put_event_def)
  qed
qed

lemma StoreWebhookEvents_outcome:
  obtains (failed) bs e where "StoreWebhookEvents evs w = (w\<lparr>tape := bs\<rparr>, Some e)"
    | (stored) bs where "StoreWebhookEvents evs w =
        (w\<lparr>tape := bs, webhook_events := fold put_event (present evs) (webhook_events w)\<rparr>, None)"
proof (cases "evs = []")
  case True
  then show thesis using stored [of "tape w"] by (simp add: StoreWebhookEvents_def)
next
  case False
  obtain b1 t1 b2 t2 where 1: "engine w = (b1, w\<lparr>tape := t1\<rparr>)"
    "engine (w\<lparr>tape := t1\<rparr>) = (b2, w\<lparr>tape := t2\<rparr>)" by (rule engine_twice)
  obtain t3 where 3: "store_rows evs (w\<lparr>tape := t2\<rparr>) (webhook_events w) = (w\<lparr>tape := t3\<rparr>, None) \<or>
      store_rows evs (w\<lparr>tape := t2\<rparr>) (webhook_events w) =
        (w\<lparr>tape := t3\<rparr>, Some (fold put_event (present evs) (webhook_events w)))"
    using store_rows_outcome [of evs "w\<lparr>tape := t2\<rparr>" "webhook_events w"] by auto
  obtain b4 t4 where 4: "engine (w\<lparr>tape := t3\<rparr>) = (b4, w\<lparr>tape := t4\<rparr>)"
    by (rule engine_cases [of "w\<lparr>tape := t3\<rparr>"]) auto
  have "(\<exists>e bs. StoreWebhookEvents evs w = (w\<lparr>tape := bs\<rparr>, Some e)) \<or>
      (\<exists>bs. StoreWebhookEvents evs w =
        (w\<lparr>tape := bs, webhook_events := fold put_event (present evs) (webhook_events w)\<rparr>, None))"
    using 3 by (cases b1; cases b2; cases b4) (auto simp: StoreWebhookEvents_def False 1 4)
  then show thesis using failed stored by blast
qed

lemma store_rows_healthy:
  "healthy w \<Longrightarrow> store_rows evs w rows = (w, Some (fold put_event (present evs) rows))"
  by (induction evs w rows rule: store_rows.induct) (simp_all add: put_event_def)

lemma StoreWebhookEvents_healthy:
  "healthy w \<Longrightarrow> StoreWebhookEvents evs w =
     (w\<lparr>webhook_events := fold put_event (present evs) (webhook_events w)\<rparr>, None)"
  by (simp add: StoreWebhookEvents_def store_rows_healthy)

lemma events_wf_fold_put: "events_wf rows \<Longrightarrow> events_wf (fold put_event evs rows)"
  by (induction evs arbitrary: rows) (simp_all add: put_event_def events_wf_upsert)

text \<open>The pending queries: every pending row is returned once, in order, up to the limit.\<close>

lemma select_ordered_sorted: "sorted (map order_key (select_ordered P n rows))"
  unfolding select_ordered_def take_map [symmetric]
  by (rule sorted_wrt_take) (rule sorted_sort_key)

lemma select_ordered_set: "set (select_ordered P n rows) \<subseteq> {r \<in> set rows. P r}"
  unfolding select_ordered_def using set_take_subset [of n "sort_key order_key (filter P rows)"] by auto

lemma select_ordered_all:
  "length (filter P rows) \<le> n \<Longrightarrow> mset (select_ordered P n rows) = mset (filter P rows)"
  by (simp add: select_ordered_def)

lemma select_ordered_length: "length (select_ordered P n rows) = min n (length (filter P rows))"
  by (simp add: select_ordered_def min.commute)

lemma select_ordered_distinct:
  assumes "pk_distinct er_delivery_id rows"
  shows "pk_distinct er_delivery_id (select_ordered P n rows)"
proof -
  have "distinct (map er_delivery_id (filter P rows))"
    using assms by (simp add: pk_distinct_def distinct_map_filter)
  moreover have "mset (map er_delivery_id (sort_key order_key (filter P rows))) = mset (map er_delivery_id (filter P rows))"
    by simp
  ultimately have "distinct (map er_delivery_id (sort_key order_key (filter P rows)))"
    using mset_eq_imp_distinct_iff by blast
  then show ?thesis
    unfolding pk_distinct_def select_ordered_def take_map [symmetric] by (rule distinct_take)
qed

lemma scan_pending:
  assumes "events_wf rows" "\<And>r. P r \<Longrightarrow> er_status r = ''pending''"
  shows "scan_events (select_ordered P n rows) = Inr (map event_of_row (select_ordered P n rows))"
  using assms select_ordered_set [of P n rows]
  by (force simp: scan_events_def events_wf_def event_row_ok_def)

text \<open>A stored event read back: the fields survive, times to the second, and it is marked persisted.\<close>

lemma event_round_trip:
  assumes "time_ok (Timestamp (Sequence ev))" "time_ok (ReceivedAt (Sequence ev))" "ProcessedAt ev = None"
  shows "event_of_row (event_row_of ev) =
    ev\<lparr>Sequence := (Sequence ev)\<lparr>EventID := DeliveryID (Sequence ev),
         Timestamp := whole_secs (Timestamp (Sequence ev)),
         ReceivedAt := whole_secs (ReceivedAt (Sequence ev))\<rparr>,
       Persisted := True\<rparr>"
  using assms by (simp add: event_of_row_def event_row_of_def parseTime_format null_string_def)

text \<open>A batch of events is stored completely or not at all.  Whatever the engine does, either the
  call returns an error and no table has changed, or it returns nil and every event of the batch
  has been upserted in order.\<close>

theorem batch_store_is_atomic:
  "(\<exists>e bs. StoreWebhookEvents evs w = (w\<lparr>tape := bs\<rparr>, Some e)) \<or>
   (\<exists>bs. StoreWebhookEvents evs w =
      (w\<lparr>tape := bs, webhook_events := fold put_event (present evs) (webhook_events w)\<rparr>, None))"
  by (rule StoreWebhookEvents_outcome [of evs w]) blast+

text \<open>C20: a spilled event comes back from the pending query as it went in, marked persisted, with its
  times cut to the second, as long as the limit leaves room for all pending events.\<close>

theorem spilled_event_reads_back:
  fixes w :: "'a dbw_scheme"
  assumes "healthy w" "events_wf (webhook_events w)" "ProcessedAt ev = None"
    and "time_ok (Timestamp (Sequence ev))" "time_ok (ReceivedAt (Sequence ev))"
    and "length (webhook_events w) < n"
  shows "\<exists>evs. GetPendingEventsGrouped n (fst (StoreWebhookEvents [Some ev] w)) =
      (fst (StoreWebhookEvents [Some ev] w), Inr evs) \<and>
    ev\<lparr>Sequence := (Sequence ev)\<lparr>EventID := DeliveryID (Sequence ev),
         Timestamp := whole_secs (Timestamp (Sequence ev)),
         ReceivedAt := whole_secs (ReceivedAt (Sequence ev))\<rparr>,
       Persisted := True\<rparr> \<in> set evs"
proof -
  let ?rows = "put_event ev (webhook_events w)" and ?P = "\<lambda>r. er_status r = ''pending''"
  have wf: "events_wf ?rows" using assms(2) by (simp add: put_event_def events_wf_upsert)
  have len: "length ?rows \<le> Suc (length (webhook_events w))"
    by (simp add: put_event_def upsert_row_def)
  then have "length (filter ?P ?rows) \<le> n"
    using assms(6) length_filter_le [of ?P ?rows] by linarith
  then have "mset (select_ordered ?P n ?rows) = mset (filter ?P ?rows)" by (rule select_ordered_all)
  then have "set (select_ordered ?P n ?rows) = set (filter ?P ?rows)" by (metis set_mset_mset)
  moreover have "event_row_of ev \<in> set (filter ?P ?rows)"
    using assms(3) upsert_member [of "event_row_of ev"] by (simp add: put_event_def)
  ultimately have "event_of_row (event_row_of ev) \<in> set (map event_of_row (select_ordered ?P n ?rows))" by simp
  moreover have "scan_events (select_ordered ?P n ?rows) = Inr (map event_of_row (select_ordered ?P n ?rows))"
    using wf by (rule scan_pending) simp
  ultimately show ?thesis
    using assms(1) by (simp add: StoreWebhookEvents_healthy GetPendingEventsGrouped_def
        event_round_trip [OF assms(4,5,3), symmetric] healthy_def)
qed


end
