(* ===== verification/Sse.thy ===== *)
theory Sse
  imports Models
begin

text \<open>
  The event fan-out of \<open>handlers/sse_handler.go\<close>: the coalescer, which keeps the latest payload per
  event type until its next tick, and the registry of subscribers, each with its own bounded
  channel.  Metric updates are the effects the operations return, in call order
  (\<open>pkg/metrics\<close> forwards them to the Prometheus client).
\<close>

section \<open>Metric effects\<close>

text \<open>One constructor per registry operation; durations are in nanoseconds.\<close>

datatype metric_op =
    WebhookEventsInc string string
  | QueueDurationObserve string int
  | JobConclusionInc string
  | CurrentJobsSet string nat
  | JobsByLabelReset
  | JobsByLabelSet string string nat
  | SSEBroadcastInc string
  | SSEDroppedInc string
  | FlushBatchEventsObserve nat
  | FlushBatchDurationObserve

section \<open>Events, subscribers and the coalescer\<close>

text \<open>The payloads the program sends.\<close>

datatype sse_data = WorkflowUpdate WorkflowUpdateEvent | MetricsUpdate nat nat string

record SSEEvent =
  sse_Type :: string
  sse_Data :: sse_data

record sseSubscriber =
  sub_id :: nat
  sub_ch :: "SSEEvent list"

record SSEHandler =
  pending :: "SSEEvent list"
  subs :: "sseSubscriber list"
  next_sub :: nat

definition subscriberBufferSize :: nat where
  "subscriberBufferSize = 100"

definition InitSSEHandler :: SSEHandler where
  "InitSSEHandler = \<lparr>pending = [], subs = [], next_sub = 0\<rparr>"

text \<open>\<open>submit\<close>: the pending map holds the last event of each type.\<close>

definition submit :: "SSEEvent \<Rightarrow> SSEHandler \<Rightarrow> SSEHandler" where
  "submit ev h = h\<lparr>pending := upsert_row sse_Type ev (pending h)\<rparr>"

definition SendEventCoalesced :: "string \<Rightarrow> sse_data \<Rightarrow> SSEHandler option \<Rightarrow> SSEHandler option" where
  "SendEventCoalesced t d h =
     (case h of None \<Rightarrow> None | Some st \<Rightarrow> Some (submit \<lparr>sse_Type = t, sse_Data = d\<rparr> st))"

text \<open>One non-blocking send, and the loop over the subscribers of \<open>sendEventNow\<close>.\<close>

definition offer :: "SSEEvent \<Rightarrow> sseSubscriber \<Rightarrow> sseSubscriber" where
  "offer ev s =
     (if length (sub_ch s) < subscriberBufferSize then s\<lparr>sub_ch := sub_ch s @ [ev]\<rparr> else s)"

definition dropped :: "SSEEvent \<Rightarrow> sseSubscriber \<Rightarrow> bool" where
  "dropped ev s \<longleftrightarrow> \<not> length (sub_ch s) < subscriberBufferSize"

definition sendEventNow :: "SSEEvent \<Rightarrow> SSEHandler \<Rightarrow> SSEHandler \<times> metric_op list" where
  "sendEventNow ev h =
     (h\<lparr>subs := map (offer ev) (subs h)\<rparr>,
      SSEBroadcastInc (sse_Type ev) #
        map (\<lambda>_. SSEDroppedInc (sse_Type ev)) (filter (dropped ev) (subs h)))"

fun send_all :: "SSEEvent list \<Rightarrow> SSEHandler \<Rightarrow> SSEHandler \<times> metric_op list" where
  "send_all [] h = (h, [])"
| "send_all (ev # evs) h =
     (case sendEventNow ev h of (h', m) \<Rightarrow> case send_all evs h' of (h'', ms) \<Rightarrow> (h'', m @ ms))"

text \<open>
  \<open>flush\<close>: the pending map is taken and emptied, its events are sent in the iteration order of the
  map, which Go leaves open (the argument \<open>iter\<close>).
\<close>

definition flush :: "(SSEEvent list \<Rightarrow> SSEEvent list) \<Rightarrow> SSEHandler \<Rightarrow> SSEHandler \<times> metric_op list" where
  "flush iter h =
     (if pending h = [] then (h, []) else send_all (iter (pending h)) (h\<lparr>pending := []\<rparr>))"

definition subscribe :: "SSEHandler \<Rightarrow> SSEHandler \<times> nat" where
  "subscribe h =
     (h\<lparr>subs := subs h @ [\<lparr>sub_id = next_sub h, sub_ch = []\<rparr>], next_sub := Suc (next_sub h)\<rparr>,
      next_sub h)"

definition unsubscribe :: "nat \<Rightarrow> SSEHandler \<Rightarrow> SSEHandler" where
  "unsubscribe i h = h\<lparr>subs := delete_rows (\<lambda>s. sub_id s = i) (subs h)\<rparr>"

definition SubscriberCount :: "SSEHandler \<Rightarrow> nat" where
  "SubscriberCount h = length (subs h)"

text \<open>The client loop takes the next event of its channel.\<close>

definition receive :: "nat \<Rightarrow> SSEHandler \<Rightarrow> SSEHandler \<times> SSEEvent option" where
  "receive i h =
     (case find_row sub_id i (subs h) of
        Some s \<Rightarrow>
          (case sub_ch s of
             [] \<Rightarrow> (h, None)
           | ev # evs \<Rightarrow>
               (h\<lparr>subs := update_rows (\<lambda>x. sub_id x = i) (\<lambda>x. x\<lparr>sub_ch := evs\<rparr>) (subs h)\<rparr>, Some ev))
      | None \<Rightarrow> (h, None))"

text \<open>\<open>SendEvent\<close> bypasses the coalescer; both sends ignore a nil handler.\<close>

definition SendEvent ::
  "string \<Rightarrow> sse_data \<Rightarrow> SSEHandler option \<Rightarrow> SSEHandler option \<times> metric_op list" where
  "SendEvent t d h =
     (case h of None \<Rightarrow> (None, [])
      | Some st \<Rightarrow> (case sendEventNow \<lparr>sse_Type = t, sse_Data = d\<rparr> st of (st', ms) \<Rightarrow> (Some st', ms)))"

text \<open>What runs concurrently on the handler, one locked section or channel operation per step.\<close>

inductive sse_step :: "SSEHandler \<Rightarrow> SSEHandler \<Rightarrow> bool" where
  step_submit: "sse_step h (submit ev h)"
| step_tick: "mset (iter (pending h)) = mset (pending h) \<Longrightarrow> sse_step h (fst (flush iter h))"
| step_send: "sse_step h (fst (sendEventNow ev h))"
| step_connect: "sse_step h (fst (subscribe h))"
| step_disconnect: "sse_step h (unsubscribe i h)"
| step_receive: "sse_step h (fst (receive i h))"

inductive_cases sse_stepE: "sse_step h h'"

section \<open>The invariant\<close>

definition sse_wf :: "SSEHandler \<Rightarrow> bool" where
  "sse_wf h \<longleftrightarrow>
     pk_distinct sse_Type (pending h) \<and> pk_distinct sub_id (subs h) \<and>
     (\<forall>s \<in> set (subs h). sub_id s < next_sub h \<and> length (sub_ch s) \<le> subscriberBufferSize)"

lemma offer_id [simp]: "sub_id (offer ev s) = sub_id s"
  by (simp add: offer_def)

lemma offer_bound: "length (sub_ch s) \<le> subscriberBufferSize \<Longrightarrow> length (sub_ch (offer ev s)) \<le> subscriberBufferSize"
  by (simp add: offer_def)

lemma sse_wf_init: "sse_wf InitSSEHandler"
  by (simp add: sse_wf_def InitSSEHandler_def pk_distinct_def)

lemma sse_wf_submit: "sse_wf h \<Longrightarrow> sse_wf (submit ev h)"
  by (simp add: sse_wf_def submit_def pk_distinct_upsert)

lemma sse_wf_send: "sse_wf h \<Longrightarrow> sse_wf (fst (sendEventNow ev h))"
  by (auto simp: sse_wf_def sendEventNow_def offer_bound pk_distinct_def comp_def)

lemma sse_wf_send_all: "sse_wf h \<Longrightarrow> sse_wf (fst (send_all evs h))"
proof (induction evs arbitrary: h)
  case Nil
  then show ?case by simp
next
  case (Cons ev evs)
  then have "sse_wf (fst (send_all evs (fst (sendEventNow ev h))))"
    by (intro Cons.IH sse_wf_send)
  then show ?case by (auto split: prod.splits)
qed

lemma sse_wf_flush: "sse_wf h \<Longrightarrow> sse_wf (fst (flush iter h))"
proof -
  assume "sse_wf h"
  then have "sse_wf (h\<lparr>pending := []\<rparr>)" by (simp add: sse_wf_def pk_distinct_def)
  then show ?thesis using \<open>sse_wf h\<close> by (simp add: flush_def sse_wf_send_all)
qed

lemma sse_wf_subscribe: "sse_wf h \<Longrightarrow> sse_wf (fst (subscribe h))"
  by (auto simp: sse_wf_def subscribe_def pk_distinct_def)

lemma sse_wf_unsubscribe: "sse_wf h \<Longrightarrow> sse_wf (unsubscribe i h)"
  by (simp add: sse_wf_def unsubscribe_def pk_distinct_delete)

lemma sse_wf_receive: "sse_wf h \<Longrightarrow> sse_wf (fst (receive i h))"
proof -
  assume wf: "sse_wf h"
  show ?thesis
  proof (cases "find_row sub_id i (subs h)")
    case None
    with wf show ?thesis by (simp add: receive_def)
  next
    case (Some s)
    then have s: "s \<in> set (subs h)" "sub_id s = i" using find_row_Some [OF Some] by auto
    show ?thesis
    proof (cases "sub_ch s")
      case Nil
      with wf Some show ?thesis by (simp add: receive_def)
    next
      case (Cons ev evs)
      have "length (sub_ch s) \<le> subscriberBufferSize" using wf s(1) by (simp add: sse_wf_def)
      with wf Some Cons show ?thesis
        by (auto simp: receive_def sse_wf_def pk_distinct_update set_update)
    qed
  qed
qed

lemma sse_wf_step: "sse_step h h' \<Longrightarrow> sse_wf h \<Longrightarrow> sse_wf h'"
  by (auto elim!: sse_stepE
      intro: sse_wf_submit sse_wf_send sse_wf_flush sse_wf_subscribe sse_wf_unsubscribe sse_wf_receive)

lemma sse_wf_reachable: "sse_step\<^sup>*\<^sup>* InitSSEHandler h \<Longrightarrow> sse_wf h"
  by (induction rule: rtranclp_induct) (auto intro: sse_wf_init sse_wf_step)

section \<open>Coalescing\<close>

text \<open>The pending map after a run of submissions: the last event of each type.\<close>

lemma pending_fold_submit: "pending (fold submit evs h) = fold (upsert_row sse_Type) evs (pending h)"
  by (induction evs arbitrary: h) (simp_all add: submit_def)

lemma subs_fold_submit: "subs (fold submit evs h) = subs h"
  by (induction evs arbitrary: h) (simp_all add: submit_def)

lemma coalesced_latest:
  "sse_wf h \<Longrightarrow> find_row sse_Type t (pending (fold submit evs h)) =
     (case find_row sse_Type t (rev evs) of None \<Rightarrow> find_row sse_Type t (pending h) | Some ev \<Rightarrow> Some ev)"
  by (simp add: pending_fold_submit row_list.look_fold_put sse_wf_def)

section \<open>Fan-out\<close>

text \<open>
  What a subscriber's channel holds after a list of sends: its events first, then the sent ones,
  cut at the buffer size.  It does not depend on the other subscribers.
\<close>

definition deliver :: "SSEEvent list \<Rightarrow> SSEEvent list \<Rightarrow> SSEEvent list" where
  "deliver ch evs = ch @ take (subscriberBufferSize - length ch) evs"

lemma offer_ch: "sub_ch (offer ev s) = deliver (sub_ch s) [ev]"
  by (cases "subscriberBufferSize - length (sub_ch s)") (auto simp: offer_def deliver_def)

lemma deliver_deliver: "deliver (deliver ch us) vs = deliver ch (us @ vs)"
  by (simp add: deliver_def min_def)

lemma deliver_all: "length ch + length evs \<le> subscriberBufferSize \<Longrightarrow> deliver ch evs = ch @ evs"
  by (simp add: deliver_def)

lemma find_row_map_id:
  "(\<And>s. key (f s) = key s) \<Longrightarrow> find_row key k (map f rows) = map_option f (find_row key k rows)"
  by (induction rows) auto

lemma send_all_channel:
  "find_row sub_id i (subs h) = Some s \<Longrightarrow>
   \<exists>s'. find_row sub_id i (subs (fst (send_all evs h))) = Some s' \<and> sub_ch s' = deliver (sub_ch s) evs"
proof (induction evs arbitrary: h s)
  case Nil
  then show ?case by (simp add: deliver_def)
next
  case (Cons ev evs)
  have "find_row sub_id i (subs (fst (sendEventNow ev h))) = Some (offer ev s)"
    using Cons.prems by (simp add: sendEventNow_def find_row_map_id)
  from Cons.IH [OF this] show ?case
    by (auto simp: offer_ch deliver_deliver split: prod.splits)
qed

text \<open>Counting: each send is one broadcast, and each of its per-client sends is kept or counted as dropped.\<close>

definition queued_events :: "SSEHandler \<Rightarrow> nat" where
  "queued_events h = sum_list (map (\<lambda>s. length (sub_ch s)) (subs h))"

definition drops :: "metric_op list \<Rightarrow> nat" where
  "drops ms = length (filter (\<lambda>m. \<exists>t. m = SSEDroppedInc t) ms)"

lemma drops_simps [simp]:
  "drops [] = 0" "drops (SSEBroadcastInc t # ms) = drops ms" "drops (xs @ ys) = drops xs + drops ys"
  "drops (map (\<lambda>_. SSEDroppedInc t) us) = length us"
  by (simp_all add: drops_def comp_def)

lemma offer_count:
  "sum_list (map (\<lambda>s. length (sub_ch (offer ev s))) ss) + length (filter (dropped ev) ss) =
   sum_list (map (\<lambda>s. length (sub_ch s)) ss) + length ss"
  by (induction ss) (auto simp: offer_def dropped_def)

lemma send_conservation:
  "queued_events (fst (send_all evs h)) + drops (snd (send_all evs h)) =
     queued_events h + length evs * SubscriberCount h \<and>
   SubscriberCount (fst (send_all evs h)) = SubscriberCount h"
proof (induction evs arbitrary: h)
  case Nil
  then show ?case by simp
next
  case (Cons ev evs)
  obtain h' m where s: "sendEventNow ev h = (h', m)" by (cases "sendEventNow ev h")
  have h': "queued_events h' + drops m = queued_events h + SubscriberCount h"
    "SubscriberCount h' = SubscriberCount h"
    using s offer_count [of ev "subs h"]
    by (auto simp: sendEventNow_def queued_events_def SubscriberCount_def comp_def)
  obtain h'' ms where r: "send_all evs h' = (h'', ms)" by (cases "send_all evs h'")
  show ?case using Cons.IH [of h'] h' by (simp add: s r)
qed

section \<open>Properties\<close>

text \<open>In every reachable state of the handler the pending events have distinct types, the
  subscribers distinct ids, and no client's channel holds more than 100 events.\<close>

theorem sse_state_is_bounded:
  assumes "sse_step\<^sup>*\<^sup>* InitSSEHandler h"
  shows "distinct (map sse_Type (pending h)) \<and> distinct (map sub_id (subs h)) \<and>
    (\<forall>s \<in> set (subs h). length (sub_ch s) \<le> 100)"
  using sse_wf_reachable [OF assms] by (simp add: sse_wf_def pk_distinct_def subscriberBufferSize_def)

theorem sse_state_is_bounded_witness:
  "SubscriberCount (fst (subscribe InitSSEHandler)) = 1 \<and>
   list_all (\<lambda>s. length (sub_ch s) \<le> 100) (subs (fst (subscribe InitSSEHandler)))"
  using sse_state_is_bounded [OF r_into_rtranclp [of sse_step, OF step_connect [of InitSSEHandler]]]
  by (simp add: list_all_iff SubscriberCount_def subscribe_def InitSSEHandler_def)

text \<open>A tick after any number of coalesced sends delivers to a client with room exactly the latest
  event of each type, once, whatever order the pending map is walked in.\<close>

theorem coalesced_tick_delivers_latest:
  assumes "sse_wf h" "pending h = []" "find_row sub_id i (subs h) = Some s" "evs \<noteq> []"
    and "mset (iter (pending (fold submit evs h))) = mset (pending (fold submit evs h))"
    and "length (sub_ch s) + length (pending (fold submit evs h)) \<le> subscriberBufferSize"
  shows "\<exists>s' new. find_row sub_id i (subs (fst (flush iter (fold submit evs h)))) = Some s' \<and>
    sub_ch s' = sub_ch s @ new \<and> distinct (map sse_Type new) \<and>
    (\<forall>ev. ev \<in> set new \<longleftrightarrow> find_row sse_Type (sse_Type ev) (rev evs) = Some ev)"
proof -
  let ?h = "fold submit evs h" and ?new = "iter (pending (fold submit evs h))"
  have p: "pk_distinct sse_Type (pending ?h)"
    unfolding pending_fold_submit using assms(1) by (intro row_list.wf_fold_put) (simp add: sse_wf_def)
  have latest: "find_row sse_Type t (pending ?h) = find_row sse_Type t (rev evs)" for t
    using coalesced_latest [OF assms(1), of t evs] assms(2) by (simp split: option.splits)
  have mem: "ev \<in> set (pending ?h) \<longleftrightarrow> find_row sse_Type (sse_Type ev) (rev evs) = Some ev" for ev
    using pk_distinct_find [OF p, of ev] find_row_Some [of sse_Type "sse_Type ev" "pending ?h" ev]
    unfolding latest by blast
  have new: "set ?new = set (pending ?h)" using assms(5) by (metis set_mset_mset)
  have "mset (map sse_Type ?new) = mset (map sse_Type (pending ?h))" using assms(5) by simp
  then have d: "distinct (map sse_Type ?new)"
    using p mset_eq_imp_distinct_iff unfolding pk_distinct_def by blast
  have ne: "pending ?h \<noteq> []"
  proof -
    obtain e where "e \<in> set evs" using assms(4) by (cases evs) auto
    then have "find_row sse_Type (sse_Type e) (rev evs) \<noteq> None" by (simp add: find_row_None)
    then show ?thesis using latest [of "sse_Type e"] by auto
  qed
  have len: "length ?new = length (pending ?h)" using assms(5) by (metis size_mset)
  have "find_row sub_id i (subs (?h\<lparr>pending := []\<rparr>)) = Some s"
    using assms(3) by (simp add: subs_fold_submit)
  from send_all_channel [OF this, of ?new] obtain s' where
    s': "find_row sub_id i (subs (fst (send_all ?new (?h\<lparr>pending := []\<rparr>)))) = Some s'"
    "sub_ch s' = deliver (sub_ch s) ?new" by blast
  have "sub_ch s' = sub_ch s @ ?new" using s'(2) assms(6) len by (simp add: deliver_all)
  with s'(1) d ne new mem show ?thesis
    by (intro exI [of _ s'] exI [of _ ?new]) (simp add: flush_def)
qed

definition sample_updates :: "SSEEvent list" where
  "sample_updates = [\<lparr>sse_Type = ''m'', sse_Data = MetricsUpdate 1 0 ''t''\<rparr>, \<lparr>sse_Type = ''m'', sse_Data = MetricsUpdate 2 0 ''t''\<rparr>]"

theorem coalesced_tick_delivers_latest_witness:
  "\<exists>s'. find_row sub_id 0 (subs (fst (flush rev (fold submit sample_updates (fst (subscribe InitSSEHandler)))))) = Some s' \<and>
     \<lparr>sse_Type = ''m'', sse_Data = MetricsUpdate 2 0 ''t''\<rparr> \<in> set (sub_ch s')"
proof -
  let ?h = "fst (subscribe InitSSEHandler)"
  have "\<exists>s' new. find_row sub_id 0 (subs (fst (flush rev (fold submit sample_updates ?h)))) = Some s' \<and>
    sub_ch s' = sub_ch \<lparr>sub_id = 0, sub_ch = []\<rparr> @ new \<and> distinct (map sse_Type new) \<and>
    (\<forall>ev. ev \<in> set new \<longleftrightarrow> find_row sse_Type (sse_Type ev) (rev sample_updates) = Some ev)"
    by (rule coalesced_tick_delivers_latest)
       (simp_all add: sse_wf_subscribe sse_wf_init,
        simp_all add: subscribe_def InitSSEHandler_def subscriberBufferSize_def submit_def upsert_row_def sample_updates_def)
  then show ?thesis by (auto simp: sample_updates_def)
qed

text \<open>Broadcasting loses nothing silently.  Over a run of sends, the events queued at the clients
  before, plus one per client and send, are the events queued afterwards plus the drops counted.\<close>

theorem fanout_conservation:
  "queued_events (fst (send_all evs h)) + drops (snd (send_all evs h)) =
     queued_events h + length evs * SubscriberCount h"
  using send_conservation [of evs h] by simp

end
