(* ===== verification/World.thy ===== *)
theory World
  imports Db_Workflow Db_Events Sse
begin

text \<open>
  The state the whole server acts on: the database handle, extended by the metrics registry (the
  log of its operations in call order) and by the global SSE handler, which is nil until
  \<open>InitSSEHandler\<close> runs.
\<close>

record world = dbw +
  mlog :: "metric_op list"
  sse :: "SSEHandler option"

definition emit :: "metric_op list \<Rightarrow> world \<Rightarrow> world" where
  "emit ms w = w\<lparr>mlog := mlog w @ ms\<rparr>"

text \<open>The operations of \<open>pkg/metrics\<close>.\<close>

definition RecordQueueDuration :: "string \<Rightarrow> int \<Rightarrow> world \<Rightarrow> world" where
  "RecordQueueDuration label d = emit [QueueDurationObserve label d]"

definition RecordJobConclusion :: "string \<Rightarrow> world \<Rightarrow> world" where
  "RecordJobConclusion c = emit [JobConclusionInc c]"

definition WebhookEventsTotal_Inc :: "string \<Rightarrow> string \<Rightarrow> world \<Rightarrow> world" where
  "WebhookEventsTotal_Inc event_type outcome = emit [WebhookEventsInc event_type outcome]"

definition UpdateCurrentJobCounts :: "nat \<Rightarrow> nat \<Rightarrow> world \<Rightarrow> world" where
  "UpdateCurrentJobCounts running queued =
     emit [CurrentJobsSet ''in_progress'' running, CurrentJobsSet ''queued'' queued]"

definition ResetJobsByLabel :: "world \<Rightarrow> world" where
  "ResetJobsByLabel = emit [JobsByLabelReset]"

definition UpdateJobsByLabel :: "string \<Rightarrow> nat \<Rightarrow> nat \<Rightarrow> world \<Rightarrow> world" where
  "UpdateJobsByLabel label running queued =
     emit [JobsByLabelSet label ''in_progress'' running, JobsByLabelSet label ''queued'' queued]"

text \<open>\<open>SendWorkflowUpdate\<close> and \<open>SendMetricsUpdate\<close>.\<close>

definition SendWorkflowUpdate :: "WorkflowUpdateEvent \<Rightarrow> world \<Rightarrow> world" where
  "SendWorkflowUpdate u w = w\<lparr>sse := SendEventCoalesced ''workflow_update'' (WorkflowUpdate u) (sse w)\<rparr>"

definition SendMetricsUpdate :: "nat \<Rightarrow> nat \<Rightarrow> string \<Rightarrow> world \<Rightarrow> world" where
  "SendMetricsUpdate running queued ts w =
     w\<lparr>sse := SendEventCoalesced ''metrics_update'' (MetricsUpdate running queued ts) (sse w)\<rparr>"

lemmas registry_defs =
  RecordQueueDuration_def RecordJobConclusion_def WebhookEventsTotal_Inc_def
  UpdateCurrentJobCounts_def ResetJobsByLabel_def UpdateJobsByLabel_def

lemma emit_tables [simp]:
  "workflow_jobs (emit ms w) = workflow_jobs w" "workflow_runs (emit ms w) = workflow_runs w"
  "webhook_events (emit ms w) = webhook_events w" "metrics_snapshots (emit ms w) = metrics_snapshots w"
  "tape (emit ms w) = tape w" "clock (emit ms w) = clock w" "sse (emit ms w) = sse w"
  "mlog (emit ms w) = mlog w @ ms"
  by (simp_all add: emit_def)

lemma update_tables [simp]:
  "workflow_jobs (SendWorkflowUpdate u w) = workflow_jobs w"
  "workflow_runs (SendWorkflowUpdate u w) = workflow_runs w"
  "webhook_events (SendWorkflowUpdate u w) = webhook_events w"
  "metrics_snapshots (SendWorkflowUpdate u w) = metrics_snapshots w"
  "tape (SendWorkflowUpdate u w) = tape w" "clock (SendWorkflowUpdate u w) = clock w"
  "mlog (SendWorkflowUpdate u w) = mlog w"
  by (simp_all add: SendWorkflowUpdate_def)

text \<open>
  The invariant of the tables: primary keys are distinct, every stored status is a known one, and
  the event rows are well formed.
\<close>

definition rows_known :: "(JobStatus \<Rightarrow> nat option) \<Rightarrow> ('r \<Rightarrow> JobStatus) \<Rightarrow> 'r list \<Rightarrow> bool" where
  "rows_known prio status rows \<longleftrightarrow> (\<forall>r \<in> set rows. prio (status r) \<noteq> None)"

definition db_wf :: "('a dbw_scheme) \<Rightarrow> bool" where
  "db_wf w \<longleftrightarrow>
     pk_distinct jr_id (workflow_jobs w) \<and> rows_known JobStatusPriority jr_status (workflow_jobs w) \<and>
     pk_distinct rr_id (workflow_runs w) \<and> rows_known RunStatusPriority rr_status (workflow_runs w) \<and>
     events_wf (webhook_events w) \<and> pk_distinct sn_id (metrics_snapshots w)"

lemma rows_known_put:
  "rows_known prio status rows \<Longrightarrow> rows_known prio status (guarded_put prio terminal key status x rows)"
  using set_upsert [of key x rows]
  by (auto simp: rows_known_def guarded_put_def accepts_def split: option.splits)

lemma rows_known_update:
  "rows_known prio status rows \<Longrightarrow> (\<And>r. prio (status (f r)) \<noteq> None) \<Longrightarrow>
   rows_known prio status (update_rows P f rows)"
  by (auto simp: rows_known_def set_update)

lemma rows_known_delete: "rows_known prio status rows \<Longrightarrow> rows_known prio status (delete_rows P rows)"
  by (simp add: rows_known_def)

lemma db_wf_tape [simp]: "db_wf (w\<lparr>tape := bs\<rparr>) = db_wf w"
  by (simp add: db_wf_def)

lemma db_wf_clock [simp]: "db_wf (w\<lparr>clock := t\<rparr>) = db_wf w"
  by (simp add: db_wf_def)

lemma db_wf_observe [simp]: "db_wf (w\<lparr>tape := bs, mlog := ms, sse := h\<rparr>) = db_wf (w :: world)"
  by (simp add: db_wf_def)

lemma db_wf_emit [simp]: "db_wf (emit ms w) = db_wf w"
  by (simp add: db_wf_def)

lemma db_wf_update [simp]: "db_wf (SendWorkflowUpdate u w) = db_wf w"
  by (simp add: db_wf_def SendWorkflowUpdate_def)

lemma db_wf_AddOrUpdateJob: "db_wf w \<Longrightarrow> db_wf (fst (AddOrUpdateJob job ts w))"
  by (rule AddOrUpdateJob_outcome [of job ts w])
     (auto simp: db_wf_def job_table.wf_gput rows_known_put)

lemma db_wf_AddOrUpdateRun: "db_wf w \<Longrightarrow> db_wf (fst (AddOrUpdateRun run ts w))"
  by (rule AddOrUpdateRun_outcome [of run ts w])
     (auto simp: db_wf_def run_table.wf_gput rows_known_put)

lemma db_wf_StoreWebhookEvents: "db_wf w \<Longrightarrow> db_wf (fst (StoreWebhookEvents evs w))"
  by (rule StoreWebhookEvents_outcome [of evs w]) (auto simp: db_wf_def events_wf_fold_put)

lemma MarkEvent_outcome:
  "\<exists>bs. fst (MarkEventProcessed d w) = w\<lparr>tape := bs\<rparr> \<or>
     fst (MarkEventProcessed d w) = w\<lparr>tape := bs, webhook_events := update_rows (\<lambda>r. er_delivery_id r = d)
         (mark_processed (format_RFC3339 (clock w))) (webhook_events w)\<rparr>"
  "\<exists>bs. fst (MarkEventFailed d w) = w\<lparr>tape := bs\<rparr> \<or>
     fst (MarkEventFailed d w) = w\<lparr>tape := bs, webhook_events := update_rows (\<lambda>r. er_delivery_id r = d)
         mark_failed (webhook_events w)\<rparr>"
  by (rule engine_cases [of w], rename_tac b bs, case_tac b,
      auto simp: MarkEventProcessed_def MarkEventFailed_def)+

lemma db_wf_MarkEventProcessed: "db_wf w \<Longrightarrow> db_wf (fst (MarkEventProcessed d w))"
  using MarkEvent_outcome(1) [of d w] by (auto simp: db_wf_def events_wf_processed)

lemma db_wf_MarkEventFailed: "db_wf w \<Longrightarrow> db_wf (fst (MarkEventFailed d w))"
  using MarkEvent_outcome(2) [of d w] by (auto simp: db_wf_def events_wf_failed)

lemma stale_known: "JobStatusPriority ''stale'' = Some 5"
  by (simp add: JobStatusPriority_def status_defs)

lemma db_wf_CleanupStaleJobs: "db_wf w \<Longrightarrow> db_wf (fst (CleanupStaleJobs d w))"
  by (rule CleanupStaleJobs_outcome [of d w])
     (auto simp: db_wf_def pk_distinct_update stale_known intro: rows_known_update)

lemma healthy_simps [simp]:
  "healthy (emit ms w) = healthy w" "healthy (SendWorkflowUpdate u w) = healthy w"
  by (simp_all add: healthy_def)

end
