(* ===== verification/AppConfig.thy ===== *)
theory AppConfig
  imports Prelude GoTime
begin

text \<open>
  The configuration, \<open>internal/config/config.go\<close>: reading the environment (a function from names
  to values, the empty string standing for an unset variable), its validation, and the
  durations it gives in 64-bit nanoseconds.  \<open>strconv.Atoi\<close> is written out.
\<close>

section \<open>Integers from text\<close>

definition Atoi :: "string \<Rightarrow> int option" where
  "Atoi s =
     (let sign = (case s of c # _ \<Rightarrow> if c = CHR ''-'' \<or> c = CHR ''+'' then [c] else [] | [] \<Rightarrow> []);
          ds = drop (length sign) s;
          v = int (digits_val ds)
      in if ds = [] \<or> (\<exists>c \<in> set ds. \<not> is_digit c) then None
         else let n = (if sign = ''-'' then - v else v) in if in_int64 n then Some n else None)"

lemma Atoi_utoa: "int n < 2 ^ 63 \<Longrightarrow> Atoi (go_utoa n) = Some (int n)"
proof -
  assume n: "int n < 2 ^ 63"
  have d: "\<forall>c \<in> set (go_utoa n). is_digit c" by (rule go_utoa_digits)
  then have "(case go_utoa n of c # _ \<Rightarrow> if c = CHR ''-'' \<or> c = CHR ''+'' then [c] else [] | [] \<Rightarrow> []) = []"
    by (cases "go_utoa n") (auto simp: is_digit_def less_eq_char_def)
  moreover have "go_utoa n \<noteq> []" by (subst go_utoa.simps) simp
  ultimately show ?thesis using n d by (auto simp: Atoi_def in_int64_def Let_def)
qed

section \<open>The environment\<close>

type_synonym environment = "string \<Rightarrow> string"

record Vars =
  WebhookSecret :: string
  Port :: string
  DatabasePath :: string
  LogLevel :: string
  TLSEnabled :: bool
  Environment :: string
  DataRetentionDays :: int
  CleanupIntervalHours :: int
  StaleJobThresholdHours :: int
  WebhookTransport :: string
  GitHubToken :: string
  GitHubHost :: string
  GitHubRepo :: string
  GitHubOrg :: string
  GitHubEnterprise :: string
  GitHubEvents :: string

definition getEnvOrDefault :: "environment \<Rightarrow> string \<Rightarrow> string \<Rightarrow> string" where
  "getEnvOrDefault env key d = (if env key \<noteq> [] then env key else d)"

definition getEnvOrDefaultInt :: "environment \<Rightarrow> string \<Rightarrow> int \<Rightarrow> int" where
  "getEnvOrDefaultInt env key d =
     (if env key \<noteq> [] then (case Atoi (env key) of Some n \<Rightarrow> n | None \<Rightarrow> d) else d)"

definition read_vars :: "environment \<Rightarrow> Vars" where
  "read_vars env =
     \<lparr>WebhookSecret = env ''WEBHOOK_SECRET'', Port = getEnvOrDefault env ''PORT'' ''8080'',
      DatabasePath = getEnvOrDefault env ''DATABASE_PATH'' ''./data/live-actions.db'',
      LogLevel = getEnvOrDefault env ''LOG_LEVEL'' ''info'',
      TLSEnabled = (getEnvOrDefault env ''TLS_ENABLED'' ''false'' = ''true''),
      Environment = getEnvOrDefault env ''ENVIRONMENT'' ''development'',
      DataRetentionDays = getEnvOrDefaultInt env ''DATA_RETENTION_DAYS'' 30,
      CleanupIntervalHours = getEnvOrDefaultInt env ''CLEANUP_INTERVAL_HOURS'' 24,
      StaleJobThresholdHours = getEnvOrDefaultInt env ''STALE_JOB_THRESHOLD_HOURS'' 24,
      WebhookTransport = getEnvOrDefault env ''WEBHOOK_TRANSPORT'' ''http'',
      GitHubToken = env ''GITHUB_TOKEN'', GitHubHost = getEnvOrDefault env ''GITHUB_HOST'' ''github.com'',
      GitHubRepo = env ''GITHUB_REPO'', GitHubOrg = env ''GITHUB_ORG'',
      GitHubEnterprise = env ''GITHUB_ENTERPRISE'',
      GitHubEvents = getEnvOrDefault env ''GITHUB_EVENTS'' ''workflow_job,workflow_run''\<rparr>"

definition IsProduction :: "Vars \<Rightarrow> bool" where
  "IsProduction v \<longleftrightarrow> Environment v = ''production''"

definition IsHTTPS :: "Vars \<Rightarrow> bool" where
  "IsHTTPS v \<longleftrightarrow> TLSEnabled v"

definition GetDatabasePath :: "Vars \<Rightarrow> string" where
  "GetDatabasePath v = DatabasePath v"

text \<open>The number of targets set, as the counter of the source.\<close>

definition targets_set :: "Vars \<Rightarrow> nat" where
  "targets_set v =
     (if GitHubRepo v \<noteq> [] then 1 else 0) + (if GitHubOrg v \<noteq> [] then 1 else 0) +
     (if GitHubEnterprise v \<noteq> [] then 1 else 0)"

definition NewConfig :: "environment \<Rightarrow> string + Vars" where
  "NewConfig env =
     (let vars = read_vars env in
      if IsProduction vars \<and> WebhookSecret vars = [] then Inl ''WEBHOOK_SECRET is required in production''
      else if WebhookTransport vars \<notin> {''http'', ''websocket''} then Inl ''WEBHOOK_TRANSPORT must be http or websocket''
      else if WebhookTransport vars = ''websocket'' then
        if GitHubToken vars = [] then Inl ''GITHUB_TOKEN is required when WEBHOOK_TRANSPORT=websocket''
        else if targets_set vars = 0 then
          Inl ''one of GITHUB_REPO, GITHUB_ORG, or GITHUB_ENTERPRISE is required when WEBHOOK_TRANSPORT=websocket''
        else if targets_set vars > 1 then Inl ''set only one of GITHUB_REPO, GITHUB_ORG, and GITHUB_ENTERPRISE''
        else Inr vars
      else Inr vars)"

section \<open>Durations\<close>

definition hour_ns :: int where
  "hour_ns = 3600 * 1000000000"

definition GetDataRetentionDuration :: "Vars \<Rightarrow> int" where
  "GetDataRetentionDuration v = wrap64 (wrap64 (DataRetentionDays v * 24) * hour_ns)"

definition GetCleanupInterval :: "Vars \<Rightarrow> int" where
  "GetCleanupInterval v = wrap64 (CleanupIntervalHours v * hour_ns)"

definition GetStaleJobThreshold :: "Vars \<Rightarrow> int" where
  "GetStaleJobThreshold v = wrap64 (StaleJobThresholdHours v * hour_ns)"

lemma Atoi_range: "Atoi s = Some n \<Longrightarrow> in_int64 n"
  by (auto simp: Atoi_def Let_def split: if_splits)

lemma vars_range:
  "in_int64 (DataRetentionDays (read_vars env))" "in_int64 (CleanupIntervalHours (read_vars env))"
  "in_int64 (StaleJobThresholdHours (read_vars env))"
  by (auto simp: read_vars_def getEnvOrDefaultInt_def in_int64_def split: option.split
      dest!: Atoi_range [unfolded in_int64_def])

text \<open>A configuration that is returned is consistent: production has a webhook secret, and the
  websocket transport has a token and exactly one target.\<close>

theorem config_is_consistent:
  "NewConfig env = Inr v \<longleftrightarrow>
     v = read_vars env \<and> (IsProduction v \<longrightarrow> WebhookSecret v \<noteq> []) \<and>
     (WebhookTransport v = ''http'' \<or>
      WebhookTransport v = ''websocket'' \<and> GitHubToken v \<noteq> [] \<and>
        (GitHubRepo v \<noteq> [] \<and> GitHubOrg v = [] \<and> GitHubEnterprise v = [] \<or>
         GitHubRepo v = [] \<and> GitHubOrg v \<noteq> [] \<and> GitHubEnterprise v = [] \<or>
         GitHubRepo v = [] \<and> GitHubOrg v = [] \<and> GitHubEnterprise v \<noteq> []))"
  by (auto simp: NewConfig_def targets_set_def Let_def split: if_splits)

text \<open>The retention period is the configured number of days up to 106751 of them; from there on the
  64-bit product wraps, and for 106752 days the period is negative.\<close>

theorem retention_days_bound:
  "(0 \<le> DataRetentionDays v \<and> DataRetentionDays v \<le> 106751 \<longrightarrow>
      GetDataRetentionDuration v = DataRetentionDays v * 86400 * 1000000000) \<and>
   (DataRetentionDays v = 106752 \<longrightarrow> GetDataRetentionDuration v < 0)"
proof -
  have "GetDataRetentionDuration v = DataRetentionDays v * 86400 * 1000000000"
    if d: "0 \<le> DataRetentionDays v" "DataRetentionDays v \<le> 106751"
  proof -
    have "in_int64 (DataRetentionDays v * 24)" "in_int64 (DataRetentionDays v * 24 * hour_ns)"
      using d by (simp_all add: in_int64_def hour_ns_def)
    then show ?thesis by (simp add: GetDataRetentionDuration_def wrap64_id hour_ns_def)
  qed
  moreover have "GetDataRetentionDuration v < 0" if "DataRetentionDays v = 106752"
    using that by (simp add: GetDataRetentionDuration_def wrap64_def hour_ns_def)
  ultimately show ?thesis by blast
qed

definition sample_vars :: Vars where
  "sample_vars = read_vars (\<lambda>_. [])"

theorem retention_days_bound_witness:
  "GetDataRetentionDuration sample_vars = 2592000000000000 \<and>
   GetDataRetentionDuration (sample_vars\<lparr>DataRetentionDays := 106752\<rparr>) < 0"
  using retention_days_bound [of sample_vars] retention_days_bound [of "sample_vars\<lparr>DataRetentionDays := 106752\<rparr>"]
  by (simp add: sample_vars_def read_vars_def getEnvOrDefaultInt_def)

theorem config_is_consistent_witness:
  "NewConfig (\<lambda>_. []) = Inr sample_vars"
  using config_is_consistent [of "\<lambda>_. []" sample_vars]
  by (simp add: sample_vars_def read_vars_def getEnvOrDefault_def IsProduction_def)

end
