(* ===== verification/Maintenance.thy ===== *)
theory Maintenance
  imports World AppConfig
begin

text \<open>
  The background services and the operations they use: retention cleanup and snapshots
  (\<open>CleanupOldData\<close> of \<open>internal/database/workflow.go\<close>, \<open>internal/database/metrics.go\<close>),
  \<open>internal/services/cleanup_service.go\<close> and \<open>internal/services/metrics_update_service.go\<close>.
\<close>

section \<open>Retention\<close>

text \<open>A row is deleted when its text timestamp is below the cutoff text; \<open>NULL\<close> is never below.\<close>

definition below :: "string \<Rightarrow> string option \<Rightarrow> bool" where
  "below cutoff t \<longleftrightarrow> (case t of None \<Rightarrow> False | Some s \<Rightarrow> s < cutoff)"

definition old_job :: "string \<Rightarrow> job_row \<Rightarrow> bool" where
  "old_job cutoff r \<longleftrightarrow> jr_created_at r < cutoff"
definition old_run :: "string \<Rightarrow> run_row \<Rightarrow> bool" where
  "old_run cutoff r \<longleftrightarrow> rr_created_at r < cutoff"
definition old_event :: "string \<Rightarrow> event_row \<Rightarrow> bool" where
  "old_event cutoff r \<longleftrightarrow> below cutoff (er_processed_at r)"
definition old_snapshot :: "string \<Rightarrow> snapshot_row \<Rightarrow> bool" where
  "old_snapshot cutoff r \<longleftrightarrow> sn_timestamp r < cutoff"

text \<open>
  The transaction of \<open>CleanupOldData\<close>: \<open>BEGIN\<close>, four deletions, the counts of the first three, and
  \<open>COMMIT\<close>; \<open>run_calls\<close> makes one engine call per message and stops at the first that fails.
\<close>

fun run_calls :: "string list \<Rightarrow> ('a dbw_scheme) \<Rightarrow> ('a dbw_scheme) \<times> string option" where
  "run_calls [] w = (w, None)"
| "run_calls (m # ms) w = (case engine w of (ok, w) \<Rightarrow> if ok then run_calls ms w else (w, Some m))"

definition cleanup_calls :: "string list" where
  "cleanup_calls =
     [''failed to start transaction'', ''failed to delete old workflow jobs'', ''failed to get affected jobs count'',
      ''failed to delete old workflow runs'', ''failed to get affected runs count'',
      ''failed to delete old webhook events'', ''failed to get affected events count'',
      ''failed to delete old metrics snapshots'', ''failed to commit cleanup transaction'']"

definition CleanupOldData ::
  "int \<Rightarrow> ('a dbw_scheme) \<Rightarrow> ('a dbw_scheme) \<times> (go_error + nat \<times> nat \<times> nat)" where
  "CleanupOldData retentionPeriod w =
     (let cutoffTime = format_RFC3339 (cutoff_time retentionPeriod w) in
      case run_calls cleanup_calls w of
        (w, Some m) \<Rightarrow> (w, Inl (db_error m))
      | (w, None) \<Rightarrow>
          (w\<lparr>workflow_jobs := delete_rows (old_job cutoffTime) (workflow_jobs w),
             workflow_runs := delete_rows (old_run cutoffTime) (workflow_runs w),
             webhook_events := delete_rows (old_event cutoffTime) (webhook_events w),
             metrics_snapshots := delete_rows (old_snapshot cutoffTime) (metrics_snapshots w)\<rparr>,
           Inr (rows_affected (old_run cutoffTime) (workflow_runs w),
                rows_affected (old_job cutoffTime) (workflow_jobs w),
                rows_affected (old_event cutoffTime) (webhook_events w))))"

definition performCleanup :: "Vars \<Rightarrow> ('a dbw_scheme) \<Rightarrow> ('a dbw_scheme) \<times> go_error option" where
  "performCleanup config w =
     (let retentionPeriod = GetDataRetentionDuration config; staleThreshold = GetStaleJobThreshold config in
      case CleanupStaleJobs staleThreshold w of (w, _) \<Rightarrow>
      case CleanupOldData retentionPeriod w of
        (w, Inl err) \<Rightarrow> (w, Some err)
      | (w, Inr _) \<Rightarrow> (w, None))"

lemma run_calls_frame:
  obtains bs b where "run_calls ms w = (w\<lparr>tape := bs\<rparr>, b)" "healthy w \<longrightarrow> bs = [] \<and> b = None"
proof -
  have "\<exists>bs b. run_calls ms w = (w\<lparr>tape := bs\<rparr>, b) \<and> (healthy w \<longrightarrow> bs = [] \<and> b = None)"
  proof (induction ms arbitrary: w)
    case Nil
    show ?case by (auto simp: healthy_def intro: exI [of _ "tape w"])
  next
    case (Cons m ms)
    obtain b t where e: "engine w = (b, w\<lparr>tape := t\<rparr>)" "healthy w \<longrightarrow> b \<and> t = []"
      by (rule engine_cases_healthy [of w])
    obtain bs b' where r: "run_calls ms (w\<lparr>tape := t\<rparr>) = (w\<lparr>tape := bs\<rparr>, b')"
      "healthy (w\<lparr>tape := t\<rparr>) \<longrightarrow> bs = [] \<and> b' = None"
      using Cons.IH [of "w\<lparr>tape := t\<rparr>"] by auto
    show ?case using e r by (cases b) (auto simp: healthy_def)
  qed
  then show thesis using that by blast
qed

text \<open>The abstract effect: what a successful cleanup leaves of the tables.\<close>

definition retained :: "string \<Rightarrow> ('a dbw_scheme) \<Rightarrow> ('a dbw_scheme)" where
  "retained cutoff w =
     w\<lparr>workflow_jobs := delete_rows (old_job cutoff) (workflow_jobs w),
       workflow_runs := delete_rows (old_run cutoff) (workflow_runs w),
       webhook_events := delete_rows (old_event cutoff) (webhook_events w),
       metrics_snapshots := delete_rows (old_snapshot cutoff) (metrics_snapshots w)\<rparr>"

lemma CleanupOldData_outcome:
  obtains (failed) bs e where "CleanupOldData d w = (w\<lparr>tape := bs\<rparr>, Inl e)" "\<not> healthy w"
  | (cleaned) bs r where "CleanupOldData d w =
      ((retained (format_RFC3339 (cutoff_time d w)) w)\<lparr>tape := bs\<rparr>, Inr r)" "healthy w \<longrightarrow> bs = []"
proof -
  obtain bs b where r: "run_calls cleanup_calls w = (w\<lparr>tape := bs\<rparr>, b)" "healthy w \<longrightarrow> bs = [] \<and> b = None"
    by (rule run_calls_frame [of cleanup_calls w])
  show thesis
    using failed [of bs "db_error (the b)"] cleaned [of bs] r
    by (cases b) (auto simp: CleanupOldData_def Let_def retained_def)
qed

lemma db_wf_retained: "db_wf w \<Longrightarrow> db_wf (retained cutoff w)"
  by (simp add: db_wf_def retained_def pk_distinct_delete rows_known_delete events_wf_delete)

lemma db_wf_CleanupOldData: "db_wf w \<Longrightarrow> db_wf (fst (CleanupOldData d w))"
  by (rule CleanupOldData_outcome [of d w]) (auto simp: db_wf_retained)

lemma db_wf_performCleanup: "db_wf w \<Longrightarrow> db_wf (fst (performCleanup config w))"
  using db_wf_CleanupStaleJobs [of w "GetStaleJobThreshold config"]
    db_wf_CleanupOldData [of "fst (CleanupStaleJobs (GetStaleJobThreshold config) w)" "GetDataRetentionDuration config"]
  by (auto simp: performCleanup_def Let_def split: prod.splits sum.splits)

section \<open>Snapshots\<close>

text \<open>A query that scans its rows: the query itself, then \<open>rows.Err ()\<close> after the last row.\<close>

definition query_rows ::
  "go_error \<Rightarrow> ('a dbw_scheme \<Rightarrow> 'x) \<Rightarrow> ('a dbw_scheme) \<Rightarrow> ('a dbw_scheme) \<times> (go_error + 'x)" where
  "query_rows err f w =
     (case engine w of (query_ok, w) \<Rightarrow>
        if \<not> query_ok then (w, Inl err) else
      case engine w of (rows_ok, w) \<Rightarrow>
        if \<not> rows_ok then (w, Inl (Engine ''database'')) else (w, Inr (f w)))"

lemma query_rows_healthy: "healthy w \<Longrightarrow> query_rows err f w = (w, Inr (f w))"
  by (simp add: query_rows_def)

lemma query_rows_frame: "\<exists>bs. fst (query_rows err f w) = w\<lparr>tape := bs\<rparr>"
proof -
  obtain b1 t1 b2 t2 where "engine w = (b1, w\<lparr>tape := t1\<rparr>)"
    "engine (w\<lparr>tape := t1\<rparr>) = (b2, w\<lparr>tape := t2\<rparr>)" by (rule engine_twice)
  then show ?thesis by (cases b1; cases b2) (auto simp: query_rows_def)
qed

text \<open>\<open>INSERT\<close> with the default timestamp; \<open>AUTOINCREMENT\<close> gives an id above all present ones.\<close>

definition fresh_id :: "snapshot_row list \<Rightarrow> nat" where
  "fresh_id rows = Suc (fold (\<lambda>r m. max (sn_id r) m) rows 0)"

definition InsertMetricsSnapshot ::
  "nat \<Rightarrow> nat \<Rightarrow> ('a dbw_scheme) \<Rightarrow> ('a dbw_scheme) \<times> go_error option" where
  "InsertMetricsSnapshot running queued w =
     (case engine w of (exec_ok, w) \<Rightarrow>
        if \<not> exec_ok then (w, Some (Engine ''database''))
        else (w\<lparr>metrics_snapshots := metrics_snapshots w @
                  [\<lparr>sn_id = fresh_id (metrics_snapshots w), sn_timestamp = sqlite_datetime (clock w),
                    sn_running_jobs = running, sn_queued_jobs = queued\<rparr>]\<rparr>, None))"

lemma fold_max_ge: "(m :: nat) \<le> fold (\<lambda>r m. max (sn_id r) m) rows m"
  by (induction rows arbitrary: m) (auto intro: le_trans [OF max.cobounded2])

lemma fold_max_member: "r \<in> set rows \<Longrightarrow> sn_id r \<le> fold (\<lambda>r m. max (sn_id r) m) rows m"
proof (induction rows arbitrary: m)
  case Nil
  then show ?case by simp
next
  case (Cons x rows)
  then show ?case using fold_max_ge [of "max (sn_id x) m" rows] by auto
qed

lemma fresh_id_fresh: "fresh_id rows \<notin> sn_id ` set rows"
  using fold_max_member [of _ rows 0] by (force simp: fresh_id_def)

lemma db_wf_InsertMetricsSnapshot: "db_wf w \<Longrightarrow> db_wf (fst (InsertMetricsSnapshot running queued w))"
proof -
  assume wf: "db_wf w"
  obtain b t where e: "engine w = (b, w\<lparr>tape := t\<rparr>)" by (rule engine_cases)
  show ?thesis using wf fresh_id_fresh [of "metrics_snapshots w"]
    by (cases b) (auto simp: InsertMetricsSnapshot_def e db_wf_def pk_distinct_def)
qed

text \<open>
  \<open>GetMetricsHistory\<close>: the snapshots of the window, grouped into buckets, averaged and rounded, in
  the order of time.  \<open>strftime ('%s', ...)\<close> reads the date and time text as UTC seconds; the
  rounded average of counts is computed on integers.
\<close>

definition targetHistoryPoints :: int where
  "targetHistoryPoints = 288"

definition bucket_seconds :: "int \<Rightarrow> int" where
  "bucket_seconds since =
     (let b = go_div (go_div since 1000000000) targetHistoryPoints in if b < 1 then 1 else b)"

definition sqlite_seconds :: "string \<Rightarrow> int option" where
  "sqlite_seconds s = map_option t_sec (time_Parse layout_datetime s)"

definition round_avg :: "nat list \<Rightarrow> int" where
  "round_avg xs = (2 * int (sum_list xs) + int (length xs)) div (2 * int (length xs))"

definition bucket_of :: "int \<Rightarrow> snapshot_row \<Rightarrow> int option" where
  "bucket_of b r = map_option (\<lambda>s. go_div s b * b) (sqlite_seconds (sn_timestamp r))"

definition history_points :: "int \<Rightarrow> snapshot_row list \<Rightarrow> MetricsSnapshot list" where
  "history_points b rows =
     map (\<lambda>k. let g = filter (\<lambda>r. bucket_of b r = Some k) rows in
            \<lparr>ms_Timestamp = k, ms_Running = round_avg (map sn_running_jobs g),
             ms_Queued = round_avg (map sn_queued_jobs g)\<rparr>)
       (sort (remdups (List.map_filter (bucket_of b) rows)))"

definition GetMetricsHistory ::
  "int \<Rightarrow> ('a dbw_scheme) \<Rightarrow> ('a dbw_scheme) \<times> (go_error + MetricsSnapshot list)" where
  "GetMetricsHistory since w =
     (let cutoff = format_datetime (time_Add (UTC (clock w)) (wrap64 (- since))) in
      query_rows (db_error ''failed to query metrics history'')
        (\<lambda>w. history_points (bucket_seconds since)
               (filter (\<lambda>r. cutoff \<le> sn_timestamp r) (metrics_snapshots w))) w)"

text \<open>\<open>GetCurrentJobCountsByLabel\<close>: the groups of the first label, in the order of the labels.\<close>

definition first_label :: "job_row \<Rightarrow> string option" where
  "first_label r = (case labelsFromJSON (jr_labels r) of [] \<Rightarrow> None | l # _ \<Rightarrow> Some l)"

definition active_row :: "job_row \<Rightarrow> bool" where
  "active_row r \<longleftrightarrow> jr_status r = ''in_progress'' \<or> jr_status r = ''queued''"

definition label_counts :: "job_row list \<Rightarrow> LabelJobCount list" where
  "label_counts rows =
     map (\<lambda>l. \<lparr>lc_Label = l,
           lc_Running = rows_affected (\<lambda>r. first_label r = Some l \<and> jr_status r = ''in_progress'') rows,
           lc_Queued = rows_affected (\<lambda>r. first_label r = Some l \<and> jr_status r = ''queued'') rows\<rparr>)
       (sort (remdups (List.map_filter first_label (filter active_row rows))))"

definition GetCurrentJobCountsByLabel ::
  "('a dbw_scheme) \<Rightarrow> ('a dbw_scheme) \<times> (go_error + LabelJobCount list)" where
  "GetCurrentJobCountsByLabel w =
     query_rows (db_error ''failed to get job counts by label'') (\<lambda>w. label_counts (workflow_jobs w)) w"

section \<open>The metrics service\<close>

definition updateMetrics :: "world \<Rightarrow> world" where
  "updateMetrics w =
     (case GetCurrentJobCounts w of
        (w, Inl err) \<Rightarrow> w
      | (w, Inr (running, queued)) \<Rightarrow>
     (let w = UpdateCurrentJobCounts running queued w in
      case GetCurrentJobCountsByLabel w of (w, labelCounts) \<Rightarrow>
      let w = (case labelCounts of
                 Inl err \<Rightarrow> w
               | Inr lcs \<Rightarrow> fold (\<lambda>lc. UpdateJobsByLabel (lc_Label lc) (lc_Running lc) (lc_Queued lc)) lcs
                              (ResetJobsByLabel w))
      in fst (InsertMetricsSnapshot running queued w)))"

section \<open>Properties\<close>

text \<open>The cleanup is one transaction: it either fails and changes no table, or it deletes from
  every table exactly the rows below the cutoff and commits.\<close>

theorem cleanup_is_atomic:
  "(\<exists>bs e. CleanupOldData d w = (w\<lparr>tape := bs\<rparr>, Inl e)) \<or>
   (\<exists>bs r. CleanupOldData d w = ((retained (format_RFC3339 (cutoff_time d w)) w)\<lparr>tape := bs\<rparr>, Inr r))"
  by (rule CleanupOldData_outcome [of d w]) blast+

text \<open>With one time zone for the stored texts and the process, a job is kept by the cleanup exactly
  when it is not older than the retention period, to the second.\<close>

theorem cleanup_keeps_recent_jobs:
  assumes "healthy w" "db_wf w" "find_row jr_id k (workflow_jobs w) = Some r"
    and "jr_created_at r = format_RFC3339 t" "t_off t = t_off (clock w)"
    and "year4 t" "year4 (cutoff_time d w)"
  shows "find_row jr_id k (workflow_jobs (fst (CleanupOldData d w))) =
    (if t_sec t < t_sec (cutoff_time d w) then None else Some r)"
proof -
  have "t_off (cutoff_time d w) = t_off t" using assms(5) by (simp add: cutoff_time_def time_Add_def)
  then have "jr_created_at r < format_RFC3339 (cutoff_time d w) \<longleftrightarrow> t_sec t < t_sec (cutoff_time d w)"
    using format_RFC3339_le [OF assms(7,6)] assms(4) by (simp add: linorder_not_le [symmetric])
  moreover have "workflow_jobs (fst (CleanupOldData d w)) =
      delete_rows (old_job (format_RFC3339 (cutoff_time d w))) (workflow_jobs w)"
    by (rule CleanupOldData_outcome [of d w]) (use assms(1) in \<open>simp_all add: retained_def\<close>)
  ultimately show ?thesis
    using assms(2,3) by (simp add: db_wf_def find_row_delete old_job_def)
qed

lemma space_before_T:
  assumes "year4 t" "year4 c" "date_of t = date_of c"
  shows "format_datetime t < format_RFC3339 c"
proof -
  obtain y m d where d: "date_of t = (y, m, d)" by (cases "date_of t")
  obtain hh mm ss where 1: "clock_of t = (hh, mm, ss)" by (cases "clock_of t")
  obtain hh' mm' ss' where 2: "clock_of c = (hh', mm', ss')" by (cases "clock_of c")
  have sp: "pre @ CHR '' '' # a < pre @ CHR ''T'' # b" for pre a b :: string
    by (induction pre) (simp_all add: less_char_def)
  have sp': "pad4 y' @ CHR ''-'' # pad2 m' @ CHR ''-'' # pad2 d' @ CHR '' '' # a <
      pad4 y' @ CHR ''-'' # pad2 m' @ CHR ''-'' # pad2 d' @ CHR ''T'' # b" for y' m' d' and a b :: string
    using sp [of "pad4 y' @ CHR ''-'' # pad2 m' @ CHR ''-'' # pad2 d'"] by simp
  show ?thesis
    using format_date_time_pads [OF d 1 assms(1), of "CHR '' ''"]
      format_date_time_pads [OF _ 2 assms(2), of y m d "CHR ''T''"] d assms(3) sp'
    by (simp add: format_datetime_def format_RFC3339_def)
qed

text \<open>The snapshots are compared with a cutoff in another layout.  Their text has a blank where the
  cutoff has a \<open>T\<close>, so every snapshot of the cutoff's date is deleted, whatever its time of day.\<close>

theorem snapshot_cleanup_ignores_time_of_day:
  assumes "healthy w" "sn_timestamp r = format_datetime t"
    and "year4 t" "year4 (cutoff_time d w)" "date_of t = date_of (cutoff_time d w)"
  shows "r \<notin> set (metrics_snapshots (fst (CleanupOldData d w)))"
proof -
  have "old_snapshot (format_RFC3339 (cutoff_time d w)) r"
    using space_before_T [OF assms(3-5)] assms(2) by (simp add: old_snapshot_def)
  then show ?thesis
    by (rule_tac CleanupOldData_outcome [of d w]) (use assms(1) in \<open>auto simp: retained_def\<close>)
qed

text \<open>An event that was marked failed has no processing time and therefore survives every cleanup.\<close>

theorem failed_events_are_never_cleaned:
  assumes "r \<in> set (webhook_events w)" "er_processed_at r = None"
  shows "r \<in> set (webhook_events (fst (CleanupOldData d w)))"
  by (rule CleanupOldData_outcome [of d w])
     (use assms in \<open>auto simp: retained_def old_event_def below_def\<close>)

text \<open>The gauges per label.\<close>

definition label_metrics :: "LabelJobCount list \<Rightarrow> metric_op list" where
  "label_metrics lcs = concat (map (\<lambda>lc.
     [JobsByLabelSet (lc_Label lc) ''in_progress'' (lc_Running lc),
      JobsByLabelSet (lc_Label lc) ''queued'' (lc_Queued lc)]) lcs)"

lemma fold_labels:
  "fold (\<lambda>lc. UpdateJobsByLabel (lc_Label lc) (lc_Running lc) (lc_Queued lc)) lcs w = emit (label_metrics lcs) w"
  by (induction lcs arbitrary: w) (auto simp: UpdateJobsByLabel_def label_metrics_def emit_def)

text \<open>One update of the metrics service on a healthy engine sets the gauges to the numbers of
  running and queued jobs, clears and refills the gauges per label, and stores one snapshot of the
  two numbers; it touches nothing else.\<close>

theorem metrics_update:
  assumes "healthy w"
  shows "updateMetrics w =
    (let running = rows_affected (\<lambda>r. jr_status r = ''in_progress'') (workflow_jobs w);
         queued = rows_affected (\<lambda>r. jr_status r = ''queued'') (workflow_jobs w)
     in w\<lparr>mlog := mlog w @ [CurrentJobsSet ''in_progress'' running, CurrentJobsSet ''queued'' queued, JobsByLabelReset] @
            label_metrics (label_counts (workflow_jobs w)),
          metrics_snapshots := metrics_snapshots w @
            [\<lparr>sn_id = fresh_id (metrics_snapshots w), sn_timestamp = sqlite_datetime (clock w),
              sn_running_jobs = running, sn_queued_jobs = queued\<rparr>]\<rparr>)"
  using assms
  by (simp add: updateMetrics_def GetCurrentJobCounts_def GetCurrentJobCountsByLabel_def query_rows_healthy
      fold_labels InsertMetricsSnapshot_def UpdateCurrentJobCounts_def ResetJobsByLabel_def Let_def)

lemma sum_by_label:
  "distinct ls \<Longrightarrow> \<forall>r \<in> set rows. P r \<longrightarrow> (\<forall>l. first_label r = Some l \<longrightarrow> l \<in> set ls) \<Longrightarrow>
   (\<Sum>l\<leftarrow>ls. rows_affected (\<lambda>r. first_label r = Some l \<and> P r) rows) =
     rows_affected (\<lambda>r. first_label r \<noteq> None \<and> P r) rows"
proof (induction rows)
  case Nil
  show ?case by (simp add: rows_affected_def)
next
  case (Cons r rows)
  have split: "rows_affected Q (r # rows) = (if Q r then 1 else 0) + rows_affected Q rows" for Q
    by (simp add: rows_affected_def)
  have one: "(\<Sum>l\<leftarrow>ls. if first_label r = Some l \<and> P r then 1 else 0) = (if first_label r \<noteq> None \<and> P r then 1 else (0::nat))"
  proof (cases "first_label r")
    case None
    then show ?thesis by simp
  next
    case (Some l)
    have "P r \<Longrightarrow> l \<in> set ls" using Cons.prems(2) Some by simp
    then have "P r \<Longrightarrow> (\<Sum>l'\<leftarrow>ls. if l = l' then 1 else (0::nat)) = 1"
      using Cons.prems(1) by (simp add: sum_list_distinct_conv_sum_set)
    then show ?thesis using Some by (cases "P r") simp_all
  qed
  show ?case using Cons.IH Cons.prems by (simp add: split sum_list_addf one)
qed

text \<open>The counts per label partition the active jobs that have a label: summed over the labels they
  are the numbers of running and of queued jobs with a label, and no label appears twice.\<close>

theorem label_counts_partition:
  "(\<Sum>lc\<leftarrow>label_counts rows. lc_Running lc) =
     rows_affected (\<lambda>r. first_label r \<noteq> None \<and> jr_status r = ''in_progress'') rows \<and>
   (\<Sum>lc\<leftarrow>label_counts rows. lc_Queued lc) =
     rows_affected (\<lambda>r. first_label r \<noteq> None \<and> jr_status r = ''queued'') rows \<and>
   distinct (map lc_Label (label_counts rows))"
proof -
  let ?ls = "sort (remdups (List.map_filter first_label (filter active_row rows)))"
  have d: "distinct ?ls" by simp
  have m: "set ?ls = {l. \<exists>r \<in> set rows. active_row r \<and> first_label r = Some l}"
    by (force simp: List.map_filter_def)
  have "(\<Sum>l\<leftarrow>?ls. rows_affected (\<lambda>r. first_label r = Some l \<and> jr_status r = ''in_progress'') rows) =
      rows_affected (\<lambda>r. first_label r \<noteq> None \<and> jr_status r = ''in_progress'') rows"
    by (rule sum_by_label [OF d]) (auto simp only: m active_row_def)
  moreover have "(\<Sum>l\<leftarrow>?ls. rows_affected (\<lambda>r. first_label r = Some l \<and> jr_status r = ''queued'') rows) =
      rows_affected (\<lambda>r. first_label r \<noteq> None \<and> jr_status r = ''queued'') rows"
    by (rule sum_by_label [OF d]) (auto simp only: m active_row_def)
  moreover have "map lc_Label (label_counts rows) = ?ls"
    by (simp add: label_counts_def comp_def)
  ultimately show ?thesis by (simp add: label_counts_def comp_def)
qed

lemma int_div_less: "x < n * b \<Longrightarrow> 0 < b \<Longrightarrow> x div b < n" for x n b :: int
proof (rule ccontr)
  assume x: "x < n * b" and b: "0 < b" and "\<not> x div b < n"
  then have "n * b \<le> x div b * b" by (intro mult_right_mono) simp_all
  also have "\<dots> \<le> x" using div_mod_decomp_int [of x b] pos_mod_sign [OF b, of x] by linarith
  finally show False using x by simp
qed

lemma bucket_count:
  fixes b S T :: int
  assumes "0 < b" "0 \<le> S" "0 \<le> T"
  shows "finite {k. \<exists>s. T \<le> s \<and> s \<le> T + S \<and> k = s div b * b} \<and>
    int (card {k. \<exists>s. T \<le> s \<and> s \<le> T + S \<and> k = s div b * b}) \<le> S div b + 2"
proof -
  let ?A = "{T div b .. (T + S) div b}"
  have sub: "{k. \<exists>s. T \<le> s \<and> s \<le> T + S \<and> k = s div b * b} \<subseteq> (\<lambda>q. q * b) ` ?A"
    using assms(1) by (auto intro!: zdiv_mono1)
  have fin: "finite ((\<lambda>q. q * b) ` ?A)" by simp
  have "(T + S) div b \<le> T div b + S div b + 1"
  proof -
    have "T + S < (T div b + S div b + 2) * b"
    proof -
      have "T = b * (T div b) + T mod b" "S = b * (S div b) + S mod b" "T mod b < b" "S mod b < b"
        using assms(1) by simp_all
      then have "T + S < b * (T div b) + b * (S div b) + 2 * b" by linarith
      then show ?thesis by (simp add: algebra_simps)
    qed
    then have "(T + S) div b < T div b + S div b + 2"
      using assms(1) by (rule int_div_less)
    then show ?thesis by simp
  qed
  moreover have "0 \<le> S div b" using assms(1,2) by (simp add: pos_imp_zdiv_nonneg_iff)
  ultimately have "int (card ?A) \<le> S div b + 2" by simp
  moreover have "card {k. \<exists>s. T \<le> s \<and> s \<le> T + S \<and> k = s div b * b} \<le> card ?A"
    using card_mono [OF fin sub] card_image_le [of ?A "\<lambda>q. q * b"] by simp
  ultimately have "int (card {k. \<exists>s. T \<le> s \<and> s \<le> T + S \<and> k = s div b * b}) \<le> S div b + 2" by linarith
  with finite_subset [OF sub fin] show ?thesis by blast
qed

lemma bucket_seconds_bound:
  assumes "0 \<le> since"
  shows "0 < bucket_seconds since \<and> since div 1000000000 div bucket_seconds since \<le> 575"
proof -
  define S where "S = since div 1000000000"
  have S: "0 \<le> S" using assms by (simp add: S_def pos_imp_zdiv_nonneg_iff)
  have b: "bucket_seconds since = (if S div 288 < 1 then 1 else S div 288)"
    using assms S by (simp add: bucket_seconds_def go_div_nonneg S_def [symmetric] targetHistoryPoints_def Let_def)
  define q where "q = S div 288"
  have q: "288 * q \<le> S" "S < 288 * q + 288"
    using mult_div_mod_eq [of 288 S] pos_mod_bound [of 288 S] pos_mod_sign [of 288 S]
    unfolding q_def by linarith+
  show ?thesis
  proof (cases "q < 2")
    case True
    then have "bucket_seconds since = 1" "S \<le> 575" using b q by (auto simp: q_def [symmetric])
    then show ?thesis by (simp add: S_def)
  next
    case False
    then have "S < 576 * q" using q by linarith
    then have "S div q < 576" using False by (intro int_div_less) simp_all
    then show ?thesis using False b by (simp add: q_def [symmetric] S_def [symmetric])
  qed
qed

text \<open>The history of a window is a strictly increasing series with at most 577 points, whatever the
  length of the window and however many snapshots it holds.\<close>

theorem history_is_bounded:
  assumes "0 \<le> since" "0 \<le> T"
    and "\<forall>r \<in> set rows. \<forall>s. sqlite_seconds (sn_timestamp r) = Some s \<longrightarrow> T \<le> s \<and> s \<le> T + since div 1000000000"
  shows "length (history_points (bucket_seconds since) rows) \<le> 577 \<and>
    sorted_wrt (<) (map ms_Timestamp (history_points (bucket_seconds since) rows))"
proof -
  let ?b = "bucket_seconds since" and ?ks = "List.map_filter (bucket_of (bucket_seconds since)) rows"
  let ?K = "{k. \<exists>s. T \<le> s \<and> s \<le> T + since div 1000000000 \<and> k = s div ?b * ?b}"
  note b = bucket_seconds_bound [OF assms(1)]
  have sub: "set ?ks \<subseteq> ?K"
  proof
    fix k assume "k \<in> set ?ks"
    then obtain r s where r: "r \<in> set rows" "sqlite_seconds (sn_timestamp r) = Some s" "k = go_div s ?b * ?b"
      by (auto simp: List.map_filter_def bucket_of_def)
    with assms(2,3) have "T \<le> s" "s \<le> T + since div 1000000000" "go_div s ?b = s div ?b"
      using b by (auto simp: go_div_nonneg)
    with r show "k \<in> ?K" by auto
  qed
  have "0 \<le> since div 1000000000" using assms(1) by (simp add: pos_imp_zdiv_nonneg_iff)
  then have K: "finite ?K" "int (card ?K) \<le> since div 1000000000 div ?b + 2"
    using bucket_count [of ?b "since div 1000000000" T] b assms(2) by auto
  have "int (card (set ?ks)) \<le> 577"
    using card_mono [OF K(1) sub] K(2) b by linarith
  moreover have "length (history_points ?b rows) = card (set ?ks)"
    by (simp add: history_points_def length_remdups_card_conv)
  moreover have "map ms_Timestamp (history_points ?b rows) = sort (remdups ?ks)"
    by (simp add: history_points_def Let_def comp_def)
  moreover have "sorted_wrt (<) (sort (remdups ?ks))"
    by (simp add: strict_sorted_iff)
  ultimately show ?thesis by simp
qed

end
