(* ===== verification/Sql_Groups.thy ===== *)
theory Sql_Groups
  imports Complex_Main Prelude "HOL-Library.Option_ord"
begin

text \<open>
  What the analytics queries share of SQL: \<open>GROUP BY\<close>, whose groups come in the order of their
  keys with \<open>NULL\<close> first (the order of \<open>option\<close>), \<open>ORDER BY ... DESC\<close>, and the aggregates.  Every
  aggregate over groups rests on one lemma: the groups partition the rows.
\<close>

section \<open>Definitions\<close>

definition group_by :: "('r \<Rightarrow> 'k::linorder) \<Rightarrow> 'r list \<Rightarrow> ('k \<times> 'r list) list" where
  "group_by key rows = map (\<lambda>k. (k, filter (\<lambda>r. key r = k) rows)) (sort (remdups (map key rows)))"

definition order_desc :: "('r \<Rightarrow> 'k::linorder) \<Rightarrow> 'r list \<Rightarrow> 'r list" where
  "order_desc key rows = rev (sort_key key (rev rows))"

text \<open>\<open>COALESCE (AVG (...), 0)\<close>, which skips \<open>NULL\<close>.\<close>

definition avg0 :: "rat option list \<Rightarrow> rat" where
  "avg0 xs = (let ys = List.map_filter id xs in if ys = [] then 0 else sum_list ys / of_nat (length ys))"

section \<open>Groups partition the rows\<close>

lemma group_by_keys [simp]: "map fst (group_by key rows) = sort (remdups (map key rows))"
  by (simp add: group_by_def comp_def)

lemma group_by_distinct: "distinct (map fst (group_by key rows))"
  by simp

lemma group_by_member:
  "(k, g) \<in> set (group_by key rows) \<longleftrightarrow> g = filter (\<lambda>r. key r = k) rows \<and> k \<in> key ` set rows"
  by (auto simp: group_by_def)

lemma group_by_nonempty: "(k, g) \<in> set (group_by key rows) \<Longrightarrow> g \<noteq> []"
  by (auto simp: group_by_member filter_empty_conv)

lemma sum_filter_keys:
  "distinct ks \<Longrightarrow> key ` set rows \<subseteq> set ks \<Longrightarrow>
   (\<Sum>k\<leftarrow>ks. length (filter P (filter (\<lambda>r. key r = k) rows))) = length (filter P rows)"
proof (induction rows)
  case Nil
  show ?case by (induction ks) simp_all
next
  case (Cons r rows)
  have "(\<Sum>k\<leftarrow>ks. length (filter P (filter (\<lambda>r. key r = k) (r # rows)))) =
      (\<Sum>k\<leftarrow>ks. (if k = key r then if P r then 1 else 0 else 0) + length (filter P (filter (\<lambda>r. key r = k) rows)))"
    by (intro arg_cong [of _ _ sum_list] map_cong) auto
  also have "\<dots> = (if P r then 1 else 0) + length (filter P rows)"
    using Cons by (simp add: sum_list_addf sum_list_distinct_conv_sum_set)
  finally show ?case by simp
qed

lemma sum_groups:
  "(\<Sum>kg\<leftarrow>group_by key rows. length (filter P (snd kg))) = length (filter P rows)"
  using sum_filter_keys [of "sort (remdups (map key rows))" key rows P] by (simp add: group_by_def comp_def)

lemma sum_groups_length: "(\<Sum>kg\<leftarrow>group_by key rows. length (snd kg)) = length rows"
  using sum_groups [of "\<lambda>_. True" key rows] by simp

text \<open>Of the groups that satisfy a condition on the key, the rows are those whose key satisfies it.\<close>

lemma sum_groups_where:
  "(\<Sum>kg\<leftarrow>filter (\<lambda>kg. Q (fst kg)) (group_by key rows). length (snd kg)) = length (filter (\<lambda>r. Q (key r)) rows)"
proof -
  have "(\<Sum>kg\<leftarrow>filter (\<lambda>kg. Q (fst kg)) (group_by key rows). length (snd kg)) =
      (\<Sum>kg\<leftarrow>group_by key rows. if Q (fst kg) then length (snd kg) else 0)"
    by (simp add: sum_list_map_filter')
  also have "\<dots> = (\<Sum>kg\<leftarrow>group_by key rows. length (filter (\<lambda>r. Q (key r)) (snd kg)))"
    by (intro arg_cong [of _ _ sum_list] map_cong)
       (auto simp: group_by_def filter_empty_conv intro!: arg_cong [of _ _ length] filter_cong)
  finally show ?thesis by (simp add: sum_groups)
qed

section \<open>Descending order\<close>

lemma length_order_desc [simp]: "length (order_desc key rows) = length rows"
  by (simp add: order_desc_def)

lemma set_order_desc [simp]: "set (order_desc key rows) = set rows"
  by (simp add: order_desc_def)

lemma order_desc_mset: "mset (order_desc key rows) = mset rows"
  by (simp add: order_desc_def)

lemma order_desc_sorted: "sorted_wrt (\<lambda>a b. key b \<le> key a) (order_desc key rows)"
proof -
  have "sorted_wrt (\<lambda>a b. key a \<le> key b) (sort_key key (rev rows))"
    using sorted_sort_key [of key "rev rows"] by (simp add: sorted_map)
  then show ?thesis by (simp add: order_desc_def sorted_wrt_rev)
qed

lemma sum_order_desc: "sum_list (map f (order_desc key rows)) = (sum_list (map f rows) :: nat)"
  by (metis mset_map order_desc_mset sum_mset_sum_list)

lemma sum_take_le: "sum_list (map f (take n xs)) \<le> (sum_list (map f xs) :: nat)"
  by (metis append_take_drop_id le_add1 map_append sum_list_append)

end
