(* ===== verification/GoFloat.thy ===== *)
theory GoFloat
  imports Complex_Main
begin

text \<open>
  \<open>float64\<close> as far as the program computes with it: a finite number is the rational it stands for,
  and an operation is the exact one followed by \<open>f64\<close>, the rounding to 53 significant bits, ties to
  the even neighbour, with the spacing of the subnormal numbers near zero.  Infinities, NaN and
  the sign of zero have no place here: the program divides only by positive numbers, and a number
  too large for \<open>float64\<close> meets one other operation only, the conversion of \<open>FormatDuration\<close>, whose
  result is then a parameter.
\<close>

section \<open>Rounding\<close>

definition round_even :: "rat \<Rightarrow> int" where
  "round_even x =
     (let f = \<lfloor>x\<rfloor>; d = x - of_int f in if d < 1 / 2 \<or> (d = 1 / 2 \<and> even f) then f else f + 1)"

fun bit_size :: "nat \<Rightarrow> nat" where
  "bit_size n = (if n = 0 then 0 else Suc (bit_size (n div 2)))"

declare bit_size.simps [simp del]

text \<open>The exponent of a number that is not 0: \<open>2 powi e \<le> \<bar>x\<bar> < 2 powi (e + 1)\<close>.\<close>

definition float_exponent :: "rat \<Rightarrow> int" where
  "float_exponent x =
     (case quotient_of x of (p, q) \<Rightarrow>
        let e = int (bit_size (nat \<bar>p\<bar>)) - int (bit_size (nat q))
        in if 2 powi e \<le> \<bar>x\<bar> then e else e - 1)"

definition float_ulp :: "rat \<Rightarrow> int" where
  "float_ulp x = max (float_exponent x - 52) (- 1074)"

definition f64 :: "rat \<Rightarrow> rat" where
  "f64 x = (if x = 0 then 0 else of_int (round_even (x / 2 powi float_ulp x)) * 2 powi float_ulp x)"

section \<open>Rounding to an integer\<close>

lemma round_even_int [simp]: "round_even (of_int n) = n"
  by (simp add: round_even_def)

lemma round_even_bounds: "\<lfloor>x\<rfloor> \<le> round_even x" "round_even x \<le> \<lfloor>x\<rfloor> + 1"
  by (simp_all add: round_even_def Let_def)

lemma round_even_mono:
  assumes "x \<le> y"
  shows "round_even x \<le> round_even y"
proof (cases "\<lfloor>x\<rfloor> = \<lfloor>y\<rfloor>")
  case True
  then show ?thesis using assms by (auto simp: round_even_def Let_def)
next
  case False
  then have "\<lfloor>x\<rfloor> + 1 \<le> \<lfloor>y\<rfloor>" using floor_mono [OF assms] by simp
  then show ?thesis using round_even_bounds(2) [of x] round_even_bounds(1) [of y] by linarith
qed

lemma round_even_le: "x \<le> of_int n \<Longrightarrow> round_even x \<le> n"
  using round_even_mono [of x "of_int n"] by simp

lemma round_even_ge: "of_int n \<le> x \<Longrightarrow> n \<le> round_even x"
  using round_even_mono [of "of_int n" x] by simp

section \<open>The exponent\<close>

lemma bit_size_bounds: "0 < n \<Longrightarrow> 2 ^ bit_size n \<le> 2 * n \<and> n < 2 ^ bit_size n"
proof (induction n rule: bit_size.induct)
  case (1 n)
  show ?case
  proof (cases "n div 2 = 0")
    case True
    then show ?thesis using 1(2) by (simp add: bit_size.simps [of n] bit_size.simps [of 0])
  next
    case False
    then have "2 ^ bit_size (n div 2) \<le> 2 * (n div 2) \<and> n div 2 < 2 ^ bit_size (n div 2)"
      using 1 by simp
    then show ?thesis using 1(2) by (simp add: bit_size.simps [of n]) linarith
  qed
qed

lemma powi_split: "(2 :: rat) powi (int a - int b) = 2 ^ a / 2 ^ b"
  by (simp add: power_int_diff)

lemma float_exponent_bounds:
  assumes "x \<noteq> 0"
  shows "2 powi float_exponent x \<le> \<bar>x\<bar>" "\<bar>x\<bar> < 2 powi (float_exponent x + 1)"
proof -
  obtain p q where pq: "quotient_of x = (p, q)" by fastforce
  then have q: "0 < q" and x: "x = of_int p / of_int q"
    using quotient_of_denom_pos quotient_of_div by blast+
  define m n where "m = nat \<bar>p\<bar>" and "n = nat q"
  have mn: "0 < m" "0 < n" using assms q x by (auto simp: m_def n_def)
  have ax: "\<bar>x\<bar> = of_nat m / of_nat n" using q by (simp add: x m_def n_def)
  define a b where "a = bit_size m" and "b = bit_size n"
  have "(2 :: nat) ^ a \<le> 2 * m" "m < 2 ^ a" "(2 :: nat) ^ b \<le> 2 * n" "n < 2 ^ b"
    using bit_size_bounds mn by (auto simp: a_def b_def)
  then have "of_nat (2 ^ a) \<le> (of_nat (2 * m) :: rat)" "of_nat m < (of_nat (2 ^ a) :: rat)"
      "of_nat (2 ^ b) \<le> (of_nat (2 * n) :: rat)" "of_nat n < (of_nat (2 ^ b) :: rat)"
    by (simp_all only: of_nat_le_iff of_nat_less_iff)
  then have r: "(2 :: rat) ^ a \<le> 2 * of_nat m" "of_nat m < (2 :: rat) ^ a"
      "(2 :: rat) ^ b \<le> 2 * of_nat n" "of_nat n < (2 :: rat) ^ b"
    by simp_all
  have e: "float_exponent x = (if 2 powi (int a - int b) \<le> \<bar>x\<bar> then int a - int b else int a - int b - 1)"
    by (simp add: float_exponent_def pq Let_def a_def b_def m_def n_def)
  have low: "2 powi (int a - int b - 1) \<le> \<bar>x\<bar>"
  proof -
    have "(2 :: rat) powi (int a - int b - 1) = 2 ^ a / 2 ^ b / 2" by (simp add: power_int_diff)
    also have "\<dots> \<le> of_nat m / 2 ^ b" using r(1) by (simp add: field_simps)
    also have "\<dots> \<le> of_nat m / of_nat n" using r(4) mn by (intro divide_left_mono) simp_all
    finally show ?thesis by (simp add: ax)
  qed
  have high: "\<bar>x\<bar> < 2 powi (int a - int b + 1)"
  proof -
    have "of_nat m / of_nat n < (2 :: rat) ^ a / of_nat n" using r(2) mn by (simp add: divide_strict_right_mono)
    also have "\<dots> \<le> 2 ^ a / (2 ^ b / 2)" using r(3) mn by (intro divide_left_mono) simp_all
    also have "\<dots> = 2 powi (int a - int b + 1)" by (simp add: power_int_diff power_int_add)
    finally show ?thesis by (simp add: ax)
  qed
  show "2 powi float_exponent x \<le> \<bar>x\<bar>" "\<bar>x\<bar> < 2 powi (float_exponent x + 1)"
    using low high by (auto simp: e)
qed

lemma powi_less: "(2 :: rat) powi a < 2 powi b \<Longrightarrow> a < b"
  by (rule ccontr) (use power_int_increasing [of b a "2 :: rat"] in simp)

lemma float_exponent_less: "x \<noteq> 0 \<Longrightarrow> \<bar>x\<bar> < 2 powi e \<Longrightarrow> float_exponent x < e"
  using float_exponent_bounds(1) [of x] by (intro powi_less) linarith

lemma float_exponent_mono:
  assumes "x \<noteq> 0" "\<bar>x\<bar> \<le> \<bar>y\<bar>"
  shows "float_exponent x \<le> float_exponent y"
proof -
  have y: "y \<noteq> 0" using assms by auto
  have "2 powi float_exponent x < (2 :: rat) powi (float_exponent y + 1)"
    using float_exponent_bounds(1) [OF assms(1)] float_exponent_bounds(2) [OF y] assms(2) by linarith
  then show ?thesis using powi_less by force
qed

section \<open>Exact numbers and monotonicity\<close>

lemma powi_multiple: "0 \<le> j \<Longrightarrow> (of_int m * 2 powi j :: rat) = of_int (m * 2 ^ nat j)"
  by (simp add: power_int_def)

text \<open>A number with 53 significant bits is not changed.\<close>

lemma f64_exact:
  assumes "x = of_int m * 2 powi j" "\<bar>m\<bar> < 2 ^ 53" "- 1074 \<le> j"
  shows "f64 x = x"
proof (cases "x = 0")
  case True
  then show ?thesis by (simp add: f64_def)
next
  case False
  have "\<bar>x\<bar> = of_int \<bar>m\<bar> * 2 powi j" by (simp add: assms(1) abs_mult)
  also have "\<dots> < 2 ^ 53 * 2 powi j"
    using assms(2) by (intro mult_strict_right_mono) (simp_all add: of_int_less_iff [symmetric, where 'a = rat] del: of_int_less_iff)
  also have "\<dots> = 2 powi (53 + j)" by (simp add: power_int_add)
  finally have "float_ulp x \<le> j"
    using float_exponent_less [OF False] assms(3) by (fastforce simp: float_ulp_def)
  define i where "i = m * 2 ^ nat (j - float_ulp x)"
  have "x / 2 powi float_ulp x = of_int i"
    using powi_multiple [of "j - float_ulp x" m] \<open>float_ulp x \<le> j\<close>
    by (simp add: i_def power_int_diff) (simp add: assms(1))
  then have "f64 x = of_int i * 2 powi float_ulp x" using False by (simp add: f64_def)
  also have "\<dots> = x" using \<open>x / 2 powi float_ulp x = of_int i\<close> by (simp add: nonzero_divide_eq_eq)
  finally show ?thesis .
qed

lemma f64_of_int: "\<bar>n\<bar> < 2 ^ 53 \<Longrightarrow> f64 (of_int n) = of_int n"
  by (rule f64_exact [of _ n 0]) simp_all

lemma f64_of_nat: "n < 2 ^ 53 \<Longrightarrow> f64 (of_nat n) = of_nat n"
  using f64_of_int [of "int n"] by simp

lemma f64_0 [simp]: "f64 0 = 0"
  by (simp add: f64_def)

lemma f64_1 [simp]: "f64 1 = 1"
  using f64_of_nat [of 1] by simp

text \<open>Between two numbers with different spacing lies a power of two, where the finer spacing ends.\<close>

lemma f64_mono:
  assumes "0 < x" "x \<le> y"
  shows "f64 x \<le> f64 y"
proof -
  have n: "x \<noteq> 0" "y \<noteq> 0" "0 < y" using assms by auto
  define k l where "k = float_ulp x" and "l = float_ulp y"
  have "k \<le> l" using float_exponent_mono [of x y] assms n by (simp add: k_def l_def float_ulp_def)
  show ?thesis
  proof (cases "k = l")
    case True
    then show ?thesis
      using assms n by (simp add: f64_def k_def l_def round_even_mono divide_right_mono)
  next
    case False
    with \<open>k \<le> l\<close> have l: "l = float_exponent y - 52" "k < l" and e: "float_exponent x + 1 \<le> float_exponent y"
      by (auto simp: k_def l_def float_ulp_def)
    have k52: "float_exponent x - 52 \<le> k" by (simp add: k_def float_ulp_def)
    let ?p = "float_exponent y"
    have "x < 2 powi (float_exponent x + 1)" using float_exponent_bounds(2) [of x] assms(1) by simp
    also have "\<dots> \<le> 2 powi ?p" using e by (simp add: power_int_increasing)
    finally have "x / 2 powi k \<le> 2 powi (?p - k)" by (simp add: power_int_diff divide_right_mono)
    also have "\<dots> = of_int (2 ^ nat (?p - k))" using l by (simp add: power_int_def)
    finally have "round_even (x / 2 powi k) \<le> 2 ^ nat (?p - k)" by (rule round_even_le)
    then have "f64 x \<le> of_int (2 ^ nat (?p - k)) * 2 powi k"
      using n by (simp add: f64_def k_def [symmetric] del: of_int_power)
    also have "\<dots> = 2 powi ?p" using powi_multiple [of "?p - k" 1, symmetric] l by (simp add: power_int_diff)
    also have p: "(2 :: rat) powi ?p = of_int (2 ^ 52) * 2 powi l" by (simp add: l(1) power_int_diff)
    also have "\<dots> \<le> f64 y"
    proof -
      have "2 powi ?p \<le> y" using float_exponent_bounds(1) [of y] n by simp
      then have "of_int (2 ^ 52) \<le> y / 2 powi l" unfolding p by (simp add: pos_le_divide_eq)
      then have "2 ^ 52 \<le> round_even (y / 2 powi l)" by (rule round_even_ge)
      then have "(of_int (2 ^ 52) :: rat) \<le> of_int (round_even (y / 2 powi l))" by (simp only: of_int_le_iff)
      then have "of_int (2 ^ 52) * 2 powi l \<le> of_int (round_even (y / 2 powi l)) * (2 :: rat) powi l"
        by (rule mult_right_mono) simp
      then show ?thesis using n by (simp only: f64_def l_def if_False)
    qed
    finally show ?thesis .
  qed
qed

lemma f64_nonneg: "0 \<le> x \<Longrightarrow> 0 \<le> f64 x"
  by (cases "x = 0") (auto simp: f64_def intro!: mult_nonneg_nonneg round_even_ge)

lemma f64_pos: "1 \<le> x \<Longrightarrow> 0 < f64 x"
  using f64_mono [of 1 x] by simp

lemma f64_le_1: "0 \<le> x \<Longrightarrow> x \<le> 1 \<Longrightarrow> f64 x \<le> 1"
  using f64_mono [of x 1] by (cases "x = 0") auto

section \<open>Rates and thresholds\<close>

text \<open>\<open>float64(a) / float64(b)\<close>\<close>

definition float_quotient :: "nat \<Rightarrow> nat \<Rightarrow> rat" where
  "float_quotient a b = f64 (f64 (of_nat a) / f64 (of_nat b))"

lemma float_quotient_range:
  assumes "a \<le> b" "0 < b"
  shows "0 \<le> float_quotient a b" "float_quotient a b \<le> 1"
proof -
  have b: "0 < f64 (of_nat b)" using assms by (intro f64_pos) simp
  have "f64 (of_nat a) \<le> f64 (of_nat b)"
    using assms f64_mono [of "of_nat a" "of_nat b"] b by (cases "a = 0") auto
  with b show "0 \<le> float_quotient a b" "float_quotient a b \<le> 1"
    by (simp_all add: float_quotient_def f64_nonneg f64_le_1)
qed

text \<open>A percentage computed in \<open>float64\<close> stays in its range.\<close>

lemma float_percent_range:
  assumes "a \<le> b" "0 < b"
  shows "0 \<le> f64 (float_quotient a b * 100)" "f64 (float_quotient a b * 100) \<le> 100"
proof -
  note r = float_quotient_range [OF assms]
  show "0 \<le> f64 (float_quotient a b * 100)" using r by (intro f64_nonneg) simp
  have "f64 100 = 100" using f64_of_nat [of 100] by simp
  then show "f64 (float_quotient a b * 100) \<le> 100"
    using r f64_mono [of "float_quotient a b * 100" 100] by (cases "float_quotient a b = 0") auto
qed

text \<open>
  The comparison with 0.95, which no \<open>float64\<close> is equal to, decides as the one of the integers
  does: the nearest \<open>float64\<close> and the one below it leave the quotients apart that are not 0.95.
\<close>

lemma float_exponent_unique:
  assumes "2 powi e \<le> \<bar>x\<bar>" "\<bar>x\<bar> < 2 powi (e + 1)"
  shows "float_exponent x = e"
proof -
  have "0 < (2 :: rat) powi e" by simp
  then have "0 < \<bar>x\<bar>" using assms(1) by (rule less_le_trans)
  then have "x \<noteq> 0" by simp
  note b = float_exponent_bounds [OF this]
  have "2 powi e < (2 :: rat) powi (float_exponent x + 1)" "2 powi float_exponent x < (2 :: rat) powi (e + 1)"
    using b assms by linarith+
  then show ?thesis by (auto dest!: powi_less)
qed

lemma f64_095: "f64 (19 / 20) = 8556839292003942 / 2 ^ 53"
proof -
  have "float_exponent (19 / 20) = - 1"
    by (rule float_exponent_unique) (simp_all add: power_int_minus)
  moreover have "\<lfloor>42784196460019712 / 5 :: rat\<rfloor> = 8556839292003942" by (rule floor_unique) simp_all
  ultimately show ?thesis by (simp add: f64_def float_ulp_def power_int_minus round_even_def Let_def)
qed

lemma float_quotient_mono:
  assumes "a \<le> a'" "0 < b"
  shows "float_quotient a b \<le> float_quotient a' b"
proof (cases "a = 0")
  case True
  then show ?thesis using f64_nonneg by (simp add: float_quotient_def)
next
  case False
  have "0 < f64 (of_nat a)" "0 < f64 (of_nat b)" using False assms by (auto intro!: f64_pos)
  moreover have "f64 (of_nat a) \<le> f64 (of_nat a')" using False assms by (intro f64_mono) simp_all
  ultimately show ?thesis by (simp add: float_quotient_def f64_mono divide_right_mono)
qed

lemma float_threshold_095:
  assumes "0 < c" "c \<le> 2 ^ 47"
  shows "f64 (19 / 20) \<le> float_quotient d c \<longleftrightarrow> 95 * c \<le> 100 * d"
proof -
  have small: "float_quotient n c = f64 (of_nat n / of_nat c)" if "n \<le> c" for n
    using that assms by (simp add: float_quotient_def f64_of_nat)
  show ?thesis
  proof
    assume "95 * c \<le> 100 * d"
    then have *: "19 * c \<le> 20 * min d c" by (simp add: min_def)
    then have "(of_nat (19 * c) :: rat) \<le> of_nat (20 * min d c)" by (simp only: of_nat_le_iff)
    then have "19 / 20 \<le> (of_nat (min d c) / of_nat c :: rat)"
      using assms(1) by (simp add: field_simps)
    then have "f64 (19 / 20) \<le> float_quotient (min d c) c" by (simp add: small f64_mono)
    also have "\<dots> \<le> float_quotient d c" using assms(1) by (intro float_quotient_mono) simp_all
    finally show "f64 (19 / 20) \<le> float_quotient d c" .
  next
    assume le: "f64 (19 / 20) \<le> float_quotient d c"
    show "95 * c \<le> 100 * d"
    proof (rule ccontr)
      assume "\<not> 95 * c \<le> 100 * d"
      then have d: "20 * d + 1 \<le> 19 * c" "d \<le> c" by simp_all
      let ?z = "8556839292003941 / 2 ^ 53 :: rat"
      have "(of_nat (20 * d + 1) :: rat) \<le> of_nat (19 * c)" using d(1) by (simp only: of_nat_le_iff)
      moreover have "(of_nat c :: rat) \<le> of_nat (2 ^ 47)" using assms(2) by (simp only: of_nat_le_iff)
      ultimately have "of_nat d \<le> ?z * of_nat c" by simp
      then have "of_nat d / of_nat c \<le> ?z" using assms(1) by (simp add: divide_le_eq)
      moreover have "f64 ?z = ?z"
        by (rule f64_exact [of _ 8556839292003941 "- 53"]) (simp_all add: power_int_minus)
      ultimately have "float_quotient d c \<le> ?z"
        using f64_mono [of "of_nat d / of_nat c" ?z] assms(1) d(2) by (cases "d = 0") (auto simp: small)
      with le show False by (simp add: f64_095)
    qed
  qed
qed

end
