(* ===== verification/Analytics.thy ===== *)
theory Analytics
  imports Maintenance Sql_Groups GoFloat
begin

text \<open>
  The analytics queries: \<open>internal/database/failure_analytics.go\<close>, \<open>label_demand.go\<close>,
  \<open>repo_filter.go\<close> and \<open>GetMetricsSummary\<close> of \<open>metrics.go\<close>.  Two functions of the SQL engine are
  parameters: \<open>strftime\<close> (format and time text to text) and \<open>julianday\<close> (time text to days); both
  answer \<open>None\<close> for \<open>NULL\<close>, a text that is not a time.  Failure rates are the \<open>float64\<close> numbers the
  code computes; the averages, which SQLite computes, are exact quotients.
\<close>

type_synonym sql_strftime = "string \<Rightarrow> string \<Rightarrow> string option"
type_synonym sql_julianday = "string \<Rightarrow> rat option"

section \<open>The common parts of the queries\<close>

text \<open>\<open>jobRepoFilter\<close> and \<open>repoWhere\<close>: the join with the runs of one repository.\<close>

definition in_repo :: "string \<Rightarrow> run_row list \<Rightarrow> job_row \<Rightarrow> bool" where
  "in_repo repo runs j \<longleftrightarrow>
     repo = [] \<or> (\<exists>r \<in> set runs. rr_id r = jr_run_id j \<and> rr_repository r = repo)"

text \<open>Hourly buckets up to one day, daily buckets for a longer window.\<close>

definition bucketFormat :: "int \<Rightarrow> string" where
  "bucketFormat since =
     (if since > 24 * hour_ns then ''%Y-%m-%dT00:00:00Z'' else ''%Y-%m-%dT%H:00:00Z'')"

text \<open>\<open>t, _ := time.Parse (...)\<close> and \<open>t.Unix ()\<close>: a bucket that cannot be parsed is the zero time.\<close>

definition bucket_unix :: "string \<Rightarrow> int" where
  "bucket_unix s = (case time_Parse layout_T_Z s of None \<Rightarrow> t_sec zero_time | Some t \<Rightarrow> t_sec t)"

text \<open>
  A query whose rows are scanned into Go strings: a \<open>NULL\<close> in the first row, where the order puts
  it, makes \<open>Scan\<close> fail.
\<close>

definition query_scan ::
  "go_error \<Rightarrow> go_error \<Rightarrow> ('a dbw_scheme \<Rightarrow> 'x option) \<Rightarrow> 'a dbw_scheme \<Rightarrow> 'a dbw_scheme \<times> (go_error + 'x)" where
  "query_scan err scan_err f w =
     (case query_rows err f w of
        (w, Inl e) \<Rightarrow> (w, Inl e)
      | (w, Inr None) \<Rightarrow> (w, Inl scan_err)
      | (w, Inr (Some x)) \<Rightarrow> (w, Inr x))"

section \<open>Failures\<close>

definition completed_since :: "string \<Rightarrow> job_row \<Rightarrow> bool" where
  "completed_since cutoff j \<longleftrightarrow>
     jr_status j = ''completed'' \<and> (case jr_completed_at j of None \<Rightarrow> False | Some t \<Rightarrow> cutoff \<le> t)"

definition is_failure :: "job_row \<Rightarrow> bool" where
  "is_failure j \<longleftrightarrow> jr_conclusion j = ''failure'' \<or> jr_conclusion j = ''timed_out''"

definition is_success :: "job_row \<Rightarrow> bool" where
  "is_success j \<longleftrightarrow> jr_conclusion j = ''success''"

definition is_cancelled :: "job_row \<Rightarrow> bool" where
  "is_cancelled j \<longleftrightarrow> jr_conclusion j = ''cancelled''"

record failing_job =
  fj_Name :: string
  fj_HtmlUrl :: string
  fj_Failures :: nat
  fj_Total :: nat
  fj_FailureRate :: rat

record failure_summary =
  TotalCompleted :: nat
  TotalFailed :: nat
  TotalCancelled :: nat
  FailureRate :: rat
  TopFailingJobs :: "failing_job list"

record FailureTrendPoint =
  ft_Timestamp :: int
  ft_Failures :: nat
  ft_Successes :: nat
  ft_Cancelled :: nat

definition failure_rate :: "nat \<Rightarrow> nat \<Rightarrow> rat" where
  "failure_rate f n = (if 0 < n then f64 (float_quotient f n * 100) else 0)"

definition completed_jobs :: "int \<Rightarrow> string \<Rightarrow> 'a dbw_scheme \<Rightarrow> job_row list" where
  "completed_jobs since repo w =
     filter (\<lambda>j. in_repo repo (workflow_runs w) j \<and>
                 completed_since (format_RFC3339 (cutoff_time since w)) j) (workflow_jobs w)"

definition failing_groups :: "job_row list \<Rightarrow> failing_job list" where
  "failing_groups js =
     map (\<lambda>(n, g). \<lparr>fj_Name = n, fj_HtmlUrl = fold max (map jr_html_url g) [],
            fj_Failures = length (filter is_failure g), fj_Total = length g,
            fj_FailureRate = failure_rate (length (filter is_failure g)) (length g)\<rparr>)
       (group_by jr_name js)"

definition top_failing :: "job_row list \<Rightarrow> failing_job list" where
  "top_failing js = take 10 (order_desc fj_Failures (filter (\<lambda>f. 0 < fj_Failures f) (failing_groups js)))"

definition GetFailureAnalytics ::
  "int \<Rightarrow> string \<Rightarrow> 'a dbw_scheme \<Rightarrow> 'a dbw_scheme \<times> (go_error + failure_summary)" where
  "GetFailureAnalytics since repo w =
     (let js = completed_jobs since repo w; failed = length (filter is_failure js)
      in case engine w of (summary_ok, w) \<Rightarrow>
        if \<not> summary_ok then (w, Inl (db_error ''failed to get failure summary'')) else
      query_rows (db_error ''failed to get top failing jobs'')
        (\<lambda>_. \<lparr>TotalCompleted = length js, TotalFailed = failed,
             TotalCancelled = length (filter is_cancelled js),
             FailureRate = failure_rate failed (length js),
             TopFailingJobs = top_failing js\<rparr>) w)"

definition trend_points :: "sql_strftime \<Rightarrow> string \<Rightarrow> job_row list \<Rightarrow> FailureTrendPoint list option" where
  "trend_points strftime fmt js =
     (let gs = group_by (\<lambda>j. strftime fmt (null_string (jr_completed_at j))) js
      in if None \<in> fst ` set gs then None else
         Some (map (\<lambda>(b, g). \<lparr>ft_Timestamp = bucket_unix (the b),
                 ft_Failures = length (filter is_failure g),
                 ft_Successes = length (filter is_success g),
                 ft_Cancelled = length (filter is_cancelled g)\<rparr>) gs))"

definition GetFailureTrend ::
  "sql_strftime \<Rightarrow> int \<Rightarrow> string \<Rightarrow> 'a dbw_scheme \<Rightarrow> 'a dbw_scheme \<times> (go_error + FailureTrendPoint list)" where
  "GetFailureTrend strftime since repo w =
     query_scan (db_error ''failed to get failure trend'') (db_error ''failed to scan trend point'')
       (\<lambda>w. trend_points strftime (bucketFormat since) (completed_jobs since repo w)) w"

section \<open>Label demand\<close>

record LabelDemandSummary =
  ld_Label :: string
  ld_TotalJobs :: nat
  ld_Running :: nat
  ld_Queued :: nat
  ld_AvgQueueSeconds :: rat

record LabelDemandTrendPoint =
  lt_Timestamp :: int
  lt_Label :: string
  lt_Count :: nat

definition labelled_jobs :: "int \<Rightarrow> string \<Rightarrow> 'a dbw_scheme \<Rightarrow> job_row list" where
  "labelled_jobs since repo w =
     filter (\<lambda>j. format_RFC3339 (cutoff_time since w) \<le> jr_created_at j \<and> first_label j \<noteq> None \<and>
                 in_repo repo (workflow_runs w) j) (workflow_jobs w)"

text \<open>\<open>(julianday (b) - julianday (a)) * 86400\<close>, \<open>NULL\<close> when one of them is.\<close>

definition seconds_between :: "sql_julianday \<Rightarrow> string \<Rightarrow> string \<Rightarrow> rat option" where
  "seconds_between julianday a b =
     (case (julianday a, julianday b) of
        (Some x, Some y) \<Rightarrow> Some ((y - x) * 86400)
      | _ \<Rightarrow> None)"

definition queue_seconds :: "sql_julianday \<Rightarrow> job_row \<Rightarrow> rat option" where
  "queue_seconds julianday j =
     (case jr_started_at j of
        None \<Rightarrow> None
      | Some s \<Rightarrow> if s \<noteq> [] \<and> jr_created_at j \<noteq> [] then seconds_between julianday (jr_created_at j) s else None)"

definition demand_groups :: "sql_julianday \<Rightarrow> job_row list \<Rightarrow> LabelDemandSummary list" where
  "demand_groups julianday js =
     order_desc ld_TotalJobs (map (\<lambda>(l, g).
         \<lparr>ld_Label = the l, ld_TotalJobs = length g,
          ld_Running = length (filter (\<lambda>j. jr_status j = ''in_progress'') g),
          ld_Queued = length (filter (\<lambda>j. jr_status j = ''queued'') g),
          ld_AvgQueueSeconds = avg0 (map (queue_seconds julianday) g)\<rparr>)
       (group_by first_label js))"

definition GetLabelDemandSummary ::
  "sql_julianday \<Rightarrow> int \<Rightarrow> string \<Rightarrow> 'a dbw_scheme \<Rightarrow> 'a dbw_scheme \<times> (go_error + LabelDemandSummary list)" where
  "GetLabelDemandSummary julianday since repo w =
     query_rows (db_error ''failed to get label demand summary'')
       (\<lambda>w. demand_groups julianday (labelled_jobs since repo w)) w"

definition demand_trend :: "sql_strftime \<Rightarrow> string \<Rightarrow> job_row list \<Rightarrow> LabelDemandTrendPoint list option" where
  "demand_trend strftime fmt js =
     (let gs = group_by (\<lambda>j. (strftime fmt (jr_created_at j), first_label j)) js
      in if None \<in> (fst \<circ> fst) ` set gs then None else
         Some (map (\<lambda>((b, l), g). \<lparr>lt_Timestamp = bucket_unix (the b), lt_Label = the l, lt_Count = length g\<rparr>) gs))"

definition GetLabelDemandTrend ::
  "sql_strftime \<Rightarrow> int \<Rightarrow> string \<Rightarrow> 'a dbw_scheme \<Rightarrow> 'a dbw_scheme \<times> (go_error + LabelDemandTrendPoint list)" where
  "GetLabelDemandTrend strftime since repo w =
     query_scan (db_error ''failed to get label demand trend'') (db_error ''failed to scan label demand trend'')
       (\<lambda>w. demand_trend strftime (bucketFormat since) (labelled_jobs since repo w)) w"

section \<open>The summary of the metrics page\<close>

text \<open>
  \<open>GetMetricsSummary\<close>: only the first of the four queries can make it fail; a value whose query
  fails stays 0.  The result is the map the code returns, also beside the error.
\<close>

definition zero_summary :: "string \<rightharpoonup> rat" where
  "zero_summary = [''running_jobs'' \<mapsto> 0, ''queued_jobs'' \<mapsto> 0, ''avg_queue_time'' \<mapsto> 0,
     ''avg_run_time'' \<mapsto> 0, ''peak_demand'' \<mapsto> 0]"

definition at_least :: "string \<Rightarrow> string option \<Rightarrow> bool" where
  "at_least cutoff t = (case t of None \<Rightarrow> False | Some s \<Rightarrow> cutoff \<le> s)"

definition avg_queue_time :: "sql_julianday \<Rightarrow> string \<Rightarrow> job_row list \<Rightarrow> rat" where
  "avg_queue_time julianday cutoff js =
     avg0 (map (\<lambda>j. seconds_between julianday (jr_created_at j) (null_string (jr_started_at j)))
       (filter (\<lambda>j. at_least cutoff (jr_started_at j)) js))"

definition avg_run_time :: "sql_julianday \<Rightarrow> string \<Rightarrow> job_row list \<Rightarrow> rat" where
  "avg_run_time julianday cutoff js =
     avg0 (map (\<lambda>j. seconds_between julianday (null_string (jr_started_at j)) (null_string (jr_completed_at j)))
       (filter (\<lambda>j. jr_started_at j \<noteq> None \<and> at_least cutoff (jr_completed_at j)) js))"

definition peak_demand :: "string \<Rightarrow> snapshot_row list \<Rightarrow> nat" where
  "peak_demand cutoff rows =
     fold max (map (\<lambda>r. sn_running_jobs r + sn_queued_jobs r) (filter (\<lambda>r. cutoff \<le> sn_timestamp r) rows)) 0"

definition GetMetricsSummary ::
  "sql_julianday \<Rightarrow> int \<Rightarrow> 'a dbw_scheme \<Rightarrow> 'a dbw_scheme \<times> (string \<rightharpoonup> rat) \<times> go_error option" where
  "GetMetricsSummary julianday since w =
     (let js = workflow_jobs w;
          jobsCutoff = format_RFC3339 (time_Add (UTC (clock w)) (wrap64 (- since)));
          snapshotsCutoff = format_datetime (time_Add (UTC (clock w)) (wrap64 (- since)))
      in case engine w of (counts_ok, w) \<Rightarrow>
        if \<not> counts_ok then (w, zero_summary, Some (db_error ''failed to get current job counts'')) else
      let res = zero_summary
        (''running_jobs'' \<mapsto> of_nat (rows_affected (\<lambda>r. jr_status r = ''in_progress'') js),
         ''queued_jobs'' \<mapsto> of_nat (rows_affected (\<lambda>r. jr_status r = ''queued'') js)) in
      case engine w of (queue_ok, w) \<Rightarrow>
      let res = (if queue_ok then res(''avg_queue_time'' \<mapsto> avg_queue_time julianday jobsCutoff js) else res) in
      case engine w of (run_ok, w) \<Rightarrow>
      let res = (if run_ok then res(''avg_run_time'' \<mapsto> avg_run_time julianday jobsCutoff js) else res) in
      case engine w of (peak_ok, w) \<Rightarrow>
      let res = (if peak_ok then res(''peak_demand'' \<mapsto> of_nat (peak_demand snapshotsCutoff (metrics_snapshots w))) else res)
      in (w, res, None))"

section \<open>Lemmas\<close>

lemma query_rows_result:
  assumes "query_rows err f w = (w', Inr x)"
  shows "f w' = x \<and> (\<exists>bs. w' = w\<lparr>tape := bs\<rparr>)"
proof -
  obtain b1 t1 b2 t2 where "engine w = (b1, w\<lparr>tape := t1\<rparr>)"
    "engine (w\<lparr>tape := t1\<rparr>) = (b2, w\<lparr>tape := t2\<rparr>)" by (rule engine_twice)
  then show ?thesis using assms by (cases b1; cases b2) (auto simp: query_rows_def)
qed

lemma query_scan_result:
  "query_scan err scan_err f w = (w', Inr x) \<Longrightarrow> f w' = Some x \<and> (\<exists>bs. w' = w\<lparr>tape := bs\<rparr>)"
  by (auto simp: query_scan_def split: prod.splits sum.splits option.splits dest: query_rows_result)

lemma jobs_tape [simp]:
  "completed_jobs since repo (w\<lparr>tape := bs\<rparr>) = completed_jobs since repo w"
  "labelled_jobs since repo (w\<lparr>tape := bs\<rparr>) = labelled_jobs since repo w"
  by (simp_all add: completed_jobs_def labelled_jobs_def cutoff_time_def)

lemma GetFailureAnalytics_result:
  assumes "GetFailureAnalytics since repo w = (w', Inr s)"
  defines "js \<equiv> completed_jobs since repo w"
  shows "s = \<lparr>TotalCompleted = length js, TotalFailed = length (filter is_failure js),
             TotalCancelled = length (filter is_cancelled js),
             FailureRate = failure_rate (length (filter is_failure js)) (length js),
             TopFailingJobs = top_failing js\<rparr>"
proof -
  obtain b t where "engine w = (b, w\<lparr>tape := t\<rparr>)" by (rule engine_cases)
  then show ?thesis using assms(1)
    by (cases b) (auto simp: GetFailureAnalytics_def js_def Let_def dest: query_rows_result)
qed

lemma GetFailureTrend_result:
  "GetFailureTrend strftime since repo w = (w', Inr ps) \<Longrightarrow>
   trend_points strftime (bucketFormat since) (completed_jobs since repo w) = Some ps"
  by (auto simp: GetFailureTrend_def dest!: query_scan_result)

lemma GetLabelDemandTrend_result:
  "GetLabelDemandTrend strftime since repo w = (w', Inr ps) \<Longrightarrow>
   demand_trend strftime (bucketFormat since) (labelled_jobs since repo w) = Some ps"
  by (auto simp: GetLabelDemandTrend_def dest!: query_scan_result)

lemma GetLabelDemandSummary_result:
  "GetLabelDemandSummary julianday since repo w = (w', Inr ss) \<Longrightarrow>
   ss = demand_groups julianday (labelled_jobs since repo w)"
  by (auto simp: GetLabelDemandSummary_def dest!: query_rows_result)

lemma trend_points_sums:
  assumes "trend_points strftime fmt js = Some ps"
  shows "sum_list (map ft_Failures ps) = length (filter is_failure js)"
    "sum_list (map ft_Successes ps) = length (filter is_success js)"
    "sum_list (map ft_Cancelled ps) = length (filter is_cancelled js)"
  using assms
  by (auto simp: trend_points_def Let_def comp_def case_prod_beta sum_groups split: if_splits)

lemma demand_groups_sum: "sum_list (map ld_TotalJobs (demand_groups julianday js)) = length js"
  by (simp add: demand_groups_def sum_order_desc comp_def case_prod_beta sum_groups_length)

lemma demand_trend_sum:
  assumes "demand_trend strftime fmt js = Some ps" "\<forall>j \<in> set js. first_label j \<noteq> None"
  shows "sum_list (map lt_Count (filter (\<lambda>p. lt_Label p = l) ps)) = length (filter (\<lambda>j. first_label j = Some l) js)"
proof -
  let ?gs = "group_by (\<lambda>j. (strftime fmt (jr_created_at j), first_label j)) js"
  have lab: "snd k \<noteq> None" if "(k, g) \<in> set ?gs" for k g
    using that assms(2) by (auto simp: group_by_member)
  have ps: "ps = map (\<lambda>((b, l), g). \<lparr>lt_Timestamp = bucket_unix (the b), lt_Label = the l, lt_Count = length g\<rparr>) ?gs"
    using assms(1) by (auto simp: demand_trend_def Let_def split: if_splits)
  have "filter (\<lambda>kg. the (snd (fst kg)) = l) ?gs = filter (\<lambda>kg. snd (fst kg) = Some l) ?gs"
    using lab by (intro filter_cong) auto
  then show ?thesis
    using sum_groups_where [of "\<lambda>k. snd k = Some l" "\<lambda>j. (strftime fmt (jr_created_at j), first_label j)" js]
    by (simp add: ps filter_map comp_def case_prod_beta)
qed

lemma demand_groups_label:
  assumes "\<forall>j \<in> set js. first_label j \<noteq> None" "s \<in> set (demand_groups julianday js)"
  shows "ld_TotalJobs s = length (filter (\<lambda>j. first_label j = Some (ld_Label s)) js)"
  using assms
  by (auto simp: demand_groups_def group_by_member)

lemma failing_groups_facts:
  "distinct (map fj_Name (failing_groups js))"
  "sum_list (map fj_Failures (failing_groups js)) = length (filter is_failure js)"
  "f \<in> set (failing_groups js) \<Longrightarrow> fj_Failures f \<le> fj_Total f \<and> 0 < fj_Total f"
proof -
  show "distinct (map fj_Name (failing_groups js))"
    by (simp add: failing_groups_def comp_def case_prod_beta)
  show "sum_list (map fj_Failures (failing_groups js)) = length (filter is_failure js)"
    by (simp add: failing_groups_def comp_def case_prod_beta sum_groups)
  show "f \<in> set (failing_groups js) \<Longrightarrow> fj_Failures f \<le> fj_Total f \<and> 0 < fj_Total f"
    by (auto simp: failing_groups_def dest: group_by_nonempty)
qed

lemma failure_rate_range: "f \<le> n \<Longrightarrow> 0 \<le> failure_rate f n \<and> failure_rate f n \<le> 100"
  by (simp add: failure_rate_def float_percent_range)

lemma group_rates:
  "0 \<le> failure_rate (length (filter P g)) (length g)" "failure_rate (length (filter P g)) (length g) \<le> 100"
  using failure_rate_range [OF length_filter_le] by blast+

lemma top_failing_facts:
  "length (top_failing js) \<le> 10" "sorted_wrt (\<lambda>a b. fj_Failures b \<le> fj_Failures a) (top_failing js)"
  "distinct (map fj_Name (top_failing js))"
  "sum_list (map fj_Failures (top_failing js)) \<le> length (filter is_failure js)"
  "f \<in> set (top_failing js) \<Longrightarrow> 0 < fj_Failures f \<and> f \<in> set (failing_groups js)"
proof -
  let ?fs = "filter (\<lambda>f. 0 < fj_Failures f) (failing_groups js)"
  show "length (top_failing js) \<le> 10" by (simp add: top_failing_def)
  show "sorted_wrt (\<lambda>a b. fj_Failures b \<le> fj_Failures a) (top_failing js)"
    unfolding top_failing_def by (intro sorted_wrt_take order_desc_sorted)
  have "distinct (map fj_Name ?fs)"
    using failing_groups_facts(1) by (rule distinct_map_filter)
  then have "distinct (map fj_Name (order_desc fj_Failures ?fs))"
    using mset_map [of fj_Name] order_desc_mset [of fj_Failures ?fs] by (metis mset_eq_imp_distinct_iff)
  then show "distinct (map fj_Name (top_failing js))"
    unfolding top_failing_def take_map [symmetric] by (rule distinct_take)
  have "sum_list (map fj_Failures (top_failing js)) \<le> sum_list (map fj_Failures ?fs)"
    unfolding top_failing_def using sum_take_le [of fj_Failures 10 "order_desc fj_Failures ?fs"]
    by (simp only: sum_order_desc)
  also have "\<dots> = sum_list (map fj_Failures (failing_groups js))"
    by (rule sum_list_map_filter) simp
  finally show "sum_list (map fj_Failures (top_failing js)) \<le> length (filter is_failure js)"
    by (simp only: failing_groups_facts(2))
  show "f \<in> set (top_failing js) \<Longrightarrow> 0 < fj_Failures f \<and> f \<in> set (failing_groups js)"
    unfolding top_failing_def by (drule in_set_takeD) simp
qed

section \<open>Properties\<close>

text \<open>C35: the two failure queries agree.  Whenever both succeed on the same tables, the points of the
  trend add up to the totals of the summary, whatever \<open>strftime\<close> makes of the times.\<close>

theorem trend_partitions_summary:
  assumes "GetFailureTrend strftime since repo w = (w1, Inr ps)"
    and "GetFailureAnalytics since repo w = (w2, Inr s)"
  shows "sum_list (map ft_Failures ps) = TotalFailed s \<and>
    sum_list (map ft_Cancelled ps) = TotalCancelled s \<and>
    sum_list (map ft_Failures ps) + sum_list (map ft_Successes ps) + sum_list (map ft_Cancelled ps) \<le> TotalCompleted s"
proof -
  have "length (filter is_failure js) + length (filter is_success js) + length (filter is_cancelled js) \<le> length js" for js
    by (induction js) (auto simp: is_failure_def is_success_def is_cancelled_def)
  then show ?thesis
    using trend_points_sums [OF GetFailureTrend_result [OF assms(1)]] GetFailureAnalytics_result [OF assms(2)]
    by simp
qed

text \<open>The failure summary is consistent: the rates lie between 0 and 100, at most ten job names are
  listed, each once and with at least one failure, most failures first, and no more failures than
  the total.\<close>

theorem failure_summary_consistent:
  assumes "GetFailureAnalytics since repo w = (w', Inr s)"
  shows "0 \<le> FailureRate s \<and> FailureRate s \<le> 100 \<and> length (TopFailingJobs s) \<le> 10 \<and>
    distinct (map fj_Name (TopFailingJobs s)) \<and>
    sorted_wrt (\<lambda>a b. fj_Failures b \<le> fj_Failures a) (TopFailingJobs s) \<and>
    sum_list (map fj_Failures (TopFailingJobs s)) \<le> TotalFailed s \<and>
    list_all (\<lambda>f. 0 < fj_Failures f \<and> fj_Failures f \<le> fj_Total f \<and> 0 \<le> fj_FailureRate f \<and> fj_FailureRate f \<le> 100)
      (TopFailingJobs s)"
proof -
  let ?js = "completed_jobs since repo w"
  have "0 \<le> fj_FailureRate f \<and> fj_FailureRate f \<le> 100" if "f \<in> set (failing_groups ?js)" for f
    using that by (auto simp: failing_groups_def group_rates)
  then have "list_all (\<lambda>f. 0 < fj_Failures f \<and> fj_Failures f \<le> fj_Total f \<and> 0 \<le> fj_FailureRate f \<and> fj_FailureRate f \<le> 100)
      (top_failing ?js)"
    using top_failing_facts(5) failing_groups_facts(3) unfolding list_all_iff by blast
  then show ?thesis
    using GetFailureAnalytics_result [OF assms] top_failing_facts(1-4) [of ?js]
      failure_rate_range [of "length (filter is_failure ?js)" "length ?js"] by simp
qed

text \<open>The two label queries agree: the counts of a label's points in the trend add up to its total in
  the summary, and the totals to the number of jobs of the window that have a label.\<close>

theorem label_trend_matches_summary:
  assumes "GetLabelDemandTrend strftime since repo w = (w1, Inr ps)"
    and "GetLabelDemandSummary julianday since repo w = (w2, Inr ss)"
  shows "list_all (\<lambda>s. sum_list (map lt_Count (filter (\<lambda>p. lt_Label p = ld_Label s) ps)) = ld_TotalJobs s) ss \<and>
    sum_list (map ld_TotalJobs ss) = length (labelled_jobs since repo w)"
proof -
  have lab: "\<forall>j \<in> set (labelled_jobs since repo w). first_label j \<noteq> None" by (auto simp: labelled_jobs_def)
  show ?thesis
    unfolding GetLabelDemandSummary_result [OF assms(2)] list_all_iff demand_groups_sum
    using demand_trend_sum [OF GetLabelDemandTrend_result [OF assms(1)] lab] demand_groups_label [OF lab]
    by simp
qed

lemma text_before:
  assumes "year4 t" "year4 c" "local_secs t < local_secs c"
  shows "format_RFC3339 t < format_RFC3339 c"
  using assms format_date_time_less [OF assms(1,2), of "CHR ''T''"]
  by (simp add: format_RFC3339_def append_less format_date_time_length)

text \<open>C36: the window is shifted by the zone of the server.  The cutoff is written in the local zone, the
  stored times, as GitHub sends them, in UTC, and the texts are compared: with a zone an hour or more
  east of the window's length, no job that has completed is in the window.\<close>

theorem window_is_empty_east:
  assumes "\<forall>j \<in> set (workflow_jobs w). \<forall>s. jr_completed_at j = Some s \<longrightarrow>
      (\<exists>t. s = format_RFC3339 t \<and> t_off t = 0 \<and> year4 t \<and> t_sec t \<le> t_sec (clock w))"
    and "year4 (cutoff_time since w)" "t_sec (clock w) < t_sec (cutoff_time since w) + t_off (clock w)"
  shows "completed_jobs since repo w = []"
proof -
  have o: "t_off (cutoff_time since w) = t_off (clock w)" by (simp add: cutoff_time_def time_Add_def)
  have "\<not> completed_since (format_RFC3339 (cutoff_time since w)) j" if "j \<in> set (workflow_jobs w)" for j
  proof (cases "jr_completed_at j")
    case None
    then show ?thesis by (simp add: completed_since_def)
  next
    case (Some s)
    with assms(1) that obtain t where t: "s = format_RFC3339 t" "t_off t = 0" "year4 t" "t_sec t \<le> t_sec (clock w)"
      by metis
    then have "s < format_RFC3339 (cutoff_time since w)"
      using text_before [OF t(3) assms(2)] assms(3) o by (simp add: local_secs_def)
    then show ?thesis using Some by (simp add: completed_since_def linorder_not_le)
  qed
  then show ?thesis by (simp add: completed_jobs_def)
qed

end
