(* ===== verification/Ordering.thy ===== *)
theory Ordering
  imports World
begin

text \<open>
  The ordering service, \<open>internal/services/event_ordering_service.go\<close>: the ingest worker, which
  processes queued events directly and spills the failed ones in batches, and the flush worker,
  which replays spilled events.  \<open>processFunc\<close> is the argument \<open>pf\<close>.

  The first part translates the loops as functions.  The second is a step relation in which the two
  workers, the callers of \<open>AddEvent\<close> and \<open>Stop\<close> interleave; its steps are the channel operations and
  the calls of \<open>processFunc\<close> and of the database.
\<close>

section \<open>Constants and the state\<close>

definition defaultIngestChannelSize :: nat where "defaultIngestChannelSize = 10000"
definition defaultIngestBatchSize :: nat where "defaultIngestBatchSize = 200"
definition batchSize :: nat where "batchSize = 500"
definition maxAge :: int where "maxAge = 10 * 1000000000"
definition maxDrainIterations :: nat where "maxDrainIterations = 20"
definition flushAllBatch :: nat where "flushAllBatch = 1000"

definition IsPermanent :: "go_error \<Rightarrow> bool" where
  "IsPermanent err = errors_Is err ErrPermanent"

type_synonym process_func = "OrderedEvent \<Rightarrow> world \<Rightarrow> world \<times> go_error option"

datatype ingest_pc = IngestLoop | IngestDrain | IngestDone
datatype flush_pc = FlushIdle | FlushBatch "OrderedEvent list" | FlushFinal "OrderedEvent list" | FlushDone

text \<open>
  What became of an event the ingest worker took: processed, dropped as a permanent failure,
  spilled to \<open>webhook_events\<close>, or lost because the spill failed.
\<close>

datatype fate = Processed | PermanentFailure | Spilled | SpillFailed

text \<open>\<open>accepted\<close>, \<open>taken\<close> and \<open>fates\<close> record the history; no operation reads them.\<close>

record svc =
  wrld :: world
  ingestCh :: "OrderedEvent list"
  spill :: "OrderedEvent list"
  ctxDone :: bool
  ingest_at :: ingest_pc
  flush_at :: flush_pc
  accepted :: "OrderedEvent list"
  taken :: "OrderedEvent list"
  fates :: "(OrderedEvent \<times> fate) list"

definition NewEventOrderingService :: "world \<Rightarrow> svc" where
  "NewEventOrderingService w =
     \<lparr>wrld = w, ingestCh = [], spill = [], ctxDone = False, ingest_at = IngestLoop,
      flush_at = FlushIdle, accepted = [], taken = [], fates = []\<rparr>"

definition IngestQueueLen :: "svc \<Rightarrow> nat" where
  "IngestQueueLen s = length (ingestCh s)"

definition IngestQueueCap :: "svc \<Rightarrow> nat" where
  "IngestQueueCap s = defaultIngestChannelSize"

section \<open>Enqueueing\<close>

definition has_room :: "svc \<Rightarrow> bool" where
  "has_room s \<longleftrightarrow> length (ingestCh s) < defaultIngestChannelSize"

definition send_event :: "OrderedEvent \<Rightarrow> svc \<Rightarrow> svc" where
  "send_event ev s = s\<lparr>ingestCh := ingestCh s @ [ev], accepted := accepted s @ [ev]\<rparr>"

text \<open>
  \<open>AddEvent\<close>.  When the first, non-blocking send fails the call waits; \<open>wait\<close> gives the state in which
  the blocking \<open>select\<close> wakes up and the case it would take.  A case that is not ready there leaves
  the timer, which always fires.
\<close>

datatype select_case = CaseSend | CaseTimer | CaseDone

definition AddEvent ::
  "(svc \<Rightarrow> svc \<times> select_case) \<Rightarrow> OrderedEvent \<Rightarrow> svc \<Rightarrow> svc \<times> go_error option" where
  "AddEvent wait ev s =
     (if has_room s then (send_event ev s, None) else
      case wait s of (s, c) \<Rightarrow>
        if c = CaseSend \<and> has_room s then (send_event ev s, None)
        else if c = CaseDone \<and> ctxDone s then (s, Some Canceled)
        else (s, Some ErrIngestQueueFull))"

section \<open>The ingest worker\<close>

text \<open>A write under a cancelled context fails without reaching the database.\<close>

definition store_under :: "bool \<Rightarrow> OrderedEvent list \<Rightarrow> world \<Rightarrow> world \<times> go_error option" where
  "store_under cancelled evs w =
     (if cancelled then (w, Some (Wrap ''failed to begin batch tx'' Canceled))
      else StoreWebhookEvents (map Some evs) w)"

definition count_outcome :: "string \<Rightarrow> OrderedEvent list \<Rightarrow> world \<Rightarrow> world" where
  "count_outcome outcome evs = fold (\<lambda>ev. WebhookEventsTotal_Inc (EventType ev) outcome) evs"

definition flushSpill :: "bool \<Rightarrow> svc \<Rightarrow> svc" where
  "flushSpill cancelled s =
     (if spill s = [] then s else
      case store_under cancelled (spill s) (wrld s) of
        (w, Some e) \<Rightarrow> s\<lparr>wrld := count_outcome ''spill_failed'' (spill s) w, spill := [],
                        fates := fates s @ map (\<lambda>ev. (ev, SpillFailed)) (spill s)\<rparr>
      | (w, None) \<Rightarrow> s\<lparr>wrld := count_outcome ''spilled'' (spill s) w, spill := [],
                        fates := fates s @ map (\<lambda>ev. (ev, Spilled)) (spill s)\<rparr>)"

definition process :: "process_func \<Rightarrow> OrderedEvent \<Rightarrow> svc \<Rightarrow> svc" where
  "process pf ev s =
     (case pf ev (wrld s) of
        (w, None) \<Rightarrow> s\<lparr>wrld := w, fates := fates s @ [(ev, Processed)]\<rparr>
      | (w, Some err) \<Rightarrow>
          if IsPermanent err
          then s\<lparr>wrld := WebhookEventsTotal_Inc (EventType ev) ''permanent_failure'' w,
                 fates := fates s @ [(ev, PermanentFailure)]\<rparr>
          else s\<lparr>wrld := w, spill := spill s @ [ev]\<rparr>)"

text \<open>The case that receives an event, in the loop and in the drain.\<close>

definition ingest_take :: "process_func \<Rightarrow> bool \<Rightarrow> OrderedEvent \<Rightarrow> OrderedEvent list \<Rightarrow> svc \<Rightarrow> svc" where
  "ingest_take pf cancelled ev rest s =
     (let s = process pf ev (s\<lparr>ingestCh := rest, taken := taken s @ [ev]\<rparr>)
      in if defaultIngestBatchSize \<le> length (spill s) then flushSpill cancelled s else s)"

text \<open>The drain on shutdown: the whole channel, then the last spill.\<close>

fun drain :: "process_func \<Rightarrow> OrderedEvent list \<Rightarrow> svc \<Rightarrow> svc" where
  "drain pf [] s = (flushSpill False s)\<lparr>ingest_at := IngestDone\<rparr>"
| "drain pf (ev # rest) s = drain pf rest (ingest_take pf False ev rest s)"

section \<open>The flush worker\<close>

fun processEvents :: "process_func \<Rightarrow> OrderedEvent list \<Rightarrow> world \<Rightarrow> world" where
  "processEvents pf [] w = w"
| "processEvents pf (ev # evs) w = processEvents pf evs (fst (pf ev w))"

text \<open>
  The loop of \<open>flushReadyEvents\<close> with \<open>n\<close> iterations left: \<open>cancelled i\<close> and \<open>late i\<close> are the readings
  of the context and of the clock in iteration \<open>i\<close>.
\<close>

fun flush_ready ::
  "process_func \<Rightarrow> (nat \<Rightarrow> bool) \<Rightarrow> (nat \<Rightarrow> bool) \<Rightarrow> nat \<Rightarrow> nat \<Rightarrow> world \<Rightarrow> world \<times> nat" where
  "flush_ready pf cancelled late 0 processed w = (w, processed)"
| "flush_ready pf cancelled late (Suc n) processed w =
     (let i = maxDrainIterations - Suc n in
      if cancelled i then (w, processed) else
      case GetPendingEventsByAge maxAge batchSize w of
        (w, Inl e) \<Rightarrow> (w, processed)
      | (w, Inr events) \<Rightarrow>
          if events = [] then (w, processed) else
          let w = processEvents pf events w; processed = processed + length events
          in if length events < batchSize \<or> late i then (w, processed)
             else flush_ready pf cancelled late n processed w)"

definition flushReadyEvents :: "process_func \<Rightarrow> (nat \<Rightarrow> bool) \<Rightarrow> (nat \<Rightarrow> bool) \<Rightarrow> world \<Rightarrow> world" where
  "flushReadyEvents pf cancelled late w =
     (case flush_ready pf cancelled late maxDrainIterations 0 w of (w, processed) \<Rightarrow>
        emit (FlushBatchDurationObserve # (if 0 < processed then [FlushBatchEventsObserve processed] else [])) w)"

text \<open>\<open>flushAll\<close>; \<open>n\<close> is the number of batches its 30 seconds allow.\<close>

fun flushAll :: "process_func \<Rightarrow> nat \<Rightarrow> world \<Rightarrow> world" where
  "flushAll pf 0 w = w"
| "flushAll pf (Suc n) w =
     (case GetPendingEventsGrouped flushAllBatch w of
        (w, Inl e) \<Rightarrow> w
      | (w, Inr events) \<Rightarrow>
          if events = [] then w else
          let w = processEvents pf events w
          in if length events < flushAllBatch then w else flushAll pf n w)"

section \<open>Interleaving\<close>

text \<open>
  The callers of \<open>AddEvent\<close>, \<open>Stop\<close>, the ingest worker (loop, drain, done), the flush worker (idle,
  in a batch, in the final flush, done), and the surroundings: time passes, and other goroutines
  count, send to the event stream and use the engine, whose outcomes they take or leave.
\<close>

inductive svc_step :: "process_func \<Rightarrow> svc \<Rightarrow> svc \<Rightarrow> bool" for pf :: process_func where
  step_add: "has_room s \<Longrightarrow> svc_step pf s (send_event ev s)"
| step_stop: "svc_step pf s (s\<lparr>ctxDone := True\<rparr>)"
| step_take: "ingest_at s = IngestLoop \<Longrightarrow> ingestCh s = ev # rest \<Longrightarrow>
    svc_step pf s (ingest_take pf (ctxDone s) ev rest s)"
| step_tick: "ingest_at s = IngestLoop \<Longrightarrow> svc_step pf s (flushSpill (ctxDone s) s)"
| step_done: "ingest_at s = IngestLoop \<Longrightarrow> ctxDone s \<Longrightarrow> svc_step pf s (s\<lparr>ingest_at := IngestDrain\<rparr>)"
| step_drain: "ingest_at s = IngestDrain \<Longrightarrow> ingestCh s = ev # rest \<Longrightarrow>
    svc_step pf s (ingest_take pf False ev rest s)"
| step_drained: "ingest_at s = IngestDrain \<Longrightarrow> ingestCh s = [] \<Longrightarrow>
    svc_step pf s ((flushSpill False s)\<lparr>ingest_at := IngestDone\<rparr>)"
| step_fetch: "flush_at s = FlushIdle \<Longrightarrow> \<not> ctxDone s \<Longrightarrow> GetPendingEventsByAge maxAge batchSize (wrld s) = (w, Inr evs) \<Longrightarrow>
    svc_step pf s (s\<lparr>wrld := w, flush_at := FlushBatch evs\<rparr>)"
| step_fetch_error: "flush_at s = FlushIdle \<Longrightarrow> GetPendingEventsByAge maxAge batchSize (wrld s) = (w, Inl e) \<Longrightarrow>
    svc_step pf s (s\<lparr>wrld := w\<rparr>)"
| step_replay: "flush_at s = FlushBatch (ev # evs) \<Longrightarrow>
    svc_step pf s (s\<lparr>wrld := fst (pf ev (wrld s)), flush_at := FlushBatch evs\<rparr>)"
| step_batch_end: "flush_at s = FlushBatch [] \<Longrightarrow> svc_step pf s (s\<lparr>flush_at := FlushIdle\<rparr>)"
| step_final: "flush_at s = FlushIdle \<or> flush_at s = FlushFinal [] \<Longrightarrow> ctxDone s \<Longrightarrow> ingest_at s = IngestDone \<Longrightarrow>
    GetPendingEventsGrouped flushAllBatch (wrld s) = (w, Inr evs) \<Longrightarrow>
    svc_step pf s (s\<lparr>wrld := w, flush_at := FlushFinal evs\<rparr>)"
| step_final_error: "flush_at s = FlushIdle \<or> flush_at s = FlushFinal [] \<Longrightarrow> ctxDone s \<Longrightarrow> ingest_at s = IngestDone \<Longrightarrow>
    GetPendingEventsGrouped flushAllBatch (wrld s) = (w, Inl e) \<Longrightarrow>
    svc_step pf s (s\<lparr>wrld := w, flush_at := FlushDone\<rparr>)"
| step_final_replay: "flush_at s = FlushFinal (ev # evs) \<Longrightarrow>
    svc_step pf s (s\<lparr>wrld := fst (pf ev (wrld s)), flush_at := FlushFinal evs\<rparr>)"
| step_final_end: "flush_at s = FlushIdle \<or> flush_at s = FlushFinal [] \<Longrightarrow> ctxDone s \<Longrightarrow>
    ingest_at s = IngestDone \<Longrightarrow> svc_step pf s (s\<lparr>flush_at := FlushDone\<rparr>)"
| step_time: "svc_step pf s (s\<lparr>wrld := (wrld s)\<lparr>clock := t\<rparr>\<rparr>)"
| step_observe: "svc_step pf s (s\<lparr>wrld := (wrld s)\<lparr>tape := bs, mlog := mlog (wrld s) @ ms, sse := h\<rparr>\<rparr>)"

inductive_cases svc_stepE: "svc_step pf s s'"

definition svc_reachable :: "process_func \<Rightarrow> world \<Rightarrow> svc \<Rightarrow> bool" where
  "svc_reachable pf w s \<longleftrightarrow> (svc_step pf)\<^sup>*\<^sup>* (NewEventOrderingService w) s"

section \<open>Frames of the operations\<close>

lemma count_outcome_emit: "\<exists>ms. count_outcome o' evs w = emit ms w"
proof (induction evs arbitrary: w)
  case Nil
  show ?case by (auto simp: count_outcome_def emit_def intro: exI [of _ "[]"])
next
  case (Cons ev evs)
  obtain ms where "count_outcome o' evs (WebhookEventsTotal_Inc (EventType ev) o' w) =
      emit ms (WebhookEventsTotal_Inc (EventType ev) o' w)" using Cons.IH by blast
  then show ?case
    by (auto simp: count_outcome_def registry_defs emit_def intro!: exI [of _ "_ # ms"])
qed

lemma count_outcome_tables [simp]:
  "webhook_events (count_outcome o' evs w) = webhook_events w"
  "db_wf (count_outcome o' evs w) = db_wf w" "healthy (count_outcome o' evs w) = healthy w"
  using count_outcome_emit [of o' evs w] by auto

text \<open>The spill: written in full or lost in full; either way the buffer is empty afterwards.\<close>

lemma flushSpill_outcome:
  obtains (empty) "spill s = []" "flushSpill c s = s"
  | (stored) bs ms where "spill s \<noteq> []" "\<not> c" "flushSpill c s =
      s\<lparr>wrld := emit ms ((wrld s)\<lparr>tape := bs, webhook_events := fold put_event (spill s) (webhook_events (wrld s))\<rparr>),
        spill := [], fates := fates s @ map (\<lambda>ev. (ev, Spilled)) (spill s)\<rparr>"
  | (lost) bs ms where "spill s \<noteq> []" "c \<or> \<not> healthy (wrld s)" "flushSpill c s =
      s\<lparr>wrld := emit ms ((wrld s)\<lparr>tape := bs\<rparr>), spill := [],
        fates := fates s @ map (\<lambda>ev. (ev, SpillFailed)) (spill s)\<rparr>"
proof (cases "spill s = []")
  case True
  then show thesis by (intro empty) (simp_all add: flushSpill_def)
next
  case False
  show thesis
  proof (cases c)
    case True
    obtain ms where "count_outcome ''spill_failed'' (spill s) (wrld s) = emit ms (wrld s)"
      using count_outcome_emit by blast
    then show thesis using False True lost [of ms "tape (wrld s)"]
      by (simp add: flushSpill_def store_under_def)
  next
    case c: False
    show thesis
    proof (cases rule: StoreWebhookEvents_outcome [of "map Some (spill s)" "wrld s"])
      case o: (failed bs e)
      obtain ms where "count_outcome ''spill_failed'' (spill s) ((wrld s)\<lparr>tape := bs\<rparr>) = emit ms ((wrld s)\<lparr>tape := bs\<rparr>)"
        using count_outcome_emit by blast
      moreover have "\<not> healthy (wrld s)" using o StoreWebhookEvents_healthy [of "wrld s" "map Some (spill s)"] by auto
      ultimately show thesis using False c o lost [of ms bs]
        by (simp add: flushSpill_def store_under_def)
    next
      case o: (stored bs)
      define w' where "w' = (wrld s)\<lparr>tape := bs, webhook_events := fold put_event (spill s) (webhook_events (wrld s))\<rparr>"
      obtain ms where "count_outcome ''spilled'' (spill s) w' = emit ms w'"
        using count_outcome_emit by blast
      then show thesis using False c o stored [of ms bs]
        by (simp add: flushSpill_def store_under_def w'_def)
    qed
  qed
qed

lemma flushSpill_frame [simp]:
  "spill (flushSpill c s) = []" "ingestCh (flushSpill c s) = ingestCh s"
  "accepted (flushSpill c s) = accepted s" "taken (flushSpill c s) = taken s"
  "ctxDone (flushSpill c s) = ctxDone s" "ingest_at (flushSpill c s) = ingest_at s"
  "flush_at (flushSpill c s) = flush_at s"
  by (rule flushSpill_outcome [of s c]; simp)+

lemma flushSpill_fates: "map fst (fates (flushSpill c s)) = map fst (fates s) @ spill s"
  by (rule flushSpill_outcome [of s c]) (auto simp: comp_def)

lemma flushSpill_mset:
  "image_mset fst (mset (fates (flushSpill c s))) = image_mset fst (mset (fates s)) + mset (spill s)"
  using arg_cong [OF flushSpill_fates, of mset c s] by simp

lemma process_frame [simp]:
  "ingestCh (process pf ev s) = ingestCh s" "accepted (process pf ev s) = accepted s"
  "taken (process pf ev s) = taken s" "ctxDone (process pf ev s) = ctxDone s"
  "ingest_at (process pf ev s) = ingest_at s" "flush_at (process pf ev s) = flush_at s"
  by (auto simp: process_def split: prod.splits option.splits)

lemma process_spill:
  "length (spill (process pf ev s)) \<le> Suc (length (spill s))"
  "mset (spill (process pf ev s)) + mset (map fst (fates (process pf ev s))) =
     add_mset ev (mset (spill s) + mset (map fst (fates s)))"
  by (auto simp: process_def split: prod.splits option.splits)

lemma ingest_take_frame [simp]:
  "ingestCh (ingest_take pf c ev rest s) = rest" "accepted (ingest_take pf c ev rest s) = accepted s"
  "taken (ingest_take pf c ev rest s) = taken s @ [ev]" "ctxDone (ingest_take pf c ev rest s) = ctxDone s"
  "ingest_at (ingest_take pf c ev rest s) = ingest_at s" "flush_at (ingest_take pf c ev rest s) = flush_at s"
  by (simp_all add: ingest_take_def Let_def)

lemma ingest_take_spill:
  "length (spill (ingest_take pf c ev rest s)) < defaultIngestBatchSize"
  "mset (spill (ingest_take pf c ev rest s)) + mset (map fst (fates (ingest_take pf c ev rest s))) =
     add_mset ev (mset (spill s) + mset (map fst (fates s)))"
  using process_spill(2) [of pf ev "s\<lparr>ingestCh := rest, taken := taken s @ [ev]\<rparr>"]
  by (auto simp: ingest_take_def Let_def flushSpill_mset defaultIngestBatchSize_def union_commute)

section \<open>No event is dropped silently\<close>

text \<open>
  The invariant: the queue is bounded and first-in first-out, every event taken from it is in the
  spill buffer or has a fate, and the flush worker's final pass only starts when the ingest worker
  has emptied the buffer.
\<close>

definition svc_inv :: "svc \<Rightarrow> bool" where
  "svc_inv s \<longleftrightarrow>
     accepted s = taken s @ ingestCh s \<and>
     mset (taken s) = mset (spill s) + mset (map fst (fates s)) \<and>
     length (ingestCh s) \<le> defaultIngestChannelSize \<and>
     length (spill s) < defaultIngestBatchSize \<and>
     (ingest_at s \<noteq> IngestLoop \<longrightarrow> ctxDone s) \<and>
     (ingest_at s = IngestDone \<longrightarrow> spill s = []) \<and>
     ((\<exists>evs. flush_at s = FlushFinal evs) \<or> flush_at s = FlushDone \<longrightarrow> ingest_at s = IngestDone)"

lemma svc_inv_init: "svc_inv (NewEventOrderingService w)"
  by (simp add: svc_inv_def NewEventOrderingService_def defaultIngestBatchSize_def)

lemma svc_inv_take:
  "svc_inv s \<Longrightarrow> ingestCh s = ev # rest \<Longrightarrow> ingest_at s \<noteq> IngestDone \<Longrightarrow> svc_inv (ingest_take pf c ev rest s)"
  using ingest_take_spill [of pf c ev rest s] by (auto simp: svc_inv_def)

lemma svc_inv_flush: "svc_inv s \<Longrightarrow> svc_inv (flushSpill c s)"
  by (auto simp: svc_inv_def flushSpill_mset defaultIngestBatchSize_def union_commute)

lemma svc_inv_step: "svc_step pf s s' \<Longrightarrow> svc_inv s \<Longrightarrow> svc_inv s'"
proof (induction rule: svc_step.induct)
  case (step_add s ev)
  then show ?case by (auto simp: svc_inv_def send_event_def has_room_def)
next
  case (step_take s ev rest)
  then show ?case by (intro svc_inv_take) auto
next
  case (step_tick s)
  then show ?case by (intro svc_inv_flush)
next
  case (step_drain s ev rest)
  then show ?case by (intro svc_inv_take) auto
next
  case (step_drained s)
  then have "svc_inv (flushSpill False s)" by (intro svc_inv_flush)
  then show ?case using step_drained by (auto simp: svc_inv_def)
qed (auto simp: svc_inv_def)

lemma svc_inv_reachable: "svc_reachable pf w s \<Longrightarrow> svc_inv s"
  unfolding svc_reachable_def
  by (induction rule: rtranclp_induct) (auto intro: svc_inv_init svc_inv_step)

section \<open>Shutdown\<close>

text \<open>The drain loop is a run of the ingest worker, and it empties queue and buffer.\<close>

lemma drain_steps:
  "ingest_at s = IngestDrain \<Longrightarrow> ingestCh s = evs \<Longrightarrow> (svc_step pf)\<^sup>*\<^sup>* s (drain pf evs s)"
proof (induction evs arbitrary: s)
  case Nil
  then have "svc_step pf s (drain pf [] s)" by (simp add: step_drained)
  then show ?case by blast
next
  case (Cons ev evs)
  then have "svc_step pf s (ingest_take pf False ev evs s)" by (intro step_drain)
  moreover have "(svc_step pf)\<^sup>*\<^sup>* (ingest_take pf False ev evs s) (drain pf evs (ingest_take pf False ev evs s))"
    using Cons.prems by (intro Cons.IH) simp_all
  ultimately show ?case by (simp add: converse_rtranclp_into_rtranclp)
qed

lemma drain_result:
  "ingestCh s = evs \<Longrightarrow>
   ingestCh (drain pf evs s) = [] \<and> spill (drain pf evs s) = [] \<and> ingest_at (drain pf evs s) = IngestDone \<and>
   accepted (drain pf evs s) = accepted s"
  by (induction evs arbitrary: s) simp_all

lemma drain_accounts:
  assumes "svc_inv s" "ingest_at s = IngestDrain"
  shows "mset (map fst (fates (drain pf (ingestCh s) s))) = mset (accepted s)"
proof -
  have "(svc_step pf)\<^sup>*\<^sup>* s (drain pf (ingestCh s) s)" using assms(2) by (intro drain_steps) simp_all
  then have "svc_inv (drain pf (ingestCh s) s)"
    by (induction rule: rtranclp_induct) (auto intro: assms(1) svc_inv_step)
  then show ?thesis using drain_result [of s "ingestCh s" pf] by (auto simp: svc_inv_def)
qed

text \<open>The final flush is a run of the flush worker.\<close>

lemma replay_steps:
  "flush_at s = FlushFinal evs \<Longrightarrow>
   (svc_step pf)\<^sup>*\<^sup>* s (s\<lparr>wrld := processEvents pf evs (wrld s), flush_at := FlushFinal []\<rparr>)"
proof (induction evs arbitrary: s)
  case Nil
  then have "s\<lparr>wrld := wrld s, flush_at := FlushFinal []\<rparr> = s" by (cases s) simp
  then show ?case by simp
next
  case (Cons ev evs)
  define t where "t = s\<lparr>wrld := fst (pf ev (wrld s)), flush_at := FlushFinal evs\<rparr>"
  have "svc_step pf s t" unfolding t_def using Cons.prems by (rule step_final_replay)
  moreover have "(svc_step pf)\<^sup>*\<^sup>* t (t\<lparr>wrld := processEvents pf evs (wrld t), flush_at := FlushFinal []\<rparr>)"
    by (rule Cons.IH) (simp add: t_def)
  ultimately show ?case by (simp add: t_def converse_rtranclp_into_rtranclp)
qed

lemma flushAll_steps:
  assumes "flush_at s = FlushIdle \<or> flush_at s = FlushFinal []" "ctxDone s" "ingest_at s = IngestDone"
  shows "(svc_step pf)\<^sup>*\<^sup>* s (s\<lparr>wrld := flushAll pf n (wrld s), flush_at := FlushDone\<rparr>)"
  using assms
proof (induction n arbitrary: s)
  case 0
  then have "svc_step pf s (s\<lparr>flush_at := FlushDone\<rparr>)" by (rule step_final_end)
  then show ?case by (cases s) auto
next
  case (Suc n)
  obtain w r where g: "GetPendingEventsGrouped flushAllBatch (wrld s) = (w, r)"
    by (cases "GetPendingEventsGrouped flushAllBatch (wrld s)")
  show ?case
  proof (cases r)
    case (Inl e)
    with g Suc.prems have "svc_step pf s (s\<lparr>wrld := w, flush_at := FlushDone\<rparr>)"
      by (intro step_final_error) auto
    with g Inl show ?thesis by auto
  next
    case (Inr evs)
    define t where "t = s\<lparr>wrld := w, flush_at := FlushFinal evs\<rparr>"
    define u where "u = s\<lparr>wrld := processEvents pf evs w, flush_at := FlushFinal []\<rparr>"
    have st: "svc_step pf s t" unfolding t_def using g Inr Suc.prems by (intro step_final) auto
    have tu: "(svc_step pf)\<^sup>*\<^sup>* t u" using replay_steps [of t evs pf] by (simp add: t_def u_def)
    have ue: "(svc_step pf)\<^sup>*\<^sup>* u (s\<lparr>wrld := processEvents pf evs w, flush_at := FlushDone\<rparr>)"
      using step_final_end [of u pf] Suc.prems by (auto simp: u_def)
    have un: "(svc_step pf)\<^sup>*\<^sup>* u (s\<lparr>wrld := flushAll pf n (processEvents pf evs w), flush_at := FlushDone\<rparr>)"
      using Suc.IH [of u] Suc.prems by (simp add: u_def)
    from st tu have su: "(svc_step pf)\<^sup>*\<^sup>* s u" by (rule converse_rtranclp_into_rtranclp)
    show ?thesis
      using rtranclp_trans [OF su ue] rtranclp_trans [OF su un]
      by (cases "evs = []") (auto simp: g Inr Let_def)
  qed
qed

text \<open>Once the ingest worker has finished, nothing takes events from the queue any more.\<close>

lemma done_step: "svc_step pf s s' \<Longrightarrow> ingest_at s = IngestDone \<Longrightarrow> ingest_at s' = IngestDone \<and>
    set (ingestCh s) \<subseteq> set (ingestCh s') \<and> taken s' = taken s \<and> fates s' = fates s"
  by (induction rule: svc_step.induct) (auto simp: send_event_def)

lemma done_run: "(svc_step pf)\<^sup>*\<^sup>* s s' \<Longrightarrow> ingest_at s = IngestDone \<Longrightarrow> ingest_at s' = IngestDone \<and>
    set (ingestCh s) \<subseteq> set (ingestCh s') \<and> taken s' = taken s \<and> fates s' = fates s"
  by (induction rule: rtranclp_induct) (auto dest: done_step)

section \<open>The contract of processFunc\<close>

definition is_pending :: "event_row \<Rightarrow> bool" where
  "is_pending r \<longleftrightarrow> er_status r = ''pending''"

definition pending_rows :: "('a dbw_scheme) \<Rightarrow> event_row list" where
  "pending_rows w = filter is_pending (webhook_events w)"

lemma pending_query_frame:
  "GetPendingEventsByAge a n w = (w', r) \<Longrightarrow> \<exists>bs. w' = w\<lparr>tape := bs\<rparr>"
  "GetPendingEventsGrouped n w = (w', r) \<Longrightarrow> \<exists>bs. w' = w\<lparr>tape := bs\<rparr>"
proof -
  obtain b1 t1 b2 t2 where e: "engine w = (b1, w\<lparr>tape := t1\<rparr>)"
    "engine (w\<lparr>tape := t1\<rparr>) = (b2, w\<lparr>tape := t2\<rparr>)" by (rule engine_twice)
  show "GetPendingEventsByAge a n w = (w', r) \<Longrightarrow> \<exists>bs. w' = w\<lparr>tape := bs\<rparr>"
    by (auto simp: GetPendingEventsByAge_def Let_def e split: sum.splits if_splits)
  show "GetPendingEventsGrouped n w = (w', r) \<Longrightarrow> \<exists>bs. w' = w\<lparr>tape := bs\<rparr>"
    by (auto simp: GetPendingEventsGrouped_def e split: sum.splits if_splits)
qed

lemma GetPendingEventsGrouped_healthy:
  assumes "healthy w" "db_wf w"
  shows "GetPendingEventsGrouped n w = (w, Inr (map event_of_row (select_ordered is_pending n (webhook_events w))))"
proof -
  have "scan_events (select_ordered is_pending n (webhook_events w)) =
      Inr (map event_of_row (select_ordered is_pending n (webhook_events w)))"
    using assms(2) by (intro scan_pending) (auto simp: db_wf_def is_pending_def)
  then show ?thesis using assms(1)
    by (simp add: GetPendingEventsGrouped_def is_pending_def [abs_def])
qed

text \<open>
  What the service relies on: the call keeps the tables well formed and removes no event row, it
  does not touch \<open>webhook_events\<close> for an event that was never stored, it takes a replayed event of
  a registered type out of the pending set, and only unregistered types fail permanently.
\<close>

locale process_contract =
  fixes pf :: process_func and registered :: "string \<Rightarrow> bool"
  assumes pf_wf: "db_wf w \<Longrightarrow> db_wf (fst (pf ev w))"
    and pf_ids: "map er_delivery_id (webhook_events (fst (pf ev w))) = map er_delivery_id (webhook_events w)"
    and pf_direct: "\<not> Persisted ev \<Longrightarrow> webhook_events (fst (pf ev w)) = webhook_events w"
    and pf_replay: "healthy w \<Longrightarrow> Persisted ev \<Longrightarrow> registered (EventType ev) \<Longrightarrow>
      pending_rows (fst (pf ev w)) =
        filter (\<lambda>r. er_delivery_id r \<noteq> DeliveryID (Sequence ev)) (pending_rows w)"
    and pf_healthy: "healthy w \<Longrightarrow> healthy (fst (pf ev w))"
    and pf_permanent: "snd (pf ev w) = Some e \<Longrightarrow> IsPermanent e \<longleftrightarrow> \<not> registered (EventType ev)"
begin

lemma processEvents_healthy: "healthy w \<Longrightarrow> healthy (processEvents pf evs w)"
  by (induction evs arbitrary: w) (simp_all add: pf_healthy)

lemma processEvents_wf: "db_wf w \<Longrightarrow> db_wf (processEvents pf evs w)"
  by (induction evs arbitrary: w) (simp_all add: pf_wf)

lemma processEvents_pending:
  "healthy w \<Longrightarrow> \<forall>ev \<in> set evs. Persisted ev \<and> registered (EventType ev) \<Longrightarrow>
   pending_rows (processEvents pf evs w) =
     filter (\<lambda>r. er_delivery_id r \<notin> (DeliveryID \<circ> Sequence) ` set evs) (pending_rows w)"
  by (induction evs arbitrary: w) (auto simp: pf_healthy pf_replay intro!: filter_cong)

text \<open>Every reachable state keeps the tables well formed, and no spilled event loses its row.\<close>

lemma store_ids:
  "er_delivery_id ` set rows \<union> (DeliveryID \<circ> Sequence) ` set evs \<subseteq> er_delivery_id ` set (fold put_event evs rows)"
proof (induction evs arbitrary: rows)
  case Nil
  then show ?case by simp
next
  case (Cons ev evs)
  have "er_delivery_id ` set rows \<union> {DeliveryID (Sequence ev)} \<subseteq> er_delivery_id ` set (put_event ev rows)"
    using arg_cong [OF keys_upsert, of set er_delivery_id "event_row_of ev" rows]
    by (auto simp: put_event_def)
  with Cons.IH [of "put_event ev rows"] show ?case by (auto 4 4 dest: subsetD)
qed

definition spilled_stored :: "svc \<Rightarrow> bool" where
  "spilled_stored s \<longleftrightarrow> db_wf (wrld s) \<and>
     (\<forall>ev. (ev, Spilled) \<in> set (fates s) \<longrightarrow>
        DeliveryID (Sequence ev) \<in> er_delivery_id ` set (webhook_events (wrld s)))"

lemma pf_id_set: "er_delivery_id ` set (webhook_events (fst (pf ev w))) = er_delivery_id ` set (webhook_events w)"
  using arg_cong [OF pf_ids, of set ev w] by simp

lemma spilled_stored_flush: "spilled_stored s \<Longrightarrow> spilled_stored (flushSpill c s)"
proof (rule flushSpill_outcome [of s c])
  fix bs ms
  assume s: "spilled_stored s" and "flushSpill c s =
      s\<lparr>wrld := emit ms ((wrld s)\<lparr>tape := bs, webhook_events := fold put_event (spill s) (webhook_events (wrld s))\<rparr>),
        spill := [], fates := fates s @ map (\<lambda>ev. (ev, Spilled)) (spill s)\<rparr>"
  then show ?thesis using store_ids [of "webhook_events (wrld s)" "spill s"]
    by (auto simp: spilled_stored_def db_wf_def events_wf_fold_put)
qed (auto simp: spilled_stored_def)

lemma spilled_stored_process: "spilled_stored s \<Longrightarrow> spilled_stored (process pf ev s)"
  using pf_wf [of "wrld s" ev] pf_id_set [of ev "wrld s"]
  by (auto simp: spilled_stored_def process_def WebhookEventsTotal_Inc_def split: prod.splits option.splits)

lemma spilled_stored_take: "spilled_stored s \<Longrightarrow> spilled_stored (ingest_take pf c ev rest s)"
  using spilled_stored_process [of "s\<lparr>ingestCh := rest, taken := taken s @ [ev]\<rparr>" ev] spilled_stored_flush
  by (auto simp: ingest_take_def Let_def spilled_stored_def [of "s\<lparr>ingestCh := rest, taken := taken s @ [ev]\<rparr>"]
      spilled_stored_def [of s])

lemma spilled_stored_tape: "spilled_stored (s\<lparr>wrld := (wrld s)\<lparr>tape := bs\<rparr>, flush_at := f\<rparr>) = spilled_stored s"
  by (simp add: spilled_stored_def)

lemma spilled_stored_replay:
  "spilled_stored s \<Longrightarrow> spilled_stored (s\<lparr>wrld := fst (pf ev (wrld s)), flush_at := f\<rparr>)"
  using pf_wf [of "wrld s" ev] pf_id_set [of ev "wrld s"] by (simp add: spilled_stored_def)

lemma spilled_stored_step: "svc_step pf s s' \<Longrightarrow> spilled_stored s \<Longrightarrow> spilled_stored s'"
proof (induction rule: svc_step.induct)
  case (step_drained s)
  then have "spilled_stored (flushSpill False s)" by (intro spilled_stored_flush)
  then show ?case by (simp add: spilled_stored_def)
next
  case (step_fetch s w evs)
  then show ?case using pending_query_frame(1) spilled_stored_tape by blast
next
  case (step_fetch_error s w e)
  from pending_query_frame(1) [OF this(2)] this(3) show ?case by (auto simp: spilled_stored_def)
next
  case (step_final s w evs)
  then show ?case using pending_query_frame(2) spilled_stored_tape by blast
next
  case (step_final_error s w e)
  then show ?case using pending_query_frame(2) spilled_stored_tape by blast
qed (auto intro: spilled_stored_take spilled_stored_flush spilled_stored_replay,
     auto simp: spilled_stored_def send_event_def)

lemma spilled_stored_reachable:
  assumes "svc_reachable pf w s" "db_wf w"
  shows "spilled_stored s"
proof -
  have "spilled_stored (NewEventOrderingService w)"
    using assms(2) by (simp add: spilled_stored_def NewEventOrderingService_def)
  with assms(1) show ?thesis unfolding svc_reachable_def
    by (induction rule: rtranclp_induct) (auto intro: spilled_stored_step)
qed

text \<open>The final flush empties the pending set, given time for enough batches.\<close>

lemma processEvents_selected:
  fixes w :: world and n :: nat
  assumes "healthy w" "db_wf w" "\<forall>r \<in> set (pending_rows w). registered (er_event_type r)"
  defines "sel \<equiv> select_ordered is_pending n (webhook_events w)"
  defines "w' \<equiv> processEvents pf (map event_of_row sel) w"
  shows "length (pending_rows w') + length sel = length (pending_rows w)"
    and "set (pending_rows w') \<subseteq> set (pending_rows w)"
proof -
  have sub: "set sel \<subseteq> set (pending_rows w)"
    using select_ordered_set [of is_pending n "webhook_events w"] by (auto simp: sel_def pending_rows_def)
  then have "\<forall>ev \<in> set (map event_of_row sel). Persisted ev \<and> registered (EventType ev)"
    using assms(3) by (auto simp: event_of_row_def)
  then have p: "pending_rows w' = filter (\<lambda>r. er_delivery_id r \<notin> er_delivery_id ` set sel) (pending_rows w)"
    using processEvents_pending [OF assms(1), of "map event_of_row sel"]
    by (simp add: w'_def image_image event_of_row_def)
  have pk: "pk_distinct er_delivery_id (webhook_events w)"
    using assms(2) by (simp add: db_wf_def events_wf_def)
  then have "pk_distinct er_delivery_id (pending_rows w)"
    by (simp add: pending_rows_def pk_distinct_def distinct_map_filter)
  then show "length (pending_rows w') + length sel = length (pending_rows w)"
    unfolding p using pk sub by (intro length_remove_picked) (simp_all add: sel_def select_ordered_distinct)
  show "set (pending_rows w') \<subseteq> set (pending_rows w)" by (auto simp: p)
qed

lemma flushAll_drains:
  assumes "healthy w" "db_wf w" "\<forall>r \<in> set (pending_rows w). registered (er_event_type r)"
    "length (pending_rows w) < n * flushAllBatch"
  shows "pending_rows (flushAll pf n w) = []"
  using assms
proof (induction n arbitrary: w)
  case 0
  then show ?case by simp
next
  case (Suc n)
  define sel where "sel = select_ordered is_pending flushAllBatch (webhook_events w)"
  define w' where "w' = processEvents pf (map event_of_row sel) w"
  have len: "length sel = min flushAllBatch (length (pending_rows w))"
    by (simp add: sel_def select_ordered_length pending_rows_def)
  have step: "length (pending_rows w') + length sel = length (pending_rows w)"
    and sub: "set (pending_rows w') \<subseteq> set (pending_rows w)"
    using processEvents_selected [OF Suc.prems(1-3), of flushAllBatch] by (simp_all add: w'_def sel_def)
  have ih: "length (pending_rows w') < n * flushAllBatch \<Longrightarrow> pending_rows (flushAll pf n w') = []"
    using Suc.prems sub
    by (intro Suc.IH) (auto simp: w'_def processEvents_healthy processEvents_wf)
  have g: "GetPendingEventsGrouped flushAllBatch w = (w, Inr (map event_of_row sel))"
    using GetPendingEventsGrouped_healthy [OF Suc.prems(1,2)] by (simp add: sel_def)
  consider "sel = []" | "sel \<noteq> []" "length sel < flushAllBatch" | "length sel = flushAllBatch"
    using len by linarith
  then show ?case
  proof cases
    case 1
    then show ?thesis using len g by (simp add: flushAllBatch_def min_def split: if_splits)
  next
    case 2
    then show ?thesis using len g step by (auto simp: w'_def Let_def)
  next
    case 3
    then have "sel \<noteq> []" by (auto simp: flushAllBatch_def)
    with 3 show ?thesis using g ih step Suc.prems(4) by (auto simp: w'_def Let_def)
  qed
qed

end

end
