(* ===== verification/Crypto.thy ===== *)
theory Crypto
  imports GoJson
begin

text \<open>
  The library functions the signature check of \<open>handlers/webhook_handler.go\<close> uses:
  \<open>encoding/hex\<close>, \<open>crypto/sha256\<close> (FIPS 180-4, on 32-bit words) and \<open>crypto/hmac\<close>.
\<close>

unbundle bit_operations_syntax

section \<open>Hexadecimal\<close>

definition hex_encode :: "bytes \<Rightarrow> string" where
  "hex_encode bs = concat (map (\<lambda>b. [hex_digit (of_char b div 16), hex_digit (of_char b mod 16)]) bs)"

definition from_hex :: "char \<Rightarrow> nat option" where
  "from_hex c =
     (if CHR ''0'' \<le> c \<and> c \<le> CHR ''9'' then Some (of_char c - 48)
      else if CHR ''a'' \<le> c \<and> c \<le> CHR ''f'' then Some (of_char c - 87)
      else if CHR ''A'' \<le> c \<and> c \<le> CHR ''F'' then Some (of_char c - 55)
      else None)"

text \<open>\<open>hex.DecodeString\<close>: an odd length or a digit out of range is an error.\<close>

fun hex_decode :: "string \<Rightarrow> bytes option" where
  "hex_decode [] = Some []"
| "hex_decode [c] = None"
| "hex_decode (c # d # s) =
     (case from_hex c of None \<Rightarrow> None | Some h \<Rightarrow>
      case from_hex d of None \<Rightarrow> None | Some l \<Rightarrow>
      map_option (\<lambda>bs. char_of (h * 16 + l) # bs) (hex_decode s))"

lemma from_hex_digits: "list_all (\<lambda>n. from_hex (hex_digit n) = Some n) [0..<16]"
  by code_simp

lemma from_hex_digit: "n < 16 \<Longrightarrow> from_hex (hex_digit n) = Some n"
  using from_hex_digits by (simp add: list_all_iff)

lemma hex_round_trip: "hex_decode (hex_encode bs) = Some bs"
proof (induction bs)
  case Nil
  show ?case by (simp add: hex_encode_def)
next
  case (Cons b bs)
  have "(of_char b :: nat) div 16 < 16"
    using of_char_bound [of b] by (simp add: div_less_iff_less_mult)
  then show ?case using Cons.IH by (simp add: hex_encode_def from_hex_digit)
qed

interpretation hex: codec hex_encode hex_decode
  by unfold_locales (rule hex_round_trip)

lemma hex_encode_not_Nil: "bs \<noteq> [] \<Longrightarrow> hex_encode bs \<noteq> []"
  by (cases bs) (simp_all add: hex_encode_def)

section \<open>SHA-256\<close>

type_synonym w32 = "32 word"

text \<open>The first 32 bits of the fractional parts of the cube (square) roots of the first primes.\<close>

definition sha256_k :: "w32 list" where
  "sha256_k =
     [1116352408, 1899447441, 3049323471, 3921009573, 961987163, 1508970993, 2453635748, 2870763221,
      3624381080, 310598401, 607225278, 1426881987, 1925078388, 2162078206, 2614888103, 3248222580,
      3835390401, 4022224774, 264347078, 604807628, 770255983, 1249150122, 1555081692, 1996064986,
      2554220882, 2821834349, 2952996808, 3210313671, 3336571891, 3584528711, 113926993, 338241895,
      666307205, 773529912, 1294757372, 1396182291, 1695183700, 1986661051, 2177026350, 2456956037,
      2730485921, 2820302411, 3259730800, 3345764771, 3516065817, 3600352804, 4094571909, 275423344,
      430227734, 506948616, 659060556, 883997877, 958139571, 1322822218, 1537002063, 1747873779,
      1955562222, 2024104815, 2227730452, 2361852424, 2428436474, 2756734187, 3204031479, 3329325298]"

definition sha256_init :: "w32 list" where
  "sha256_init = [1779033703, 3144134277, 1013904242, 2773480762, 1359893119, 2600822924, 528734635, 1541459225]"

fun chunks :: "nat \<Rightarrow> 'x list \<Rightarrow> 'x list list" where
  "chunks n xs = (if n = 0 \<or> xs = [] then [] else take n xs # chunks n (drop n xs))"

declare chunks.simps [simp del]

definition be_word :: "bytes \<Rightarrow> w32" where
  "be_word bs = fold (\<lambda>b w. push_bit 8 w OR word_of_nat (of_char b)) bs 0"

definition be_bytes :: "w32 \<Rightarrow> bytes" where
  "be_bytes w = map (\<lambda>k. char_of (unat (drop_bit k w AND 0xff))) [24, 16, 8, 0]"

definition sha256_pad :: "bytes \<Rightarrow> bytes" where
  "sha256_pad msg =
     msg @ char_of (128 :: nat) # replicate ((119 - length msg mod 64) mod 64) (char_of (0 :: nat)) @
     map (\<lambda>k. char_of (8 * length msg div 256 ^ k mod 256)) [7, 6, 5, 4, 3, 2, 1, 0]"

definition small_sigma :: "nat \<Rightarrow> nat \<Rightarrow> nat \<Rightarrow> w32 \<Rightarrow> w32" where
  "small_sigma a b c w = word_rotr a w XOR word_rotr b w XOR drop_bit c w"

definition big_sigma :: "nat \<Rightarrow> nat \<Rightarrow> nat \<Rightarrow> w32 \<Rightarrow> w32" where
  "big_sigma a b c w = word_rotr a w XOR word_rotr b w XOR word_rotr c w"

text \<open>The message schedule: \<open>n\<close> more words appended to the sixteen of the block.\<close>

fun sha256_schedule :: "nat \<Rightarrow> w32 list \<Rightarrow> w32 list" where
  "sha256_schedule 0 ws = ws"
| "sha256_schedule (Suc n) ws =
     (let t = length ws in
      sha256_schedule n (ws @ [small_sigma 17 19 10 (ws ! (t - 2)) + ws ! (t - 7) +
                               small_sigma 7 18 3 (ws ! (t - 15)) + ws ! (t - 16)]))"

fun sha256_round :: "w32 \<times> w32 \<Rightarrow> w32 list \<Rightarrow> w32 list" where
  "sha256_round (k, w) [a, b, c, d, e, f, g, h] =
     (let t1 = h + big_sigma 6 11 25 e + ((e AND f) XOR (NOT e AND g)) + k + w;
          t2 = big_sigma 2 13 22 a + ((a AND b) XOR (a AND c) XOR (b AND c))
      in [t1 + t2, a, b, c, d + t1, e, f, g])"
| "sha256_round kw st = st"

definition sha256_block :: "bytes \<Rightarrow> w32 list \<Rightarrow> w32 list" where
  "sha256_block block st =
     map2 (+) st (fold sha256_round (zip sha256_k (sha256_schedule 48 (map be_word (chunks 4 block)))) st)"

definition sha256 :: "bytes \<Rightarrow> bytes" where
  "sha256 msg = concat (map be_bytes (fold sha256_block (chunks 64 (sha256_pad msg)) sha256_init))"

section \<open>HMAC\<close>

definition xor_byte :: "nat \<Rightarrow> char \<Rightarrow> char" where
  "xor_byte m c = char_of (unat ((word_of_nat (of_char c) :: 8 word) XOR word_of_nat m))"

definition hmac_key :: "bytes \<Rightarrow> bytes" where
  "hmac_key key =
     (let k = (if 64 < length key then sha256 key else key)
      in k @ replicate (64 - length k) (char_of (0 :: nat)))"

definition hmac_sha256 :: "bytes \<Rightarrow> bytes \<Rightarrow> bytes" where
  "hmac_sha256 key msg =
     sha256 (map (xor_byte 0x5c) (hmac_key key) @ sha256 (map (xor_byte 0x36) (hmac_key key) @ msg))"

section \<open>Lengths\<close>

lemma sha256_round_length: "length (sha256_round kw st) = length st"
  by (induction kw st rule: sha256_round.induct) (simp_all add: Let_def)

lemma fold_round_length: "length (fold sha256_round kws st) = length st"
  by (induction kws arbitrary: st) (simp_all add: sha256_round_length)

lemma sha256_block_length: "length (sha256_block block st) = length st"
  by (simp add: sha256_block_def fold_round_length)

lemma fold_block_length: "length (fold sha256_block blocks st) = length st"
  by (induction blocks arbitrary: st) (simp_all add: sha256_block_length)

lemma concat_be_bytes_length: "length (concat (map be_bytes ws)) = 4 * length ws"
  by (induction ws) (simp_all add: be_bytes_def)

text \<open>Every digest has 32 bytes.\<close>

lemma sha256_length: "length (sha256 msg) = 32"
  by (simp add: sha256_def concat_be_bytes_length fold_block_length sha256_init_def)

lemma hmac_length: "length (hmac_sha256 key msg) = 32"
  by (simp add: hmac_sha256_def sha256_length)

end
