(* ===== verification/GoUrl.thy ===== *)
theory GoUrl
  imports Crypto
begin

text \<open>
  The parts of \<open>net/url\<close> and \<open>net\<close> the program uses, for Go 1.24: query escaping
  (\<open>QueryEscape\<close>, \<open>QueryUnescape\<close>), \<open>Parse\<close> with the fields \<open>Scheme\<close> and \<open>Host\<close>, \<open>Hostname\<close>,
  and \<open>net.SplitHostPort\<close>.  The two escapings are inverse (\<open>query_round_trip\<close>).
\<close>

section \<open>Query escaping\<close>

fun query_unescape :: "bytes \<Rightarrow> bytes option" where
  "query_unescape [] = Some []"
| "query_unescape (c # s) =
     (if c = CHR ''%'' then
        (case s of h # l # s' \<Rightarrow>
           (case from_hex h of None \<Rightarrow> None | Some x \<Rightarrow>
            case from_hex l of None \<Rightarrow> None | Some y \<Rightarrow>
            map_option (\<lambda>bs. char_of (x * 16 + y) # bs) (query_unescape s'))
         | _ \<Rightarrow> None)
      else map_option (\<lambda>bs. (if c = CHR ''+'' then CHR '' '' else c) # bs) (query_unescape s))"

definition is_letter :: "char \<Rightarrow> bool" where
  "is_letter c \<longleftrightarrow> (CHR ''a'' \<le> c \<and> c \<le> CHR ''z'') \<or> (CHR ''A'' \<le> c \<and> c \<le> CHR ''Z'')"

definition unreserved :: "char \<Rightarrow> bool" where
  "unreserved c \<longleftrightarrow> is_letter c \<or> is_digit c \<or> c \<in> set ''-_.~''"

definition upper_hex :: "nat \<Rightarrow> char" where
  "upper_hex n = ''0123456789ABCDEF'' ! n"

definition escape_char :: "char \<Rightarrow> string" where
  "escape_char c =
     (if unreserved c then [c]
      else if c = CHR '' '' then ''+''
      else [CHR ''%'', upper_hex (of_char c div 16), upper_hex (of_char c mod 16)])"

definition query_escape :: "bytes \<Rightarrow> string" where
  "query_escape s = concat (map escape_char s)"

lemma from_hex_uppers: "list_all (\<lambda>n. from_hex (upper_hex n) = Some n) [0..<16]"
  by code_simp

lemma from_hex_upper: "n < 16 \<Longrightarrow> from_hex (upper_hex n) = Some n"
  using from_hex_uppers by (simp add: list_all_iff)

lemma uppers_plain: "list_all (\<lambda>n. upper_hex n \<notin> set ''&?=+%'') [0..<16]"
  by code_simp

lemma upper_plain: "n < 16 \<Longrightarrow> upper_hex n \<notin> set ''&?=+%''"
  using uppers_plain by (simp add: list_all_iff)

lemma hex_halves: "(of_char c :: nat) div 16 < 16" "(of_char c :: nat) mod 16 < 16"
  using of_char_bound [of c] by (simp_all add: div_less_iff_less_mult)

lemma unescape_char: "query_unescape (escape_char c @ s) = map_option ((#) c) (query_unescape s)"
proof -
  have plain: "\<not> unreserved (CHR ''%'')" "\<not> unreserved (CHR ''+'')" by code_simp+
  show ?thesis
  proof (cases "unreserved c \<or> c = CHR '' ''")
    case True
    then show ?thesis using plain by (auto simp: escape_char_def)
  next
    case False
    have "of_char c div 16 * 16 + of_char c mod 16 = (of_char c :: nat)" by simp
    then show ?thesis using False hex_halves [of c]
      by (simp add: escape_char_def from_hex_upper)
  qed
qed

lemma query_round_trip: "query_unescape (query_escape s) = Some s"
  by (induction s) (simp_all add: query_escape_def unescape_char)

lemma escape_char_plain: "x \<in> set (escape_char c) \<Longrightarrow> x \<notin> set ''&?=''"
proof -
  have "\<not> unreserved (CHR ''&'')" "\<not> unreserved (CHR ''?'')" "\<not> unreserved (CHR ''='')" by code_simp+
  moreover assume "x \<in> set (escape_char c)"
  ultimately show ?thesis
    using upper_plain [OF hex_halves(1) [of c]] upper_plain [OF hex_halves(2) [of c]]
    by (auto simp: escape_char_def split: if_splits)
qed

lemma query_escape_plain: "x \<in> set (query_escape s) \<Longrightarrow> x \<notin> set ''&?=''"
  using escape_char_plain by (fastforce simp: query_escape_def)

section \<open>Cutting strings\<close>

definition before :: "char \<Rightarrow> string \<Rightarrow> string" where
  "before c s = takeWhile (\<lambda>x. x \<noteq> c) s"

definition after :: "char \<Rightarrow> string \<Rightarrow> string" where
  "after c s = drop 1 (dropWhile (\<lambda>x. x \<noteq> c) s)"

text \<open>The parts around the last occurrence.\<close>

definition last_cut :: "char \<Rightarrow> string \<Rightarrow> (string \<times> string) option" where
  "last_cut c s = (if c \<in> set s then Some (rev (after c (rev s)), rev (before c (rev s))) else None)"

definition starts :: "string \<Rightarrow> string \<Rightarrow> bool" where
  "starts p s \<longleftrightarrow> take (length p) s = p"

text \<open>\<open>strings.Split\<close> on a one-character separator.\<close>

fun split_on :: "char \<Rightarrow> string \<Rightarrow> string list" where
  "split_on c [] = [[]]"
| "split_on c (x # s) =
     (if x = c then [] # split_on c s
      else (case split_on c s of [] \<Rightarrow> [[x]] | p # ps \<Rightarrow> (x # p) # ps))"

lemma split_on_none: "c \<notin> set s \<Longrightarrow> split_on c s = [s]"
  by (induction s) auto

lemma split_on_append: "c \<notin> set s \<Longrightarrow> split_on c (s @ c # t) = s # split_on c t"
  by (induction s) auto

lemma before_none: "c \<notin> set s \<Longrightarrow> before c s = s"
  by (auto simp: before_def takeWhile_eq_all_conv)

lemma after_none: "c \<notin> set s \<Longrightarrow> after c s = []"
  by (simp add: after_def) (metis (mono_tags) dropWhile_eq_Nil_conv le0 list.size(3))

lemma before_append: "c \<notin> set s \<Longrightarrow> before c (s @ c # t) = s"
  by (simp add: before_def takeWhile_append)

section \<open>\<open>Parse\<close>\<close>

record url =
  u_Scheme :: string
  u_Host :: string

text \<open>Every percent sign starts an escape: what unescaping a path, a fragment or a user name checks.\<close>

fun pct_ok :: "string \<Rightarrow> bool" where
  "pct_ok [] = True"
| "pct_ok (c # s) =
     (if c = CHR ''%'' then
        (case s of h # l # s' \<Rightarrow> from_hex h \<noteq> None \<and> from_hex l \<noteq> None \<and> pct_ok s' | _ \<Rightarrow> False)
      else pct_ok s)"

definition host_char :: "char \<Rightarrow> bool" where
  "host_char c \<longleftrightarrow> unreserved c \<or> c \<in> set ''!$&()*+,;=:[]<>'' \<or> c = CHR 0x22 \<or> c = CHR 0x27"

definition ascii_char :: "char \<Rightarrow> bool" where
  "ascii_char c \<longleftrightarrow> of_char c < (128 :: nat)"

text \<open>\<open>unescape\<close> in the modes \<open>encodeHost\<close> and \<open>encodeZone\<close>.\<close>

fun unescape_host :: "bool \<Rightarrow> string \<Rightarrow> string option" where
  "unescape_host zone [] = Some []"
| "unescape_host zone (c # s) =
     (if c = CHR ''%'' then
        (case s of h # l # s' \<Rightarrow>
           (case from_hex h of None \<Rightarrow> None | Some x \<Rightarrow>
            case from_hex l of None \<Rightarrow> None | Some y \<Rightarrow>
            let v = char_of (x * 16 + y); is25 = (h = CHR ''2'' \<and> l = CHR ''5'') in
            if (if zone then \<not> is25 \<and> v \<noteq> CHR '' '' \<and> \<not> host_char v else x < 8 \<and> \<not> is25) then None
            else map_option ((#) v) (unescape_host zone s'))
         | _ \<Rightarrow> None)
      else if ascii_char c \<and> \<not> host_char c then None
      else map_option ((#) c) (unescape_host zone s))"

definition validOptionalPort :: "string \<Rightarrow> bool" where
  "validOptionalPort p \<longleftrightarrow> p = [] \<or> (hd p = CHR '':'' \<and> list_all is_digit (tl p))"

text \<open>The first \<open>%25\<close>, which starts the zone of an IPv6 literal.\<close>

fun cut_zone :: "string \<Rightarrow> (string \<times> string) option" where
  "cut_zone [] = None"
| "cut_zone (c # s) =
     (if starts ''%25'' (c # s) then Some ([], c # s)
      else map_option (\<lambda>(a, b). (c # a, b)) (cut_zone s))"

definition parseHost :: "string \<Rightarrow> string option" where
  "parseHost host =
     (if starts ''['' host then
        (case last_cut (CHR '']'') host of
           None \<Rightarrow> None
         | Some (inside, colonPort) \<Rightarrow>
             if \<not> validOptionalPort colonPort then None else
             (case cut_zone inside of
                None \<Rightarrow> unescape_host False host
              | Some (a, z) \<Rightarrow>
                  (case (unescape_host False a, unescape_host True z, unescape_host False ('']'' @ colonPort)) of
                     (Some h1, Some h2, Some h3) \<Rightarrow> Some (h1 @ h2 @ h3)
                   | _ \<Rightarrow> None)))
      else
        (case last_cut (CHR '':'') host of
           None \<Rightarrow> unescape_host False host
         | Some (_, port) \<Rightarrow> if validOptionalPort ('':'' @ port) then unescape_host False host else None))"

definition userinfo_char :: "char \<Rightarrow> bool" where
  "userinfo_char c \<longleftrightarrow> is_letter c \<or> is_digit c \<or> c \<in> set ''-._:~!$&()*+,;=%@'' \<or> c = CHR 0x27"

definition parseAuthority :: "string \<Rightarrow> string option" where
  "parseAuthority authority =
     (case last_cut (CHR ''@'') authority of
        None \<Rightarrow> parseHost authority
      | Some (userinfo, host) \<Rightarrow>
          (case parseHost host of
             None \<Rightarrow> None
           | Some h \<Rightarrow> if list_all userinfo_char userinfo \<and> pct_ok (before (CHR '':'') userinfo) \<and>
                           pct_ok (after (CHR '':'') userinfo) then Some h else None))"

definition scheme_char :: "char \<Rightarrow> bool" where
  "scheme_char c \<longleftrightarrow> is_letter c \<or> is_digit c \<or> c \<in> set ''+-.''"

text \<open>\<open>getScheme\<close>: \<open>None\<close> when the scheme is missing before a colon.\<close>

definition getScheme :: "string \<Rightarrow> (string \<times> string) option" where
  "getScheme raw =
     (let pre = takeWhile scheme_char raw; rest = dropWhile scheme_char raw in
      if starts '':'' raw then None
      else if pre \<noteq> [] \<and> is_letter (hd pre) \<and> starts '':'' rest then Some (pre, tl rest)
      else Some ([], raw))"

definition ascii_lower :: "char \<Rightarrow> char" where
  "ascii_lower c = (if CHR ''A'' \<le> c \<and> c \<le> CHR ''Z'' then char_of (of_char c + 32 :: nat) else c)"

definition ctl_byte :: "char \<Rightarrow> bool" where
  "ctl_byte c \<longleftrightarrow> of_char c < (32 :: nat) \<or> c = CHR 0x7F"

definition url_Parse :: "string \<Rightarrow> url option" where
  "url_Parse rawURL =
     (let u = before (CHR ''#'') rawURL; frag = after (CHR ''#'') rawURL in
      if list_ex ctl_byte u then None
      else if u = ''*'' then (if pct_ok frag then Some \<lparr>u_Scheme = [], u_Host = []\<rparr> else None) else
      case getScheme u of
        None \<Rightarrow> None
      | Some (scheme, rest) \<Rightarrow>
     (let rest = before (CHR ''?'') rest in
      if \<not> starts ''/'' rest \<and> scheme \<noteq> [] then
        (if pct_ok frag then Some \<lparr>u_Scheme = map ascii_lower scheme, u_Host = []\<rparr> else None)
      else if \<not> starts ''/'' rest \<and> CHR '':'' \<in> set (before (CHR ''/'') rest) then None
      else if (scheme \<noteq> [] \<or> \<not> starts ''///'' rest) \<and> starts ''//'' rest then
        (let authority = before (CHR ''/'') (drop 2 rest); path = drop (length authority) (drop 2 rest) in
         case parseAuthority authority of
           None \<Rightarrow> None
         | Some host \<Rightarrow>
             if pct_ok path \<and> pct_ok frag then Some \<lparr>u_Scheme = map ascii_lower scheme, u_Host = host\<rparr> else None)
      else if pct_ok rest \<and> pct_ok frag then Some \<lparr>u_Scheme = map ascii_lower scheme, u_Host = []\<rparr>
      else None))"

text \<open>\<open>Hostname\<close>: the host without a valid port and without brackets.\<close>

definition Hostname :: "url \<Rightarrow> string" where
  "Hostname u =
     (let h = (case last_cut (CHR '':'') (u_Host u) of
                 Some (a, p) \<Rightarrow> if validOptionalPort ('':'' @ p) then a else u_Host u
               | None \<Rightarrow> u_Host u)
      in if h \<noteq> [] \<and> hd h = CHR ''['' \<and> last h = CHR '']'' then butlast (tl h) else h)"

section \<open>\<open>net.SplitHostPort\<close>\<close>

definition SplitHostPort :: "string \<Rightarrow> (string \<times> string) option" where
  "SplitHostPort hostport =
     (case last_cut (CHR '':'') hostport of
        None \<Rightarrow> None
      | Some (host, port) \<Rightarrow>
          if starts ''['' hostport then
            (let inside = before (CHR '']'') (tl hostport) in
             if CHR '']'' \<notin> set hostport then None
             else if host \<noteq> ''['' @ inside @ '']'' then None
             else if CHR ''['' \<in> set (tl hostport) then None
             else if CHR '']'' \<in> set port then None
             else Some (inside, port))
          else if CHR '':'' \<in> set host then None
          else if CHR ''['' \<in> set hostport \<or> CHR '']'' \<in> set hostport then None
          else Some (host, port))"

text \<open>Plain host names: what every parser above reads as itself.\<close>

definition plain_host :: "string \<Rightarrow> bool" where
  "plain_host h \<longleftrightarrow> h \<noteq> [] \<and> list_all (\<lambda>c. is_letter c \<or> is_digit c \<or> c = CHR ''.'' \<or> c = CHR ''-'') h"

end
