(* ===== verification/Http.thy ===== *)
theory Http
  imports GoUrl
begin

text \<open>
  The answers of the HTTP handlers: a status code and the string fields of the JSON object.
\<close>

record http_response =
  rs_status :: nat
  rs_body :: "(string \<times> string) list"

definition error_json :: "nat \<Rightarrow> string \<Rightarrow> http_response" where
  "error_json st m = \<lparr>rs_status = st, rs_body = [(''error'', m)]\<rparr>"

section \<open>Blanks and header names\<close>

definition is_blank :: "char \<Rightarrow> bool" where
  "is_blank c \<longleftrightarrow> c = CHR '' '' \<or> c = CHR 0x09 \<or> c = CHR 0x0B \<or> c = CHR 0x0C \<or> c = CHR 0x0D"

definition ascii_space :: "char \<Rightarrow> bool" where
  "ascii_space c \<longleftrightarrow> is_blank c \<or> c = CHR 0x0A"

text \<open>\<open>strings.TrimSpace\<close> on ASCII text.\<close>

definition TrimSpace :: "string \<Rightarrow> string" where
  "TrimSpace s = rev (dropWhile ascii_space (rev (dropWhile ascii_space s)))"

text \<open>\<open>textproto.CanonicalMIMEHeaderKey\<close>, and \<open>Get\<close> and \<open>Set\<close> of \<open>http.Header\<close>.\<close>

type_synonym header = "string \<rightharpoonup> string list"

definition header_byte :: "char \<Rightarrow> bool" where
  "header_byte c \<longleftrightarrow> is_letter c \<or> is_digit c \<or> c \<in> set ''!#$%&*+-.^_|~'' \<or> c = CHR 0x27 \<or> c = CHR 0x60"

fun canonical_from :: "bool \<Rightarrow> string \<Rightarrow> string" where
  "canonical_from upper [] = []"
| "canonical_from upper (c # s) =
     (if upper then ascii_upper c else ascii_lower c) # canonical_from (c = CHR ''-'') s"

definition CanonicalHeaderKey :: "string \<Rightarrow> string" where
  "CanonicalHeaderKey k = (if list_all header_byte k then canonical_from True k else k)"

definition header_Get :: "string \<Rightarrow> header \<Rightarrow> string" where
  "header_Get k h = (case h (CanonicalHeaderKey k) of Some (v # _) \<Rightarrow> v | _ \<Rightarrow> [])"

definition header_Set :: "string \<Rightarrow> string \<Rightarrow> header \<Rightarrow> header" where
  "header_Set k v h = h(CanonicalHeaderKey k \<mapsto> [v])"

lemma header_Get_Set: "header_Get k (header_Set k' v h) =
    (if CanonicalHeaderKey k = CanonicalHeaderKey k' then v else header_Get k h)"
  by (simp add: header_Get_def header_Set_def)

section \<open>URLs with a plain host\<close>

definition plain_path :: "string \<Rightarrow> bool" where
  "plain_path p \<longleftrightarrow> (p = [] \<or> starts ''/'' p) \<and> list_all (\<lambda>c. unreserved c \<or> c = CHR ''/'') p"

lemma plain_hostD:
  assumes "plain_host h" "c \<in> set h"
  shows "host_char c" "c \<notin> set '':@/#?[]%*''" "\<not> ctl_byte c"
proof -
  have c: "is_letter c \<or> is_digit c \<or> c = CHR ''.'' \<or> c = CHR ''-''"
    using assms by (auto simp: plain_host_def list_all_iff)
  then show "host_char c" by (auto simp: host_char_def unreserved_def)
  have odd: "list_all (\<lambda>c. \<not> (is_letter c \<or> is_digit c \<or> c = CHR ''.'' \<or> c = CHR ''-'')) '':@/#?[]%*''"
    by code_simp
  show "c \<notin> set '':@/#?[]%*''" using odd c by (auto simp only: list_all_iff)
  show "\<not> ctl_byte c"
  proof
    assume "ctl_byte c"
    moreover have "list_all (\<lambda>n. \<not> (is_letter (char_of n) \<or> is_digit (char_of n) \<or> char_of n = CHR ''.'' \<or> char_of n = CHR ''-''))
        ([0..<32] @ [127 :: nat])" by code_simp
    moreover have "\<not> (is_letter CHR 0x7F \<or> is_digit CHR 0x7F)" by code_simp
    ultimately show False using c
      by (auto simp: ctl_byte_def list_all_iff dest!: bspec [of "{0..<32}" _ "of_char c"])
  qed
qed

lemma plain_pathD:
  assumes "plain_path p" "c \<in> set p"
  shows "c \<notin> set ''#?%:''" "\<not> ctl_byte c"
proof -
  have c: "unreserved c \<or> c = CHR ''/''" using assms by (auto simp: plain_path_def list_all_iff)
  have odd: "list_all (\<lambda>c. \<not> (unreserved c \<or> c = CHR ''/'')) ''#?%:''" by code_simp
  show "c \<notin> set ''#?%:''" using odd c by (auto simp only: list_all_iff)
  show "\<not> ctl_byte c"
  proof
    assume "ctl_byte c"
    moreover have "list_all (\<lambda>n. \<not> (unreserved (char_of n) \<or> char_of n = CHR ''/'')) ([0..<32] @ [127 :: nat])"
      by code_simp
    moreover have "\<not> unreserved CHR 0x7F" by code_simp
    ultimately show False using c
      by (auto simp: ctl_byte_def list_all_iff dest!: bspec [of "{0..<32}" _ "of_char c"])
  qed
qed

lemma pct_ok_plain: "CHR ''%'' \<notin> set p \<Longrightarrow> pct_ok p"
  by (induction p) auto

lemma unescape_host_plain: "list_all host_char h \<Longrightarrow> CHR ''%'' \<notin> set h \<Longrightarrow> unescape_host z h = Some h"
  by (induction h) auto

lemma parseAuthority_plain:
  assumes "plain_host h"
  shows "parseAuthority h = Some h"
proof -
  have n: "CHR '':'' \<notin> set h" "CHR ''@'' \<notin> set h" "CHR ''['' \<notin> set h" "CHR ''%'' \<notin> set h"
    using plain_hostD(2) [OF assms] by fastforce+
  have "list_all host_char h" using plain_hostD(1) [OF assms] by (auto simp: list_all_iff)
  moreover have "\<not> starts ''['' h" using n(3) by (cases h) (auto simp: starts_def)
  ultimately show ?thesis using n
    by (simp add: parseAuthority_def parseHost_def last_cut_def unescape_host_plain)
qed

lemma url_Parse_plain:
  assumes "plain_host h" "plain_path p" "sch = ''http'' \<or> sch = ''https''"
  shows "url_Parse (sch @ ''://'' @ h @ p) = Some \<lparr>u_Scheme = sch, u_Host = h\<rparr>"
proof -
  let ?u = "sch @ ''://'' @ h @ p"
  have n: "c \<notin> set h \<and> c \<notin> set p" if "c = CHR ''#'' \<or> c = CHR ''?'' \<or> c = CHR ''%''" for c
    using that plain_hostD(2) [OF assms(1), of c] plain_pathD(1) [OF assms(2), of c] by auto
  have u: "before (CHR ''#'') ?u = ?u" "after (CHR ''#'') ?u = []"
    using n [of "CHR ''#''"] assms(3) by (auto intro!: before_none after_none)
  have sch: "\<not> list_ex ctl_byte ''http://''" "\<not> list_ex ctl_byte ''https://''" by code_simp+
  have ctl: "\<not> list_ex ctl_byte ?u"
    using assms(3) sch plain_hostD(3) [OF assms(1)] plain_pathD(2) [OF assms(2)] by (auto simp: list_ex_iff)
  have chars: "list_all scheme_char ''https''" "\<not> scheme_char (CHR '':'')" "is_letter (CHR ''h'')" by code_simp+
  have gs: "getScheme ?u = Some (sch, ''//'' @ h @ p)"
    using assms(3) chars by (auto simp: getScheme_def Let_def starts_def)
  have q: "before (CHR ''?'') (''//'' @ h @ p) = ''//'' @ h @ p"
    using n [of "CHR ''?''"] by (intro before_none) auto
  have slash: "CHR ''/'' \<notin> set h" using plain_hostD(2) [OF assms(1), of "CHR ''/''"] by auto
  have a: "before (CHR ''/'') (h @ p) = h"
  proof (cases p)
    case Nil
    then show ?thesis using slash by (simp add: before_none)
  next
    case (Cons x xs)
    then have "x = CHR ''/''" using assms(2) by (auto simp: plain_path_def starts_def)
    then show ?thesis using slash Cons by (simp add: before_append)
  qed
  have "map ascii_lower sch = sch" using assms(3) by (elim disjE; hypsubst) code_simp+
  then show ?thesis
    using u ctl gs q a parseAuthority_plain [OF assms(1)] assms(3) n [of "CHR ''%''"]
    by (auto simp: url_Parse_def Let_def starts_def pct_ok_plain)
qed

lemma Hostname_plain: "plain_host h \<Longrightarrow> Hostname \<lparr>u_Scheme = s, u_Host = h\<rparr> = h"
proof -
  assume p: "plain_host h"
  have "CHR '':'' \<notin> set h" "CHR ''['' \<notin> set h" using plain_hostD(2) [OF p] by fastforce+
  then show ?thesis by (cases h) (auto simp: Hostname_def last_cut_def Let_def)
qed

lemma SplitHostPort_plain: "plain_host h \<Longrightarrow> SplitHostPort h = None"
proof -
  assume p: "plain_host h"
  have "CHR '':'' \<notin> set h" using plain_hostD(2) [OF p] by fastforce
  then show ?thesis by (simp add: SplitHostPort_def last_cut_def)
qed

lemma SplitHostPort_port:
  assumes "plain_host h" "list_all is_digit p"
  shows "SplitHostPort (h @ '':'' @ p) = Some (h, p)"
proof -
  have d: "list_all is_digit p \<Longrightarrow> c \<in> set p \<Longrightarrow> c \<notin> set '':[]''" for c
  proof -
    assume "list_all is_digit p" "c \<in> set p"
    then have "c \<in> set ''0123456789''" by (simp add: list_all_iff is_digit_def)
    then show "c \<notin> set '':[]''" by auto
  qed
  have p: "CHR '':'' \<notin> set p" "CHR ''['' \<notin> set p" "CHR '']'' \<notin> set p" using d [OF assms(2)] by fastforce+
  have h: "CHR '':'' \<notin> set h" "CHR ''['' \<notin> set h" "CHR '']'' \<notin> set h" "h \<noteq> []"
    using plain_hostD(2) [OF assms(1)] assms(1) by (fastforce simp: plain_host_def)+
  have "last_cut (CHR '':'') (h @ '':'' @ p) = Some (h, p)"
    using p by (simp add: last_cut_def before_append after_def dropWhile_append)
  moreover have "\<not> starts ''['' (h @ '':'' @ p)" using h(2,4) by (cases h) (auto simp: starts_def)
  ultimately show ?thesis using h p by (simp add: SplitHostPort_def)
qed

end
