(* ===== verification/Api.thy ===== *)
theory Api
  imports Analytics Ordering Http
begin

text \<open>
  The read side: paginated runs and repositories of \<open>internal/database/workflow.go\<close>, the
  handlers of \<open>handlers/api.go\<close> that serve them and the analytics, and the readiness probe of
  \<open>handlers/health_handler.go\<close>.  Rows with equal sort keys, which SQL leaves in any order, keep
  their table order here.
\<close>

section \<open>Integers from query parameters\<close>

text \<open>
  \<open>fmt.Sscanf (s, "%d", &n)\<close>: blanks, a sign, digits; what follows the digits is not read.  A
  line feed before the digits is an error.
\<close>

definition Sscanf_d :: "string \<Rightarrow> int option" where
  "Sscanf_d s =
     (let s = dropWhile is_blank s;
          sign = (case s of c # _ \<Rightarrow> if c = CHR ''-'' \<or> c = CHR ''+'' then [c] else [] | [] \<Rightarrow> []);
          ds = takeWhile is_digit (drop (length sign) s);
          n = (if sign = ''-'' then - int (digits_val ds) else int (digits_val ds))
      in if ds = [] \<or> \<not> in_int64 n then None else Some n)"

text \<open>\<open>GetPaginationParams\<close> on the two parameters, \<open>None\<close> when absent.\<close>

definition GetPaginationParams :: "string option \<Rightarrow> string option \<Rightarrow> int \<times> int" where
  "GetPaginationParams page limit =
     ((case Sscanf_d (case page of None \<Rightarrow> ''1'' | Some s \<Rightarrow> s) of
         None \<Rightarrow> 1 | Some p \<Rightarrow> if p < 1 then 1 else p),
      (case Sscanf_d (case limit of None \<Rightarrow> ''25'' | Some s \<Rightarrow> s) of
         None \<Rightarrow> 25 | Some l \<Rightarrow> if l < 1 \<or> l > 100 then 25 else l))"

section \<open>Paginated runs\<close>

definition run_of_row :: "run_row \<Rightarrow> WorkflowRun" where
  "run_of_row r =
     \<lparr>r_ID = rr_id r, r_Name = rr_name r, r_Status = rr_status r, r_HtmlUrl = rr_html_url r,
      r_DisplayTitle = rr_display_title r, r_Conclusion = rr_conclusion r,
      r_CreatedAt = parseTime (rr_created_at r),
      r_RunStartedAt = parseTime (null_string (rr_run_started_at r)),
      r_UpdatedAt = parseTime (null_string (rr_updated_at r)), r_RepositoryName = rr_repository r\<rparr>"

text \<open>The \<open>WHERE\<close> clause built from the two filters.\<close>

definition run_filter :: "string \<Rightarrow> string \<Rightarrow> job_row list \<Rightarrow> run_row \<Rightarrow> bool" where
  "run_filter repo status jobs r \<longleftrightarrow>
     (repo \<noteq> [] \<longrightarrow> rr_repository r = repo) \<and>
     (if status \<in> {''requested'', ''in_progress'', ''completed''} then rr_status r = status
      else if status \<in> {''success'', ''failure'', ''cancelled'', ''action_required''} then rr_conclusion r = status
      else if status \<in> {''queued'', ''stale''} then (\<exists>j \<in> set jobs. jr_run_id j = rr_id r \<and> jr_status j = status)
      else True)"

text \<open>\<open>LIMIT ? OFFSET ?\<close> with SQLite's reading of negative numbers.\<close>

definition limit_offset :: "int \<Rightarrow> int \<Rightarrow> 'r list \<Rightarrow> 'r list" where
  "limit_offset limit offset rows =
     (let rest = drop (nat offset) rows in if limit < 0 then rest else take (nat limit) rest)"

definition matching_runs :: "string \<Rightarrow> string \<Rightarrow> ('a dbw_scheme) \<Rightarrow> run_row list" where
  "matching_runs repo status w = filter (run_filter repo status (workflow_jobs w)) (workflow_runs w)"

definition GetWorkflowRunsPaginated ::
  "int \<Rightarrow> int \<Rightarrow> string \<Rightarrow> string \<Rightarrow> ('a dbw_scheme) \<Rightarrow> ('a dbw_scheme) \<times> (go_error + WorkflowRun list \<times> nat)" where
  "GetWorkflowRunsPaginated page limit repo status w =
     (let offset = wrap64 (wrap64 (page - 1) * limit) in
      case engine w of (count_ok, w) \<Rightarrow>
        if \<not> count_ok then (w, Inl (Engine ''database'')) else
      query_rows (Engine ''database'')
        (\<lambda>w. (map run_of_row (limit_offset limit offset (order_desc rr_created_at (matching_runs repo status w))),
              length (matching_runs repo status w))) w)"

definition GetRepositories :: "('a dbw_scheme) \<Rightarrow> ('a dbw_scheme) \<times> (go_error + string list)" where
  "GetRepositories w =
     query_rows (db_error ''failed to get repositories'')
       (\<lambda>w. sort (remdups (filter (\<lambda>s. s \<noteq> []) (map rr_repository (workflow_runs w))))) w"

section \<open>Handlers\<close>

record pagination =
  current_page :: int
  total_pages :: int
  total_count :: int
  page_size :: int
  has_next :: bool
  has_previous :: bool

text \<open>The response: an error with its code, or the runs and their pagination data.\<close>

definition page_count :: "nat \<Rightarrow> int \<Rightarrow> int" where
  "page_count totalCount limit = go_div (wrap64 (int totalCount + limit - 1)) limit"

definition GetWorkflowRuns ::
  "string option \<Rightarrow> string option \<Rightarrow> string \<Rightarrow> string \<Rightarrow> ('a dbw_scheme) \<Rightarrow>
     ('a dbw_scheme) \<times> (nat \<times> string + WorkflowRun list \<times> pagination)" where
  "GetWorkflowRuns page_q limit_q repo status w =
     (case GetPaginationParams page_q limit_q of (page, limit) \<Rightarrow>
      case GetWorkflowRunsPaginated page limit repo status w of
        (w, Inl err) \<Rightarrow> (w, Inl (500, ''Failed to retrieve workflow runs''))
      | (w, Inr (runs, totalCount)) \<Rightarrow>
          let totalPages = page_count totalCount limit in
          (w, Inr (runs, \<lparr>current_page = page, total_pages = totalPages, total_count = int totalCount,
             page_size = limit, has_next = (page < totalPages), has_previous = (1 < page)\<rparr>)))"

definition APIGetWorkflowJobsByRunID ::
  "string \<Rightarrow> ('a dbw_scheme) \<Rightarrow> ('a dbw_scheme) \<times> (nat \<times> string + WorkflowJob list)" where
  "APIGetWorkflowJobsByRunID runID w =
     (case Atoi runID of
        None \<Rightarrow> (w, Inl (400, ''Invalid run_id format''))
      | Some i \<Rightarrow>
     (case GetWorkflowJobsByRunID i w of
        (w, Inl err) \<Rightarrow> (w, Inl (500, ''Failed to retrieve workflow jobs''))
      | (w, Inr jobs) \<Rightarrow>
          if jobs = [] then (w, Inl (404, ''No workflow jobs found for this run ID'')) else (w, Inr jobs)))"

definition APIGetRepositories ::
  "('a dbw_scheme) \<Rightarrow> ('a dbw_scheme) \<times> (nat \<times> string + string list)" where
  "APIGetRepositories w =
     (case GetRepositories w of
        (w, Inl err) \<Rightarrow> (w, Inl (500, ''Failed to retrieve repositories''))
      | (w, Inr repos) \<Rightarrow> (w, Inr repos))"

definition periodToDuration :: "string \<Rightarrow> int" where
  "periodToDuration period =
     (if period = ''hour'' then hour_ns
      else if period = ''week'' then 7 * 24 * hour_ns
      else if period = ''month'' then 30 * 24 * hour_ns
      else 24 * hour_ns)"

text \<open>\<open>c.DefaultQuery ("period", "day")\<close>.\<close>

definition period_param :: "string option \<Rightarrow> string" where
  "period_param q = (case q of None \<Rightarrow> ''day'' | Some p \<Rightarrow> p)"

text \<open>\<open>GetFailureAnalytics\<close> and \<open>GetLabelDemand\<close>: a summary and its trend.\<close>

definition APIGetFailureAnalytics ::
  "sql_strftime \<Rightarrow> string option \<Rightarrow> string \<Rightarrow> ('a dbw_scheme) \<Rightarrow>
     ('a dbw_scheme) \<times> (nat \<times> string + failure_summary \<times> FailureTrendPoint list)" where
  "APIGetFailureAnalytics strftime period_q repo w =
     (let since = periodToDuration (period_param period_q) in
      case GetFailureAnalytics since repo w of
        (w, Inl err) \<Rightarrow> (w, Inl (500, ''Failed to retrieve failure analytics''))
      | (w, Inr summary) \<Rightarrow>
     (case GetFailureTrend strftime since repo w of
        (w, Inl err) \<Rightarrow> (w, Inl (500, ''Failed to retrieve failure trend''))
      | (w, Inr trend) \<Rightarrow> (w, Inr (summary, trend))))"

definition APIGetLabelDemand ::
  "sql_strftime \<Rightarrow> sql_julianday \<Rightarrow> string option \<Rightarrow> string \<Rightarrow> ('a dbw_scheme) \<Rightarrow>
     ('a dbw_scheme) \<times> (nat \<times> string + LabelDemandSummary list \<times> LabelDemandTrendPoint list)" where
  "APIGetLabelDemand strftime julianday period_q repo w =
     (let since = periodToDuration (period_param period_q) in
      case GetLabelDemandSummary julianday since repo w of
        (w, Inl err) \<Rightarrow> (w, Inl (500, ''Failed to retrieve label demand''))
      | (w, Inr summary) \<Rightarrow>
     (case GetLabelDemandTrend strftime since repo w of
        (w, Inl err) \<Rightarrow> (w, Inl (500, ''Failed to retrieve label demand trend''))
      | (w, Inr trend) \<Rightarrow> (w, Inr (summary, trend))))"

text \<open>\<open>GetCurrentMetrics\<close> and the shape of its answer, the one Prometheus gives a range query.\<close>

record TimeSeriesEntry =
  ts_Metric :: "(string \<times> string) list"
  ts_Values :: "(int \<times> string) list"

record TimeSeriesDataInner =
  ts_ResultType :: string
  ts_Result :: "TimeSeriesEntry list"

record TimeSeriesData =
  ts_Status :: string
  ts_Data :: TimeSeriesDataInner

record MetricsResponse =
  CurrentMetrics :: "string \<rightharpoonup> rat"
  RunningJobs :: TimeSeriesData
  QueuedJobs :: TimeSeriesData

definition time_series :: "string \<Rightarrow> (int \<times> string) list \<Rightarrow> TimeSeriesData" where
  "time_series status values =
     \<lparr>ts_Status = ''success'', ts_Data = \<lparr>ts_ResultType = ''matrix'',
        ts_Result = [\<lparr>ts_Metric = [(''job_status'', status)], ts_Values = values\<rparr>]\<rparr>\<rparr>"

definition GetCurrentMetrics ::
  "sql_julianday \<Rightarrow> string option \<Rightarrow> ('a dbw_scheme) \<Rightarrow> ('a dbw_scheme) \<times> (nat \<times> string + MetricsResponse)" where
  "GetCurrentMetrics julianday period_q w =
     (let since = periodToDuration (period_param period_q) in
      case GetMetricsSummary julianday since w of
        (w, _, Some err) \<Rightarrow> (w, Inl (500, ''Failed to retrieve metrics''))
      | (w, summary, None) \<Rightarrow>
     (case GetMetricsHistory since w of
        (w, Inl err) \<Rightarrow> (w, Inl (500, ''Failed to retrieve metrics''))
      | (w, Inr snapshots) \<Rightarrow>
          (w, Inr \<lparr>CurrentMetrics = summary,
            RunningJobs = time_series ''running'' (map (\<lambda>s. (ms_Timestamp s, go_itoa (ms_Running s))) snapshots),
            QueuedJobs = time_series ''queued'' (map (\<lambda>s. (ms_Timestamp s, go_itoa (ms_Queued s))) snapshots)\<rparr>)))"

section \<open>Readiness\<close>

text \<open>
  \<open>ReadyzHandler\<close>: the outcomes of the two pings (\<open>None\<close> for a nil pool) and the queue, \<open>None\<close>
  for a nil service.  The quotient of the two lengths is compared as \<open>float64\<close> with the constant
  \<open>readyzQueueFullThreshold\<close>, 0.95.
\<close>

definition readyzQueueFullThreshold :: rat where
  "readyzQueueFullThreshold = f64 (19 / 20)"

definition readyzQueueFull :: "nat \<Rightarrow> nat \<Rightarrow> bool" where
  "readyzQueueFull depth capacity \<longleftrightarrow> 0 < capacity \<and> readyzQueueFullThreshold \<le> float_quotient depth capacity"

definition ReadyzHandler :: "bool option \<Rightarrow> bool option \<Rightarrow> svc option \<Rightarrow> nat \<times> string" where
  "ReadyzHandler write_ping read_ping queue =
     (let ready = (write_ping \<noteq> Some False \<and> read_ping \<noteq> Some False \<and>
            (case queue of None \<Rightarrow> True
             | Some s \<Rightarrow> \<not> readyzQueueFull (IngestQueueLen s) (IngestQueueCap s)))
      in if ready then (200, ''ready'') else (503, ''not_ready''))"

section \<open>Reads change no table\<close>

text \<open>
  The interface of a read: it consumes engine outcomes and changes nothing else of the world.  The
  server's requests rest on it, whichever handler serves them.
\<close>

definition untouched :: "'a dbw_scheme \<Rightarrow> 'a dbw_scheme \<Rightarrow> bool" where
  "untouched w u \<longleftrightarrow> (\<exists>bs. u = w\<lparr>tape := bs\<rparr>)"

locale read_only =
  fixes f :: "world \<Rightarrow> world \<times> (nat \<times> string + 'x)"
  assumes frame: "untouched w (fst (f w))"
begin

lemma tables:
  "workflow_jobs (fst (f w)) = workflow_jobs w" "workflow_runs (fst (f w)) = workflow_runs w"
  "webhook_events (fst (f w)) = webhook_events w" "metrics_snapshots (fst (f w)) = metrics_snapshots w"
  "mlog (fst (f w)) = mlog w" "sse (fst (f w)) = sse w"
  using frame [of w] by (auto simp: untouched_def)

lemma keeps_db_wf: "db_wf (fst (f w)) = db_wf w"
  using frame [of w] by (auto simp: untouched_def)

end

lemma untouched_refl [simp]: "untouched w w"
  unfolding untouched_def by (rule exI [of _ "tape w"]) simp

lemma untouched_trans: "untouched u v \<Longrightarrow> untouched w u \<Longrightarrow> untouched w v"
  by (auto simp: untouched_def)

lemma untouchedD: "\<exists>bs. fst (f w) = w\<lparr>tape := bs\<rparr> \<Longrightarrow> f w = (u, x) \<Longrightarrow> untouched w u"
  by (simp add: untouched_def)

lemma paginated_frame: "\<exists>bs. fst (GetWorkflowRunsPaginated page limit repo status w) = w\<lparr>tape := bs\<rparr>"
proof -
  obtain b t where "engine w = (b, w\<lparr>tape := t\<rparr>)" by (rule engine_cases)
  then show ?thesis
    using query_rows_frame [of _ _ "w\<lparr>tape := t\<rparr>"] by (simp add: GetWorkflowRunsPaginated_def) auto
qed

lemma jobs_by_run_frame: "\<exists>bs. fst (GetWorkflowJobsByRunID i w) = w\<lparr>tape := bs\<rparr>"
proof -
  obtain b1 t1 b2 t2 where "engine w = (b1, w\<lparr>tape := t1\<rparr>)"
    "engine (w\<lparr>tape := t1\<rparr>) = (b2, w\<lparr>tape := t2\<rparr>)" by (rule engine_twice)
  then show ?thesis by (cases b1; cases b2) (auto simp: GetWorkflowJobsByRunID_def)
qed

lemma analytics_frame: "\<exists>bs. fst (GetFailureAnalytics since repo w) = w\<lparr>tape := bs\<rparr>"
proof -
  obtain b t where "engine w = (b, w\<lparr>tape := t\<rparr>)" by (rule engine_cases)
  then show ?thesis
    using query_rows_frame [of _ _ "w\<lparr>tape := t\<rparr>"] by (simp add: GetFailureAnalytics_def Let_def) auto
qed

lemma summary_frame: "\<exists>bs. fst (GetMetricsSummary julianday since w) = w\<lparr>tape := bs\<rparr>"
proof -
  obtain b1 t1 b2 t2 where 1: "engine w = (b1, w\<lparr>tape := t1\<rparr>)"
    "engine (w\<lparr>tape := t1\<rparr>) = (b2, w\<lparr>tape := t2\<rparr>)" by (rule engine_twice)
  obtain b3 t3 b4 t4 where 2: "engine (w\<lparr>tape := t2\<rparr>) = (b3, w\<lparr>tape := t3\<rparr>)"
    "engine (w\<lparr>tape := t3\<rparr>) = (b4, w\<lparr>tape := t4\<rparr>)" by (rule engine_twice [of "w\<lparr>tape := t2\<rparr>"]) auto
  show ?thesis using 1 2 by (cases b1) (auto simp: GetMetricsSummary_def Let_def)
qed

lemma query_scan_untouched: "query_scan err scan_err f w = (u, x) \<Longrightarrow> untouched w u"
  by (auto simp: query_scan_def split: prod.splits sum.splits option.splits dest: untouchedD [OF query_rows_frame])

lemmas untouched_reads =
  untouchedD [OF query_rows_frame] query_scan_untouched untouchedD [OF paginated_frame] untouchedD [OF jobs_by_run_frame]
  untouchedD [OF analytics_frame] untouchedD [OF summary_frame]

lemmas read_handlers =
  GetWorkflowRuns_def APIGetWorkflowJobsByRunID_def APIGetRepositories_def GetRepositories_def
  APIGetFailureAnalytics_def GetFailureTrend_def APIGetLabelDemand_def GetLabelDemandSummary_def
  GetLabelDemandTrend_def GetCurrentMetrics_def GetMetricsHistory_def Let_def

interpretation get_runs: read_only "GetWorkflowRuns page limit repo status"
  by unfold_locales (auto simp: read_handlers split: prod.split sum.split dest: untouched_reads)

interpretation get_jobs: read_only "APIGetWorkflowJobsByRunID run_id"
  by unfold_locales (auto simp: read_handlers split: option.split prod.split sum.split dest: untouched_reads)

interpretation get_repositories: read_only APIGetRepositories
  by unfold_locales (auto simp: read_handlers split: prod.split sum.split dest: untouched_reads)

interpretation get_failures: read_only "APIGetFailureAnalytics strftime period repo"
  by unfold_locales
    (auto simp: read_handlers split: prod.split sum.split dest!: untouched_reads intro: untouched_trans)

interpretation get_demand: read_only "APIGetLabelDemand strftime julianday period repo"
  by unfold_locales
    (auto simp: read_handlers split: prod.split sum.split dest!: untouched_reads intro: untouched_trans)

interpretation get_metrics: read_only "GetCurrentMetrics julianday period"
  by unfold_locales
    (auto simp: read_handlers split: prod.split sum.split option.split dest!: untouched_reads intro: untouched_trans)

section \<open>Properties\<close>

lemma pages_concat:
  "0 < l \<Longrightarrow> concat (map (\<lambda>p. take l (drop (p * l) xs)) [0..<n]) = take (n * l) xs"
proof (induction n)
  case 0
  show ?case by simp
next
  case (Suc n)
  have "take (Suc n * l) xs = take (n * l) xs @ take l (drop (n * l) xs)"
    using take_add [of "n * l" l xs] by (simp add: add.commute)
  with Suc show ?case by simp
qed

text \<open>The number of pages, without overflow, and one of them.\<close>

lemma page_bounds:
  assumes "0 < (l :: nat)"
  shows "(n + l - 1) div l \<le> n" "n \<le> (n + l - 1) div l * l"
proof -
  have "n + l - 1 \<le> n * l + (l - 1)" using assms by (cases l) simp_all
  then have "(n + l - 1) div l \<le> (n * l + (l - 1)) div l" by (rule div_le_mono)
  also have "\<dots> = n" using assms by (simp only: div_mult_self3) simp
  finally show "(n + l - 1) div l \<le> n" .
  have "n + l - 1 = (n + l - 1) div l * l + (n + l - 1) mod l" by simp
  moreover have "(n + l - 1) mod l < l" using assms by simp
  ultimately show "n \<le> (n + l - 1) div l * l" using assms by linarith
qed

lemma page_count_nat:
  assumes "0 < l" "l \<le> 100" "n < 2 ^ 32"
  shows "page_count n (int l) = int ((n + l - 1) div l)"
proof -
  have "in_int64 (int n + int l - 1)" using assms by (simp add: in_int64_def)
  then have "page_count n (int l) = (int n + int l - 1) div int l"
    using assms by (simp add: page_count_def wrap64_id go_div_nonneg)
  also have "int n + int l - 1 = int (n + l - 1)" using assms(1) by simp
  finally show ?thesis by (simp add: zdiv_int)
qed

lemma one_page:
  assumes "healthy w" "0 < l" "l \<le> 100" "p < 2 ^ 32"
  shows "snd (GetWorkflowRunsPaginated (int (Suc p)) (int l) repo status w) =
    Inr (map run_of_row (take l (drop (p * l) (order_desc rr_created_at (matching_runs repo status w)))),
         length (matching_runs repo status w))"
proof -
  have "p * l \<le> 2 ^ 32 * 100" using assms(3,4) by (intro mult_mono) simp_all
  then have "int p * int l \<le> 2 ^ 32 * 100" by (simp add: of_nat_mult [symmetric] del: of_nat_mult)
  moreover have "- (2 ^ 63) \<le> (0 :: int)" "(2 :: int) ^ 32 * 100 < 2 ^ 63" "0 \<le> int p * int l" by simp_all
  ultimately have "in_int64 (int p * int l)" unfolding in_int64_def by (intro conjI) linarith+
  moreover have "in_int64 (int p)" using assms(4) by (simp add: in_int64_def)
  ultimately have "wrap64 (wrap64 (int (Suc p) - 1) * int l) = int (p * l)" by (simp add: wrap64_id)
  moreover have "nat (int p * int l) = p * l" by (simp add: nat_mult_distrib)
  ultimately show ?thesis using assms(1-3)
    by (simp add: GetWorkflowRunsPaginated_def query_rows_healthy limit_offset_def Let_def)
qed

text \<open>C37: the pages partition the result.  For every limit the handler admits, the pages 1 to the reported
  number of pages, one after the other, are exactly the matching runs, newest first, each once.\<close>

theorem pages_partition_runs:
  assumes "healthy w" "1 \<le> limit" "limit \<le> 100" "length (workflow_runs w) < 2 ^ 32"
  shows "concat (map (\<lambda>p. case snd (GetWorkflowRunsPaginated (int p) limit repo status w) of
             Inr (runs, _) \<Rightarrow> runs | Inl _ \<Rightarrow> []) [1..<Suc (nat (page_count (length (matching_runs repo status w)) limit))]) =
           map run_of_row (order_desc rr_created_at (matching_runs repo status w)) \<and>
    mset (order_desc rr_created_at (matching_runs repo status w)) = mset (matching_runs repo status w) \<and>
    sorted_wrt (\<lambda>a b. rr_created_at b \<le> rr_created_at a) (order_desc rr_created_at (matching_runs repo status w))"
proof -
  let ?xs = "order_desc rr_created_at (matching_runs repo status w)"
  define l where "l = nat limit"
  define cnt where "cnt = length (matching_runs repo status w)"
  let ?pages = "(cnt + l - 1) div l"
  have l: "0 < l" "limit = int l" "l \<le> 100" using assms(2,3) by (auto simp: l_def)
  have tot: "cnt < 2 ^ 32"
    unfolding cnt_def matching_runs_def
    using assms(4) by (rule le_less_trans [OF length_filter_le])
  have page: "snd (GetWorkflowRunsPaginated (int (Suc p)) limit repo status w) =
      Inr (map run_of_row (take l (drop (p * l) ?xs)), cnt)" if "p < ?pages" for p
    using one_page [OF assms(1) l(1,3), of p] that page_bounds(1) [OF l(1), of cnt] tot by (simp add: l(2) cnt_def)
  have "concat (map (\<lambda>p. case snd (GetWorkflowRunsPaginated (int p) limit repo status w) of
        Inr (runs, _) \<Rightarrow> runs | Inl _ \<Rightarrow> []) [1..<Suc ?pages]) =
      concat (map (\<lambda>p. map run_of_row (take l (drop (p * l) ?xs))) [0..<?pages])"
    unfolding One_nat_def map_Suc_upt [symmetric] map_map
    by (intro arg_cong [of _ _ concat] map_cong refl) (simp add: page del: of_nat_Suc)
  also have "\<dots> = map run_of_row (concat (map (\<lambda>p. take l (drop (p * l) ?xs)) [0..<?pages]))"
    by (simp add: map_concat comp_def)
  also have "\<dots> = map run_of_row (take (?pages * l) ?xs)" using l(1) by (simp add: pages_concat)
  also have "take (?pages * l) ?xs = ?xs" using page_bounds(2) [OF l(1), of cnt] by (simp add: cnt_def)
  finally show ?thesis using page_count_nat [OF l(1,3) tot]
    by (simp add: cnt_def l(2) order_desc_mset order_desc_sorted)
qed

text \<open>A page number near the end of the integer range wraps around: with four runs per page, page
  2^62 + 1 is served the first page again.\<close>

theorem huge_page_wraps_to_first:
  "GetWorkflowRunsPaginated (2 ^ 62 + 1) 4 repo status w = GetWorkflowRunsPaginated 1 4 repo status w"
  by (simp add: GetWorkflowRunsPaginated_def wrap64_def)

text \<open>The parameters a client sends never leave the admitted range, whatever the query says.\<close>

theorem pagination_params_in_range:
  "1 \<le> fst (GetPaginationParams page limit) \<and> fst (GetPaginationParams page limit) < 2 ^ 63 \<and>
   1 \<le> snd (GetPaginationParams page limit) \<and> snd (GetPaginationParams page limit) \<le> 100"
proof -
  have "p < 2 ^ 63" if "Sscanf_d s = Some p" for s p
    using that by (auto simp: Sscanf_d_def in_int64_def Let_def split: if_splits)
  then show ?thesis by (auto simp: GetPaginationParams_def split: option.split)
qed

text \<open>The service reports not ready from 9500 queued events on, while it still has room for 500 more,
  and as soon as a database does not answer.\<close>

theorem readiness:
  "fst (ReadyzHandler wp rp (Some s)) = 503 \<longleftrightarrow>
     wp = Some False \<or> rp = Some False \<or> 9500 \<le> length (ingestCh s)"
  using float_threshold_095 [of defaultIngestChannelSize "length (ingestCh s)"]
  by (auto simp: ReadyzHandler_def readyzQueueFull_def readyzQueueFullThreshold_def IngestQueueLen_def IngestQueueCap_def
      defaultIngestChannelSize_def Let_def)

end
