(* ===== verification/Base64.thy ===== *)
theory Base64
  imports Prelude
begin

text \<open>
  \<open>encoding/base64\<close> with padding, over an alphabet: \<open>URLEncoding\<close>, which writes the CSRF token, and
  \<open>StdEncoding\<close>, in which JSON carries byte slices.  The decoder skips carriage returns and line
  feeds, insists on the padding, and ignores the unused bits before it, as the library does.
\<close>

section \<open>Encoder and decoder\<close>

definition url_alphabet :: string where
  "url_alphabet = ''ABCDEFGHIJKLMNOPQRSTUVWXYZabcdefghijklmnopqrstuvwxyz0123456789-_''"

definition std_alphabet :: string where
  "std_alphabet = ''ABCDEFGHIJKLMNOPQRSTUVWXYZabcdefghijklmnopqrstuvwxyz0123456789+/''"

fun b64_encode :: "string \<Rightarrow> bytes \<Rightarrow> string" where
  "b64_encode A [] = []"
| "b64_encode A [a] = (let x = of_char a in [A ! (x div 4), A ! (x mod 4 * 16), CHR ''='', CHR ''=''])"
| "b64_encode A [a, b] =
     (let x = of_char a; y = of_char b in
      [A ! (x div 4), A ! (x mod 4 * 16 + y div 16), A ! (y mod 16 * 4), CHR ''=''])"
| "b64_encode A (a # b # c # s) =
     (let x = of_char a; y = of_char b; z = of_char c in
      [A ! (x div 4), A ! (x mod 4 * 16 + y div 16), A ! (y mod 16 * 4 + z div 64), A ! (z mod 64)] @
      b64_encode A s)"

definition b64_val :: "string \<Rightarrow> char \<Rightarrow> nat option" where
  "b64_val A c = (if c \<in> set A then Some (length (takeWhile (\<lambda>x. x \<noteq> c) A)) else None)"

fun decode_quanta :: "string \<Rightarrow> string \<Rightarrow> bytes option" where
  "decode_quanta A [] = Some []"
| "decode_quanta A (p # q # r # s # t) =
     (case (b64_val A p, b64_val A q) of
        (Some w, Some x) \<Rightarrow>
          if r = CHR ''='' then
            (if s = CHR ''='' \<and> t = [] then Some [char_of (w * 4 + x div 16)] else None)
          else (case b64_val A r of None \<Rightarrow> None | Some y \<Rightarrow>
            if s = CHR ''='' then
              (if t = [] then Some [char_of (w * 4 + x div 16), char_of (x mod 16 * 16 + y div 4)] else None)
            else (case b64_val A s of None \<Rightarrow> None | Some z \<Rightarrow>
              map_option (\<lambda>bs. char_of (w * 4 + x div 16) # char_of (x mod 16 * 16 + y div 4) #
                  char_of (y mod 4 * 64 + z) # bs) (decode_quanta A t)))
      | _ \<Rightarrow> None)"
| "decode_quanta A _ = None"

definition is_newline :: "char \<Rightarrow> bool" where
  "is_newline c \<longleftrightarrow> c = CHR 0x0A \<or> c = CHR 0x0D"

definition b64_decode :: "string \<Rightarrow> string \<Rightarrow> bytes option" where
  "b64_decode A s = decode_quanta A (filter (\<lambda>c. \<not> is_newline c) s)"

section \<open>The round trip\<close>

lemma pack: "b < n \<Longrightarrow> (a * n + b) div n = a" "b < n \<Longrightarrow> (a * n + b) mod n = b" for a b n :: nat
  by simp_all

lemma of_char_parts:
  "(of_char c :: nat) div 4 < 64" "(of_char c :: nat) div 16 < 16" "(of_char c :: nat) div 64 < 4"
  using of_char_bound [of c] by (simp_all add: div_less_iff_less_mult)

lemma sextet_bounds:
  "p < 4 \<Longrightarrow> q < 16 \<Longrightarrow> p * 16 + q < (64 :: nat)" "p < 4 \<Longrightarrow> p * 16 < (64 :: nat)"
  "q < 16 \<Longrightarrow> p < 4 \<Longrightarrow> q * 4 + p < (64 :: nat)" "q < 16 \<Longrightarrow> q * 4 < (64 :: nat)"
  by simp_all

text \<open>Induction on the groups of three bytes the encoder reads.\<close>

lemma byte_groups:
  fixes s :: bytes
  assumes "P []" "\<And>a. P [a]" "\<And>a b. P [a, b]" "\<And>a b c s. P s \<Longrightarrow> P (a # b # c # s)"
  shows "P s"
  by (rule b64_encode.induct [of "\<lambda>_. P" "[]" s]) (use assms in auto)

locale base64_alphabet =
  fixes A :: string
  assumes size: "length A = 64" and distinct: "distinct A"
    and reserved: "CHR ''='' \<notin> set A" "\<And>c. is_newline c \<Longrightarrow> c \<notin> set A"
begin

lemma val_char: "n < 64 \<Longrightarrow> b64_val A (A ! n) = Some n"
proof -
  assume n: "n < 64"
  have "takeWhile (\<lambda>x. x \<noteq> A ! n) A = take n A"
    using n size distinct by (intro takeWhile_eq_take_P_nth) (auto simp: nth_eq_iff_index_eq)
  then show ?thesis using n size by (simp add: b64_val_def)
qed

lemma plain_char: "n < 64 \<Longrightarrow> A ! n \<noteq> CHR ''='' \<and> \<not> is_newline (A ! n)"
proof -
  assume "n < 64"
  then have "A ! n \<in> set A" using size by simp
  then show "A ! n \<noteq> CHR ''='' \<and> \<not> is_newline (A ! n)" using reserved by auto
qed

lemmas sextet_simps = val_char plain_char of_char_parts sextet_bounds pack

lemma no_newlines: "filter (\<lambda>c. \<not> is_newline c) (b64_encode A s) = b64_encode A s"
  by (rule byte_groups [of _ s]) (simp_all add: Let_def sextet_simps, simp_all add: is_newline_def)

lemma quanta: "decode_quanta A (b64_encode A s) = Some s"
  by (rule byte_groups [of _ s]) (simp_all add: Let_def sextet_simps)

lemma encoded_length: "length (b64_encode A s) = (length s + 2) div 3 * 4"
  by (rule byte_groups [of _ s]) (simp_all add: Let_def, presburger)

end

sublocale base64_alphabet \<subseteq> codec "b64_encode A" "b64_decode A"
  by unfold_locales (simp add: b64_decode_def no_newlines quanta)

interpretation url64: base64_alphabet url_alphabet
  by unfold_locales (auto simp: url_alphabet_def is_newline_def)

interpretation std64: base64_alphabet std_alphabet
  by unfold_locales (auto simp: std_alphabet_def is_newline_def)

end
