(* ===== verification/Origin.thy ===== *)
theory Origin
  imports Http AppConfig Base64
begin

text \<open>
  The origin checks and the CSRF token of \<open>handlers/api.go\<close> and \<open>internal/utils/utils.go\<close>:
  \<open>ValidateOrigin\<close> in front of the REST routes, \<open>ValidateSSEOrigin\<close> in front of the event stream, and
  \<open>GetCSRFToken\<close>, whose cookie and token the first one compares.
\<close>

section \<open>Tokens\<close>

text \<open>\<open>GenerateCSRFToken\<close> on the result of \<open>rand.Read\<close>: 32 bytes, or \<open>None\<close> when it fails.\<close>

definition GenerateCSRFToken :: "bytes option \<Rightarrow> string option" where
  "GenerateCSRFToken rnd = (case rnd of None \<Rightarrow> None | Some b \<Rightarrow> Some (b64_encode url_alphabet b))"

definition Contains :: "string list \<Rightarrow> string \<Rightarrow> bool" where
  "Contains items item = list_ex (\<lambda>s. s = item) items"

definition CookieName :: string where "CookieName = ''csrf_token''"
definition HeaderName :: string where "HeaderName = ''X-CSRF-Token''"

record cookie =
  ck_Name :: string
  ck_Value :: string
  ck_MaxAge :: nat
  ck_Path :: string
  ck_Domain :: string
  ck_Secure :: bool
  ck_HttpOnly :: bool
  ck_SameSite :: string

text \<open>\<open>GetCSRFToken\<close>: the cookie it sets, if any, and its answer.\<close>

definition GetCSRFToken :: "Vars \<Rightarrow> bytes option \<Rightarrow> cookie option \<times> http_response" where
  "GetCSRFToken config rnd =
     (case GenerateCSRFToken rnd of
        None \<Rightarrow> (None, error_json 500 ''Failed to generate security token'')
      | Some csrfToken \<Rightarrow>
     (let isSecure = (IsHTTPS config \<or> IsProduction config) in
      (Some \<lparr>ck_Name = CookieName, ck_Value = csrfToken, ck_MaxAge = 12 * 3600, ck_Path = ''/'',
          ck_Domain = [], ck_Secure = isSecure, ck_HttpOnly = True, ck_SameSite = ''Strict''\<rparr>,
       \<lparr>rs_status = 200, rs_body = [(''token'', csrfToken)]\<rparr>)))"

section \<open>The origin checks\<close>

text \<open>What the checks read of a request; the cookie is \<open>None\<close> when there is none of the name.\<close>

record web_request =
  wr_Host :: string
  wr_Referer :: string
  wr_Origin :: string
  wr_csrf_cookie :: "string option"
  wr_csrf_header :: string

text \<open>The result is the answer the request is aborted with, \<open>None\<close> when it goes on.\<close>

definition ValidateOrigin :: "('a web_request_scheme) \<Rightarrow> http_response option" where
  "ValidateOrigin rq =
     (if wr_Referer rq = [] then Some (error_json 403 ''Access denied. Missing referer header.'') else
      case url_Parse (wr_Referer rq) of
        None \<Rightarrow> Some (error_json 403 ''Access denied. Invalid referer.'')
      | Some refererURL \<Rightarrow>
     (let refererHostname = Hostname refererURL;
          requestHostname = (case SplitHostPort (wr_Host rq) of Some (h, _) \<Rightarrow> h | None \<Rightarrow> wr_Host rq)
      in if refererHostname \<noteq> requestHostname
         then Some (error_json 403 ''Access denied. This endpoint can only be accessed from the application.'')
         else
      case wr_csrf_cookie rq of
        None \<Rightarrow> Some (error_json 403 ''Invalid CSRF cookie'')
      | Some csrfCookie \<Rightarrow>
          if wr_csrf_header rq = [] \<or> wr_csrf_header rq \<noteq> csrfCookie
          then Some (error_json 403 ''Invalid CSRF token'') else None))"

definition normalizeHost :: "string \<Rightarrow> string \<Rightarrow> string" where
  "normalizeHost scheme host =
     (case SplitHostPort host of
        None \<Rightarrow> if scheme = ''https'' then host @ '':443'' else host @ '':80''
      | Some _ \<Rightarrow> host)"

definition ValidateSSEOrigin :: "('a web_request_scheme) \<Rightarrow> http_response option" where
  "ValidateSSEOrigin rq =
     (if wr_Origin rq = [] \<and> wr_Referer rq = [] then Some (error_json 403 ''Access denied. Missing origin.'') else
      let checkURL = (if wr_Origin rq = [] then wr_Referer rq else wr_Origin rq) in
      case url_Parse checkURL of
        None \<Rightarrow> Some (error_json 403 ''Access denied. Invalid origin.'')
      | Some parsedURL \<Rightarrow>
          if u_Host parsedURL = [] then Some (error_json 403 ''Access denied. Origin must contain a host.'')
          else if normalizeHost (u_Scheme parsedURL) (u_Host parsedURL) \<noteq> normalizeHost [] (wr_Host rq)
          then Some (error_json 403 ''Access denied. Cross-origin SSE connections are not allowed.'')
          else None)"

section \<open>Properties\<close>

text \<open>A request passes \<open>ValidateOrigin\<close> exactly when its referer parses, names the host the request
  was sent to, whatever the ports, and the CSRF header is not empty and equal to the cookie.\<close>

theorem origin_gate:
  "ValidateOrigin rq = None \<longleftrightarrow>
     wr_Referer rq \<noteq> [] \<and> wr_csrf_header rq \<noteq> [] \<and> wr_csrf_cookie rq = Some (wr_csrf_header rq) \<and>
     (\<exists>u. url_Parse (wr_Referer rq) = Some u \<and>
        Hostname u = (case SplitHostPort (wr_Host rq) of Some (h, _) \<Rightarrow> h | None \<Rightarrow> wr_Host rq))"
  by (auto simp: ValidateOrigin_def Let_def split: option.splits if_splits)



text \<open>C39: over HTTPS on the default port the event stream is never available.  The origin's host is
  completed with port 443, the request's host with port 80, so a page of the application itself is
  refused; over HTTP it is admitted.\<close>

theorem https_event_stream_is_refused:
  assumes "plain_host h" "plain_path p"
  shows "ValidateSSEOrigin \<lparr>wr_Host = h, wr_Referer = ''https://'' @ h @ p, wr_Origin = [],
      wr_csrf_cookie = c, wr_csrf_header = t\<rparr> =
      Some (error_json 403 ''Access denied. Cross-origin SSE connections are not allowed.'') \<and>
    ValidateSSEOrigin \<lparr>wr_Host = h, wr_Referer = ''http://'' @ h @ p, wr_Origin = [],
      wr_csrf_cookie = c, wr_csrf_header = t\<rparr> = None"
proof -
  have "h \<noteq> []" using assms(1) by (simp add: plain_host_def)
  then show ?thesis
    using url_Parse_plain [OF assms, of "''https''"] url_Parse_plain [OF assms, of "''http''"]
    by (simp add: ValidateSSEOrigin_def normalizeHost_def SplitHostPort_plain [OF assms(1)])
qed

theorem https_event_stream_is_refused_witness:
  "ValidateSSEOrigin \<lparr>wr_Host = ''example.com'', wr_Referer = ''https://example.com/'', wr_Origin = [],
      wr_csrf_cookie = None, wr_csrf_header = []\<rparr> =
      Some (error_json 403 ''Access denied. Cross-origin SSE connections are not allowed.'')"
proof -
  have "plain_host ''example.com''" "plain_path ''/''" by code_simp+
  from https_event_stream_is_refused [OF this, of None "[]"] show ?thesis by simp
qed

end
