(* ===== verification/Logging.thy ===== *)
theory Logging
  imports GoTime
begin

text \<open>
  The logger of \<open>pkg/logger/logger.go\<close>: the level of a configured name, the guard that lets only the
  first initialisation count, and the encoders of the console line.  The encoding of a whole entry
  is the logging library's.
\<close>

section \<open>Levels\<close>

text \<open>The levels of \<open>zapcore\<close>, ordered by severity.\<close>

datatype level = DebugLevel | InfoLevel | WarnLevel | ErrorLevel | DPanicLevel | PanicLevel | FatalLevel

fun level_code :: "level \<Rightarrow> int" where
  "level_code DebugLevel = - 1"
| "level_code InfoLevel = 0"
| "level_code WarnLevel = 1"
| "level_code ErrorLevel = 2"
| "level_code DPanicLevel = 3"
| "level_code PanicLevel = 4"
| "level_code FatalLevel = 5"

lemma level_code_inj: "level_code l = level_code l' \<Longrightarrow> l = l'"
  by (cases l; cases l') simp_all

instantiation level :: linorder
begin

definition less_eq_level :: "level \<Rightarrow> level \<Rightarrow> bool" where
  "less_eq_level l l' \<longleftrightarrow> level_code l \<le> level_code l'"

definition less_level :: "level \<Rightarrow> level \<Rightarrow> bool" where
  "less_level l l' \<longleftrightarrow> level_code l < level_code l'"

instance
  by intro_classes (auto simp: less_eq_level_def less_level_def dest: level_code_inj)

end

definition logLevels :: "string \<rightharpoonup> level" where
  "logLevels = [''debug'' \<mapsto> DebugLevel, ''info'' \<mapsto> InfoLevel, ''warn'' \<mapsto> WarnLevel, ''error'' \<mapsto> ErrorLevel]"

section \<open>Encoders\<close>

definition color :: "nat \<Rightarrow> string" where
  "color n = CHR 0x1B # ''['' @ go_utoa n @ ''m''"

fun CapitalString :: "level \<Rightarrow> string" where
  "CapitalString DebugLevel = ''DEBUG''"
| "CapitalString InfoLevel = ''INFO''"
| "CapitalString WarnLevel = ''WARN''"
| "CapitalString ErrorLevel = ''ERROR''"
| "CapitalString DPanicLevel = ''DPANIC''"
| "CapitalString PanicLevel = ''PANIC''"
| "CapitalString FatalLevel = ''FATAL''"

definition customLevelEncoder :: "level \<Rightarrow> string" where
  "customLevelEncoder l =
     (case l of
        InfoLevel \<Rightarrow> color 34 @ ''['' @ CapitalString l @ '']'' @ color 0
      | WarnLevel \<Rightarrow> color 33 @ ''['' @ CapitalString l @ '']'' @ color 0
      | ErrorLevel \<Rightarrow> color 31 @ ''['' @ CapitalString l @ '']'' @ color 0
      | DebugLevel \<Rightarrow> color 32 @ ''['' @ CapitalString l @ '']'' @ color 0
      | _ \<Rightarrow> ''['' @ CapitalString l @ '']'')"

definition customTimeEncoder :: "gotime \<Rightarrow> string" where
  "customTimeEncoder t = color 34 @ ''['' @ format_datetime t @ '']'' @ color 0"

text \<open>The loop that appends one blank per missing character.\<close>

fun pad_loop :: "nat \<Rightarrow> string \<Rightarrow> string" where
  "pad_loop 0 padded = padded"
| "pad_loop (Suc n) padded = pad_loop n (padded @ '' '')"

definition padRight :: "string \<Rightarrow> nat \<Rightarrow> string" where
  "padRight str len = (if len \<le> length str then str else pad_loop (len - length str) str)"

section \<open>The logger\<close>

text \<open>
  The encoder configuration names the columns and their encoders; an empty key leaves its column out.
  \<open>zap.New\<close> applies its options to a logger that adds no caller.
\<close>

record EncoderConfig =
  TimeKey :: string
  LevelKey :: string
  MessageKey :: string
  CallerKey :: string
  NameKey :: string
  StacktraceKey :: string
  EncodeLevel :: "level \<Rightarrow> string"
  EncodeTime :: "gotime \<Rightarrow> string"

record Logger =
  lg_Config :: EncoderConfig
  lg_Level :: level
  lg_AddCaller :: bool
  lg_CallerSkip :: nat

datatype zap_option = AddCaller | AddCallerSkip nat

fun apply_option :: "zap_option \<Rightarrow> Logger \<Rightarrow> Logger" where
  "apply_option AddCaller lg = lg\<lparr>lg_AddCaller := True\<rparr>"
| "apply_option (AddCallerSkip n) lg = lg\<lparr>lg_CallerSkip := lg_CallerSkip lg + n\<rparr>"

definition zap_New :: "EncoderConfig \<Rightarrow> level \<Rightarrow> zap_option list \<Rightarrow> Logger" where
  "zap_New config l opts =
     fold apply_option opts \<lparr>lg_Config = config, lg_Level = l, lg_AddCaller = False, lg_CallerSkip = 0\<rparr>"

definition initLogger :: "string \<Rightarrow> Logger" where
  "initLogger name =
     (let config = \<lparr>TimeKey = ''time'', LevelKey = ''level'', MessageKey = ''msg'', CallerKey = ''caller'',
            NameKey = ''logger'', StacktraceKey = ''stacktrace'', EncodeLevel = customLevelEncoder,
            EncodeTime = customTimeEncoder\<rparr>;
          l = (case logLevels name of None \<Rightarrow> InfoLevel | Some l \<Rightarrow> l)
      in zap_New config l [AddCallerSkip 1])"

text \<open>The state is the global logger, \<open>None\<close> before the first call.\<close>

definition InitLogger :: "string \<Rightarrow> Logger option \<Rightarrow> Logger option" where
  "InitLogger name logger = (case logger of None \<Rightarrow> Some (initLogger name) | Some lg \<Rightarrow> Some lg)"

definition Enabled :: "Logger \<Rightarrow> level \<Rightarrow> bool" where
  "Enabled lg l \<longleftrightarrow> lg_Level lg \<le> l"

definition customCallerEncoder :: "Logger \<Rightarrow> string \<Rightarrow> string option" where
  "customCallerEncoder lg path =
     (if Enabled lg DebugLevel then Some (color 2 @ padRight path 30 @ color 0) else None)"

text \<open>The column of the caller in a line: the encoder is asked only when the entry has a caller.\<close>

definition caller_column :: "Logger \<Rightarrow> string \<Rightarrow> string option" where
  "caller_column lg path =
     (if lg_AddCaller lg \<and> CallerKey (lg_Config lg) \<noteq> [] then customCallerEncoder lg path else None)"

text \<open>An entry with its fields, and a call of the logger, which drops what its level does not enable.\<close>

datatype field = StringField string string | IntField string int | DurationField string int

record log_entry =
  le_Level :: level
  le_Msg :: string
  le_Fields :: "field list"

definition log_at :: "level \<Rightarrow> string \<Rightarrow> field list \<Rightarrow> Logger \<Rightarrow> log_entry list" where
  "log_at l msg fs lg = (if Enabled lg l then [\<lparr>le_Level = l, le_Msg = msg, le_Fields = fs\<rparr>] else [])"

section \<open>Facts\<close>

lemma pad_loop_blanks: "pad_loop n s = s @ replicate n (CHR '' '')"
  by (induction n arbitrary: s) (simp_all add: replicate_app_Cons_same)

lemma padRight_length: "length (padRight s n) = max (length s) n"
  by (simp add: padRight_def pad_loop_blanks)

lemma first_initialisation_wins: "fold InitLogger (name # names) None = Some (initLogger name)"
  by (induction names) (simp_all add: InitLogger_def)

lemma Enabled_mono: "Enabled lg l \<Longrightarrow> l \<le> l' \<Longrightarrow> Enabled lg l'"
  unfolding Enabled_def by (rule order_trans)

lemma initLogger_level: "lg_Level (initLogger name) =
    (if name = ''debug'' then DebugLevel else if name = ''warn'' then WarnLevel
     else if name = ''error'' then ErrorLevel else InfoLevel)"
  by (simp add: initLogger_def zap_New_def logLevels_def Let_def)

lemma debug_needs_debug: "Enabled (initLogger name) DebugLevel \<longleftrightarrow> name = ''debug''"
  by (simp add: Enabled_def initLogger_level less_eq_level_def)

text \<open>The options skip a frame of the caller but do not add the caller, so no line has one, at any level.\<close>

lemma caller_is_never_logged: "caller_column (initLogger name) path = None"
  by (simp add: caller_column_def initLogger_def zap_New_def Let_def)

end
