(* ===== verification/Middleware.thy ===== *)
theory Middleware
  imports Http AppConfig Logging
begin

text \<open>
  The gin middleware of \<open>internal/middleware\<close>: the error handler and the sanitizing of error
  messages (\<open>errors.go\<close>), the query validation (\<open>validation.go\<close>) and the security headers
  (\<open>security.go\<close>).  Go leaves the iteration order of a map open; it is an argument here.
\<close>

section \<open>Query parameters\<close>

definition validPeriods :: "string list" where
  "validPeriods = [''hour'', ''day'', ''week'', ''month'', ''custom'']"

definition time_formats :: "chunk list list" where
  "time_formats = [layout_RFC3339, layout_T_Z, layout_datetime, layout_date]"

definition validateTimeString :: "string \<Rightarrow> string option" where
  "validateTimeString timeStr =
     (if list_ex (\<lambda>format. time_Parse format timeStr \<noteq> None) time_formats then None
      else Some ''unsupported time format'')"

text \<open>The loop over \<open>start_time\<close> and \<open>end_time\<close>; the argument is \<open>c.Query\<close>, empty when absent.\<close>

fun validate_times :: "(string \<Rightarrow> string) \<Rightarrow> string list \<Rightarrow> string option" where
  "validate_times q [] = None"
| "validate_times q (param # params) =
     (if q param = [] then validate_times q params else
      case validateTimeString (q param) of
        Some e \<Rightarrow> Some (''invalid '' @ param @ '': '' @ e)
      | None \<Rightarrow> validate_times q params)"

definition validateQueryParams :: "(string \<Rightarrow> string) \<Rightarrow> string option" where
  "validateQueryParams q =
     (if q ''period'' \<noteq> [] \<and> q ''period'' \<notin> set validPeriods
      then Some (''invalid period value: '' @ q ''period'')
      else validate_times q [''start_time'', ''end_time''])"

definition InputValidator :: "(string \<Rightarrow> string) \<Rightarrow> http_response option" where
  "InputValidator q =
     (case validateQueryParams q of
        Some e \<Rightarrow> Some (error_json 400 (''Invalid query parameter: '' @ e))
      | None \<Rightarrow> None)"

section \<open>Error messages\<close>

text \<open>\<open>strings.ReplaceAll\<close> for a pattern that is not empty.\<close>

function replace_all :: "string \<Rightarrow> string \<Rightarrow> string \<Rightarrow> string" where
  "replace_all old new [] = []"
| "replace_all old new (c # s) =
     (if old \<noteq> [] \<and> starts old (c # s) then new @ replace_all old new (drop (length old) (c # s))
      else c # replace_all old new s)"
  by pat_completeness auto
termination
  by (relation "measure (\<lambda>(old, new, s). length s)") auto

definition sensitivePatterns :: "(string \<times> string) list" where
  "sensitivePatterns =
     [(''database'', ''storage''), (''sql'', ''query''), (''postgres'', ''database''),
      (''password'', ''[REDACTED]''), (''secret'', ''[REDACTED]''), (''key'', ''[REDACTED]''),
      (''token'', ''[REDACTED]'')]"

text \<open>
  \<open>sanitizeErrorMessage\<close>: \<open>ToLower\<close> is \<open>strings.ToLower\<close>, and \<open>iter\<close> the order in which the loop
  meets the patterns.
\<close>

definition sanitizeErrorMessage ::
  "(string \<Rightarrow> string) \<Rightarrow> (string \<times> string) list \<Rightarrow> string \<Rightarrow> string" where
  "sanitizeErrorMessage ToLower iter errMsg =
     (let sanitized = fold (\<lambda>(pattern, replacement) s. replace_all pattern replacement s) iter (ToLower errMsg)
      in if 100 < length sanitized then take 97 sanitized @ ''...'' else sanitized)"

section \<open>The error handler\<close>

text \<open>
  The state of the response when the handlers have returned: the status of the writer, what has
  been written, the errors attached to the context, and whether a handler panicked.
\<close>

record chain_end =
  ce_status :: nat
  ce_written :: "http_response option"
  ce_errors :: "string list"
  ce_panicked :: bool

text \<open>\<open>c.JSON\<close>: the status line cannot be changed any more once something has been written.\<close>

definition write_json :: "http_response \<Rightarrow> http_response option \<Rightarrow> http_response" where
  "write_json r w =
     (case w of None \<Rightarrow> r | Some r0 \<Rightarrow> r0\<lparr>rs_body := rs_body r0 @ rs_body r\<rparr>)"

definition ErrorHandler ::
  "(string \<Rightarrow> string) \<Rightarrow> (string \<times> string) list \<Rightarrow> chain_end \<Rightarrow> http_response option" where
  "ErrorHandler ToLower iter e =
     (if ce_panicked e then Some (write_json (error_json 500 ''Internal server error'') (ce_written e))
      else if ce_errors e = [] \<or> ce_written e \<noteq> None then ce_written e
      else if 400 \<le> ce_status e \<and> ce_status e < 500
      then Some (error_json (ce_status e) (sanitizeErrorMessage ToLower iter (last (ce_errors e))))
      else Some (error_json 500 ''Internal server error''))"

section \<open>Logging of requests\<close>

text \<open>What both loggers know of a finished request.\<close>

record log_params =
  lp_Method :: string
  lp_Path :: string
  lp_StatusCode :: nat
  lp_Latency :: int
  lp_ClientIP :: string
  lp_UserAgent :: string
  lp_Referer :: string

text \<open>The formatter's line, which is empty, and the entries it writes on the way.\<close>

definition RequestLogger :: "Logger option \<Rightarrow> log_params \<Rightarrow> string \<times> log_entry list" where
  "RequestLogger logger param =
     ([], case logger of
        None \<Rightarrow> []
      | Some lg \<Rightarrow>
          if lp_Path param = ''/metrics'' then []
          else log_at DebugLevel ''HTTP Request''
            [StringField ''method'' (lp_Method param), StringField ''path'' (lp_Path param),
             IntField ''status'' (int (lp_StatusCode param)), DurationField ''latency'' (lp_Latency param),
             StringField ''client_ip'' (lp_ClientIP param), StringField ''user_agent'' (lp_UserAgent param),
             StringField ''referer'' (lp_Referer param)] lg)"

definition SecurityLogger :: "Logger option \<Rightarrow> log_params \<Rightarrow> log_entry list" where
  "SecurityLogger logger param =
     (if lp_StatusCode param = 401 \<or> lp_StatusCode param = 403
      then case logger of
             None \<Rightarrow> []
           | Some lg \<Rightarrow> log_at WarnLevel ''Access denied''
               [StringField ''method'' (lp_Method param), StringField ''path'' (lp_Path param),
                IntField ''status'' (int (lp_StatusCode param)), StringField ''client_ip'' (lp_ClientIP param),
                StringField ''user_agent'' (lp_UserAgent param)] lg
      else [])"

text \<open>A refused request leaves its entry at every level but \<open>error\<close>; the others appear only when debugging.\<close>

lemma refused_request_is_logged:
  "SecurityLogger (Some (initLogger name)) param \<noteq> [] \<longleftrightarrow>
     lp_StatusCode param \<in> {401, 403} \<and> name \<noteq> ''error''"
  by (auto simp: SecurityLogger_def log_at_def Enabled_def initLogger_level less_eq_level_def)

lemma request_is_logged:
  "snd (RequestLogger (Some (initLogger name)) param) \<noteq> [] \<longleftrightarrow> lp_Path param \<noteq> ''/metrics'' \<and> name = ''debug''"
  by (simp add: RequestLogger_def log_at_def debug_needs_debug)

definition relevantHeaders :: "string list" where
  "relevantHeaders = [''User-Agent'', ''Referer'', ''X-Forwarded-For'', ''X-Real-IP'',
     ''X-Forwarded-Proto'', ''Content-Type'', ''Accept'']"

definition getSanitizedHeaders :: "(string \<Rightarrow> string) \<Rightarrow> (string \<times> string) list" where
  "getSanitizedHeaders get =
     map (\<lambda>h. (h, if 200 < length (get h) then take 197 (get h) @ ''...'' else get h))
       (filter (\<lambda>h. get h \<noteq> []) relevantHeaders)"

section \<open>Security headers\<close>

definition SecurityHeaders :: "Vars \<Rightarrow> (string \<times> string) list" where
  "SecurityHeaders cfg =
     [(''X-Frame-Options'', ''DENY''), (''X-Content-Type-Options'', ''nosniff''),
      (''X-XSS-Protection'', ''1; mode=block'')] @
     (if IsProduction cfg \<or> IsHTTPS cfg
      then [(''Strict-Transport-Security'', ''max-age=31536000; includeSubDomains'')] else []) @
     [(''Referrer-Policy'', ''strict-origin-when-cross-origin''),
      (''Content-Security-Policy'',
         ''default-src 'self'; '' @ ''script-src 'self'; '' @ ''style-src 'self' 'unsafe-inline'; '' @
         ''img-src 'self' data:; '' @ ''font-src 'self'; '' @ ''connect-src 'self'; '' @
         ''frame-ancestors 'none'; '' @ ''base-uri 'self'; '' @ ''form-action 'self'' @ [CHR 0x27]),
      (''Permissions-Policy'',
         ''geolocation=(), microphone=(), camera=(), payment=(), usb=(), magnetometer=(), gyroscope=(), accelerometer=(), ambient-light-sensor=()'')]"

lemma InputValidator_iff:
  "InputValidator q = None \<longleftrightarrow>
     (q ''period'' = [] \<or> q ''period'' \<in> {''hour'', ''day'', ''week'', ''month'', ''custom''}) \<and>
     (\<forall>p \<in> {''start_time'', ''end_time''}. q p = [] \<or> (\<exists>f \<in> set time_formats. time_Parse f (q p) \<noteq> None))"
  by (auto simp: InputValidator_def validateQueryParams_def validPeriods_def validateTimeString_def
      list_ex_iff split: option.splits if_splits)

lemma sanitize_length: "length (sanitizeErrorMessage ToLower iter m) \<le> 100"
  by (simp add: sanitizeErrorMessage_def Let_def)

lemma getSanitizedHeaders_length: "(h, v) \<in> set (getSanitizedHeaders get) \<Longrightarrow> length v \<le> 200"
  by (auto simp: getSanitizedHeaders_def)

section \<open>Properties\<close>

text \<open>Whatever the handlers leave behind, a client gets an answer it can be shown: a panic and an
  error without a client status are answered with the generic message and 500 unless the handler
  itself has answered, and a client error with at most 100 characters.\<close>

theorem errors_do_not_leak:
  "(ce_panicked e \<and> ce_written e = None \<longrightarrow>
      ErrorHandler ToLower iter e = Some (error_json 500 ''Internal server error'')) \<and>
   (\<not> ce_panicked e \<and> ce_errors e \<noteq> [] \<and> ce_written e = None \<longrightarrow>
      (\<exists>m. ErrorHandler ToLower iter e = Some (error_json (if 400 \<le> ce_status e \<and> ce_status e < 500 then ce_status e else 500) m) \<and>
         length m \<le> 100 \<and> (ce_status e < 400 \<longrightarrow> m = ''Internal server error''))) \<and>
   (\<not> ce_panicked e \<and> ce_written e \<noteq> None \<longrightarrow> ErrorHandler ToLower iter e = ce_written e)"
  using sanitize_length [of ToLower iter "last (ce_errors e)"]
  by (auto simp: ErrorHandler_def write_json_def)

theorem errors_do_not_leak_witness:
  "ErrorHandler (map ascii_lower) sensitivePatterns
     \<lparr>ce_status = 200, ce_written = None, ce_errors = [''sql: no rows''], ce_panicked = False\<rparr> =
   Some (error_json 500 ''Internal server error'')"
  using errors_do_not_leak [of "\<lparr>ce_status = 200, ce_written = None, ce_errors = [''sql: no rows''], ce_panicked = False\<rparr>"
      "map ascii_lower" sensitivePatterns] by simp

text \<open>The sanitized text depends on the iteration order of the pattern map: the same message comes
  out differently when \<open>postgres\<close> is met before or after \<open>database\<close>.\<close>

theorem sanitizing_depends_on_map_order:
  "mset (rev sensitivePatterns) = mset sensitivePatterns \<and>
   sanitizeErrorMessage (map ascii_lower) sensitivePatterns ''Postgres down'' = ''database down'' \<and>
   sanitizeErrorMessage (map ascii_lower) (rev sensitivePatterns) ''Postgres down'' = ''storage down''"
  by (intro conjI) (simp, code_simp+)

end
