(* ===== verification/Handlers.thy ===== *)
theory Handlers
  imports World
begin

text \<open>
  The two event handlers, \<open>handlers/workflow_job_handler.go\<close> and \<open>handlers/workflow_run_handler.go\<close>,
  and the interface they implement (\<open>handlers/event_handler.go\<close>).  Its contract is the locale
  \<open>event_handler_contract\<close>, which the webhook handler and the ordering service rest on: a call that
  returns nil has performed the handler's effect on the typed tables, a call that fails has not
  touched them, and a payload the extractors accept is never refused by \<open>HandleEvent\<close>.
\<close>

section \<open>The interface\<close>

record event_handler =
  HandleEvent :: "bytes \<Rightarrow> EventSequence \<Rightarrow> world \<Rightarrow> world \<times> go_error option"
  GetEventType :: string
  ExtractEventTimestamp :: "bytes \<Rightarrow> go_error + gotime"
  ExtractOrderingKey :: "bytes \<Rightarrow> go_error + string"
  GetStatusPriority :: "bytes \<Rightarrow> go_error + int"

definition json_error :: "string \<Rightarrow> go_error" where
  "json_error m = Wrap m (Engine ''json'')"

section \<open>workflow_job\<close>

definition job_label :: "WorkflowJob \<Rightarrow> string" where
  "job_label job = (case j_Labels job of [] \<Rightarrow> ''(unlabeled)'' | l # _ \<Rightarrow> l)"

definition handleJobStatusTransition :: "JobStatus \<Rightarrow> JobStatus \<Rightarrow> WorkflowJob \<Rightarrow> world \<Rightarrow> world" where
  "handleJobStatusTransition previousStatus currentStatus job w =
     (if previousStatus = currentStatus then w else
      let w = (if previousStatus = JobStatusQueued \<and> \<not> IsZero (j_StartedAt job)
               then RecordQueueDuration (job_label job) (time_Sub (j_StartedAt job) (j_CreatedAt job)) w
               else w)
      in if currentStatus = JobStatusCompleted \<and> j_Conclusion job \<noteq> []
         then RecordJobConclusion (j_Conclusion job) w else w)"

definition JobHandleEvent :: "bytes \<Rightarrow> EventSequence \<Rightarrow> world \<Rightarrow> world \<times> go_error option" where
  "JobHandleEvent eventData sequence w =
     (case unmarshal_job_event eventData of
        None \<Rightarrow> (w, Some (json_error ''invalid JSON payload''))
      | Some event \<Rightarrow>
          let job = (je_WorkflowJob event)\<lparr>j_Status := je_Action event\<rparr> in
          if JobStatusPriority (j_Status job) = None then (w, None) else
          case GetWorkflowJobByID (j_ID job) w of (w, prev) \<Rightarrow>
          let previousJob = (case prev of Inl e \<Rightarrow> zero_job | Inr j \<Rightarrow> j) in
          case AddOrUpdateJob job (Timestamp sequence) w of
            (w, Inl e) \<Rightarrow> (w, Some (Wrap ''failed to save workflow job'' e))
          | (w, Inr updated) \<Rightarrow>
              if \<not> updated then (w, None)
              else (handleJobStatusTransition (j_Status previousJob) (j_Status job) job w, None))"

definition JobExtractEventTimestamp :: "bytes \<Rightarrow> go_error + gotime" where
  "JobExtractEventTimestamp eventData =
     (case unmarshal_job_event eventData of
        None \<Rightarrow> Inl (json_error ''failed to parse workflow_job JSON payload'')
      | Some event \<Rightarrow> Inr (j_CreatedAt (je_WorkflowJob event)))"

definition JobExtractOrderingKey :: "bytes \<Rightarrow> go_error + string" where
  "JobExtractOrderingKey eventData =
     (case unmarshal_job_event eventData of
        None \<Rightarrow> Inl (json_error ''failed to parse workflow_job JSON payload'')
      | Some event \<Rightarrow> Inr (''job_'' @ go_itoa (j_ID (je_WorkflowJob event))))"

definition JobGetStatusPriority :: "bytes \<Rightarrow> go_error + int" where
  "JobGetStatusPriority eventData =
     (case unmarshal_job_event eventData of
        None \<Rightarrow> Inl (json_error ''failed to parse workflow_job JSON payload'')
      | Some event \<Rightarrow>
          (case JobStatusPriority (je_Action event) of None \<Rightarrow> Inr 0 | Some prio \<Rightarrow> Inr (int prio)))"

definition NewWorkflowJobHandler :: event_handler where
  "NewWorkflowJobHandler =
     \<lparr>HandleEvent = JobHandleEvent, GetEventType = ''workflow_job'',
      ExtractEventTimestamp = JobExtractEventTimestamp, ExtractOrderingKey = JobExtractOrderingKey,
      GetStatusPriority = JobGetStatusPriority\<rparr>"

section \<open>workflow_run\<close>

definition RunHandleEvent :: "bytes \<Rightarrow> EventSequence \<Rightarrow> world \<Rightarrow> world \<times> go_error option" where
  "RunHandleEvent eventData sequence w =
     (case unmarshal_run_event eventData of
        None \<Rightarrow> (w, Some (json_error ''invalid JSON payload''))
      | Some event \<Rightarrow>
          let run = (re_WorkflowRun event)\<lparr>r_Status := re_Action event,
                       r_RepositoryName := repo_Name (re_Repository event)\<rparr> in
          if RunStatusPriority (r_Status run) = None then (w, None) else
          case AddOrUpdateRun run (Timestamp sequence) w of
            (w, Inl e) \<Rightarrow> (w, Some (Wrap ''failed to save workflow run'' e))
          | (w, Inr updated) \<Rightarrow>
              if \<not> updated then (w, None)
              else (SendWorkflowUpdate
                      \<lparr>wu_Type = ''run'', wu_Action = re_Action event, wu_ID = r_ID run,
                       wu_Status = r_Status run, wu_Timestamp = format_RFC3339 (clock w),
                       wu_WorkflowJob = zero_job, wu_WorkflowRun = run\<rparr> w, None))"

definition RunExtractEventTimestamp :: "bytes \<Rightarrow> go_error + gotime" where
  "RunExtractEventTimestamp eventData =
     (case unmarshal_run_event eventData of
        None \<Rightarrow> Inl (json_error ''failed to parse workflow_run JSON payload'')
      | Some event \<Rightarrow> Inr (r_CreatedAt (re_WorkflowRun event)))"

definition RunExtractOrderingKey :: "bytes \<Rightarrow> go_error + string" where
  "RunExtractOrderingKey eventData =
     (case unmarshal_run_event eventData of
        None \<Rightarrow> Inl (json_error ''failed to parse workflow_run JSON payload'')
      | Some event \<Rightarrow> Inr (''run_'' @ go_itoa (r_ID (re_WorkflowRun event))))"

definition RunGetStatusPriority :: "bytes \<Rightarrow> go_error + int" where
  "RunGetStatusPriority eventData =
     (case unmarshal_run_event eventData of
        None \<Rightarrow> Inl (json_error ''failed to parse workflow_run JSON payload'')
      | Some event \<Rightarrow>
          (case RunStatusPriority (re_Action event) of None \<Rightarrow> Inr 0 | Some prio \<Rightarrow> Inr (int prio)))"

definition NewWorkflowRunHandler :: event_handler where
  "NewWorkflowRunHandler =
     \<lparr>HandleEvent = RunHandleEvent, GetEventType = ''workflow_run'',
      ExtractEventTimestamp = RunExtractEventTimestamp, ExtractOrderingKey = RunExtractOrderingKey,
      GetStatusPriority = RunGetStatusPriority\<rparr>"

lemmas job_handler_defs =
  JobExtractEventTimestamp_def JobExtractOrderingKey_def JobGetStatusPriority_def
lemmas run_handler_defs =
  RunExtractEventTimestamp_def RunExtractOrderingKey_def RunGetStatusPriority_def

section \<open>The contract\<close>

text \<open>
  What a payload means for the typed tables, independently of engine, metrics and notifications.
\<close>

record typed_tables =
  tt_jobs :: "job_row list"
  tt_runs :: "run_row list"

definition typed :: "('a dbw_scheme) \<Rightarrow> typed_tables" where
  "typed w = \<lparr>tt_jobs = workflow_jobs w, tt_runs = workflow_runs w\<rparr>"

definition job_of_event :: "WorkflowJobEvent \<Rightarrow> WorkflowJob" where
  "job_of_event event = (je_WorkflowJob event)\<lparr>j_Status := je_Action event\<rparr>"

definition run_of_event :: "WorkflowRunEvent \<Rightarrow> WorkflowRun" where
  "run_of_event event = (re_WorkflowRun event)\<lparr>r_Status := re_Action event,
     r_RepositoryName := repo_Name (re_Repository event)\<rparr>"

definition job_effect :: "bytes \<Rightarrow> gotime \<Rightarrow> typed_tables \<Rightarrow> typed_tables" where
  "job_effect eventData now t =
     (case unmarshal_job_event eventData of None \<Rightarrow> t
      | Some event \<Rightarrow> t\<lparr>tt_jobs := put_job (job_row_of (job_of_event event) now) (tt_jobs t)\<rparr>)"

definition run_effect :: "bytes \<Rightarrow> gotime \<Rightarrow> typed_tables \<Rightarrow> typed_tables" where
  "run_effect eventData now t =
     (case unmarshal_run_event eventData of None \<Rightarrow> t
      | Some event \<Rightarrow> t\<lparr>tt_runs := put_run (run_row_of (run_of_event event)) (tt_runs t)\<rparr>)"

locale event_handler_contract =
  fixes h :: event_handler
    and effect :: "bytes \<Rightarrow> gotime \<Rightarrow> typed_tables \<Rightarrow> typed_tables"
  assumes keeps_wf: "db_wf w \<Longrightarrow> db_wf (fst (HandleEvent h p s w))"
    and keeps_events: "webhook_events (fst (HandleEvent h p s w)) = webhook_events w"
    and keeps_clock: "clock (fst (HandleEvent h p s w)) = clock w"
    and done_effect: "snd (HandleEvent h p s w) = None \<Longrightarrow>
      typed (fst (HandleEvent h p s w)) = effect p (clock w) (typed w)"
    and error_frame: "snd (HandleEvent h p s w) = Some e \<Longrightarrow>
      typed (fst (HandleEvent h p s w)) = typed w \<and> \<not> errors_Is e ErrPermanent"
    and keeps_healthy: "healthy w \<Longrightarrow> healthy (fst (HandleEvent h p s w))"
    and validated: "healthy w \<Longrightarrow> ExtractEventTimestamp h p = Inr t \<Longrightarrow> snd (HandleEvent h p s w) = None"
    and extractors: "ExtractEventTimestamp h p = Inr t \<Longrightarrow>
      (\<exists>k prio. ExtractOrderingKey h p = Inr k \<and> GetStatusPriority h p = Inr prio \<and> 0 \<le> prio)"
begin

text \<open>The frame of one call, in the form the clients use.\<close>

lemma handle_cases:
  obtains (handled) w' where "HandleEvent h p s w = (w', None)" "typed w' = effect p (clock w) (typed w)"
      "webhook_events w' = webhook_events w" "clock w' = clock w"
  | (refused) w' e where "HandleEvent h p s w = (w', Some e)" "typed w' = typed w"
      "webhook_events w' = webhook_events w" "clock w' = clock w" "\<not> errors_Is e ErrPermanent"
  using keeps_events [of p s w] keeps_clock [of p s w] done_effect [of p s w] error_frame [of p s w]
  by (cases "HandleEvent h p s w"; cases "snd (HandleEvent h p s w)") auto

lemma handle_validated:
  assumes "healthy w" "ExtractEventTimestamp h p = Inr t"
  obtains w' where "HandleEvent h p s w = (w', None)" "typed w' = effect p (clock w) (typed w)"
      "webhook_events w' = webhook_events w" "clock w' = clock w" "healthy w'"
  using keeps_events [of p s w] keeps_clock [of p s w] done_effect [of p s w] validated [OF assms, of s]
    keeps_healthy [OF assms(1), of p s]
  by (cases "HandleEvent h p s w") auto

end

section \<open>Both handlers keep the contract\<close>

lemma emit_Nil [simp]: "emit [] w = w"
  by (simp add: emit_def)

lemma transition_emits: "\<exists>ms. handleJobStatusTransition prev cur job w = emit ms w"
  by (auto simp: handleJobStatusTransition_def registry_defs Let_def emit_def
      intro: exI [of _ "[]"])

lemma AddOrUpdateJob_error:
  "snd (AddOrUpdateJob job ts w) = Inl e \<Longrightarrow> \<not> errors_Is e ErrPermanent \<and> \<not> healthy w"
  using AddOrUpdateJob_healthy [of w job ts]
  by (auto simp: AddOrUpdateJob_def db_error_def Let_def split: option.splits prod.splits if_splits)

lemma AddOrUpdateRun_error:
  "snd (AddOrUpdateRun run ts w) = Inl e \<Longrightarrow> \<not> errors_Is e ErrPermanent \<and> \<not> healthy w"
  using AddOrUpdateRun_healthy [of w run ts]
  by (auto simp: AddOrUpdateRun_def db_error_def Let_def split: option.splits prod.splits if_splits)

lemma GetWorkflowJobByID_frame:
  obtains bs r where "GetWorkflowJobByID i w = (w\<lparr>tape := bs\<rparr>, r)" "healthy w \<longrightarrow> bs = []"
proof -
  obtain b bs where e: "engine w = (b, w\<lparr>tape := bs\<rparr>)" "healthy w \<longrightarrow> b \<and> bs = []"
    by (rule engine_cases_healthy [of w])
  then show thesis
    using that [of bs "snd (GetWorkflowJobByID i w)"] by (cases b) (auto simp: GetWorkflowJobByID_def)
qed

text \<open>The outcomes of a call: a failed one that leaves the tables, or the guarded write.\<close>

lemma JobHandleEvent_outcome:
  obtains (bad) e where "unmarshal_job_event p = None" "JobHandleEvent p s w = (w, Some e)"
      "\<not> errors_Is e ErrPermanent"
  | (failed) event bs e where "unmarshal_job_event p = Some event" "JobHandleEvent p s w = (w\<lparr>tape := bs\<rparr>, Some e)"
      "\<not> errors_Is e ErrPermanent" "\<not> healthy w"
  | (written) event bs ms where "unmarshal_job_event p = Some event"
      "JobHandleEvent p s w = (emit ms (w\<lparr>tape := bs, workflow_jobs :=
         put_job (job_row_of (job_of_event event) (clock w)) (workflow_jobs w)\<rparr>), None)"
      "healthy w \<longrightarrow> bs = []"
proof (cases "unmarshal_job_event p")
  case None
  then show thesis using bad by (simp add: JobHandleEvent_def json_error_def)
next
  case (Some event)
  define job where "job = job_of_event event"
  note j = job_def [unfolded job_of_event_def, symmetric]
  show thesis
  proof (cases "JobStatusPriority (j_Status job)")
    case None
    then have "JobHandleEvent p s w = (w, None)"
      by (simp add: JobHandleEvent_def Some j)
    moreover have "put_job (job_row_of job (clock w)) (workflow_jobs w) = workflow_jobs w"
      using None by (simp add: guarded_put_def accepts_def)
    ultimately show thesis using written [of event "[]" "tape w"] Some
      by (simp add: job_def healthy_def)
  next
    case prio: (Some pr)
    obtain b1 r1 where g: "GetWorkflowJobByID (j_ID job) w = (w\<lparr>tape := b1\<rparr>, r1)" "healthy w \<longrightarrow> b1 = []"
      by (rule GetWorkflowJobByID_frame [of "j_ID job" w])
    note h = JobHandleEvent_def Some j prio g(1) Let_def
    show thesis
    proof (cases rule: AddOrUpdateJob_outcome [of job "Timestamp s" "w\<lparr>tape := b1\<rparr>"])
      case o: (failed e bs)
      then have "\<not> errors_Is e ErrPermanent \<and> \<not> healthy (w\<lparr>tape := b1\<rparr>)"
        by (intro AddOrUpdateJob_error [of job "Timestamp s"]) simp
      with o g(2) Some show thesis
        using failed [of event bs "Wrap ''failed to save workflow job'' e"]
        by (auto simp: h healthy_def)
    next
      case o: (written bs)
      obtain ms where ms: "handleJobStatusTransition (j_Status (case r1 of Inl e \<Rightarrow> zero_job | Inr j \<Rightarrow> j))
          (j_Status job) job (w\<lparr>tape := bs, workflow_jobs :=
             put_job (job_row_of job (clock w)) (workflow_jobs w)\<rparr>) = emit ms (w\<lparr>tape := bs, workflow_jobs :=
             put_job (job_row_of job (clock w)) (workflow_jobs w)\<rparr>)"
        using transition_emits by blast
      have hb: "healthy w \<longrightarrow> bs = []"
        using o g(2) AddOrUpdateJob_healthy [of "w\<lparr>tape := b1\<rparr>" job "Timestamp s"]
        by (auto simp: healthy_def dest!: arg_cong [of _ _ "\<lambda>x. tape (fst x)"])
      show thesis
        using written [of event "if job_accepted job w then ms else []" bs] o Some hb ms
        by (auto simp: h job_accepted_def job_def [symmetric])
    qed
  qed
qed

lemma RunHandleEvent_outcome:
  obtains (bad) e where "unmarshal_run_event p = None" "RunHandleEvent p s w = (w, Some e)"
      "\<not> errors_Is e ErrPermanent"
  | (failed) event bs e where "unmarshal_run_event p = Some event" "RunHandleEvent p s w = (w\<lparr>tape := bs\<rparr>, Some e)"
      "\<not> errors_Is e ErrPermanent" "\<not> healthy w"
  | (written) event bs u where "unmarshal_run_event p = Some event"
      "RunHandleEvent p s w = ((if RunStatusPriority (re_Action event) \<noteq> None \<and> run_accepted (run_of_event event) w
          then SendWorkflowUpdate u else id)
        (w\<lparr>tape := bs, workflow_runs := put_run (run_row_of (run_of_event event)) (workflow_runs w)\<rparr>), None)"
      "healthy w \<longrightarrow> bs = []"
proof (cases "unmarshal_run_event p")
  case None
  then show thesis using bad by (simp add: RunHandleEvent_def json_error_def)
next
  case (Some event)
  define run where "run = run_of_event event"
  note j = run_def [unfolded run_of_event_def, symmetric]
  have status: "r_Status run = re_Action event" by (simp add: run_def run_of_event_def)
  show thesis
  proof (cases "RunStatusPriority (r_Status run)")
    case None
    then have "RunHandleEvent p s w = (w, None)"
      by (simp add: RunHandleEvent_def Some j)
    moreover have "put_run (run_row_of run) (workflow_runs w) = workflow_runs w"
      using None by (simp add: guarded_put_def accepts_def)
    ultimately show thesis using written [of event undefined "tape w"] Some None status
      by (simp add: run_def healthy_def)
  next
    case prio: (Some pr)
    note h = RunHandleEvent_def Some j prio Let_def
    show thesis
    proof (cases rule: AddOrUpdateRun_outcome [of run "Timestamp s" w])
      case o: (failed e bs)
      then have "\<not> errors_Is e ErrPermanent \<and> \<not> healthy w"
        by (intro AddOrUpdateRun_error [of run "Timestamp s"]) simp
      with o Some show thesis
        using failed [of event bs "Wrap ''failed to save workflow run'' e"]
        by (auto simp: h healthy_def)
    next
      case o: (written bs)
      have hb: "healthy w \<longrightarrow> bs = []"
        using o AddOrUpdateRun_healthy [of w run "Timestamp s"]
        by (auto simp: healthy_def dest!: arg_cong [of _ _ tape])
      show thesis
        using written [of event "\<lparr>wu_Type = ''run'', wu_Action = re_Action event, wu_ID = r_ID run,
            wu_Status = r_Status run, wu_Timestamp = format_RFC3339 (clock w), wu_WorkflowJob = zero_job,
            wu_WorkflowRun = run\<rparr>" bs]
          o Some hb prio status
        by (auto simp: h run_def [symmetric])
    qed
  qed
qed

interpretation job_handler: event_handler_contract NewWorkflowJobHandler job_effect
proof unfold_locales
  fix w p s e t
  note d = NewWorkflowJobHandler_def
  note o = JobHandleEvent_outcome [of p s w]
  show "db_wf w \<Longrightarrow> db_wf (fst (HandleEvent NewWorkflowJobHandler p s w))"
    by (rule o) (auto simp: d db_wf_def job_table.wf_gput rows_known_put)
  show "webhook_events (fst (HandleEvent NewWorkflowJobHandler p s w)) = webhook_events w"
    by (rule o) (auto simp: d)
  show "clock (fst (HandleEvent NewWorkflowJobHandler p s w)) = clock w"
    by (rule o) (auto simp: d)
  show "snd (HandleEvent NewWorkflowJobHandler p s w) = None \<Longrightarrow>
      typed (fst (HandleEvent NewWorkflowJobHandler p s w)) = job_effect p (clock w) (typed w)"
    by (rule o) (auto simp: d typed_def job_effect_def)
  show "snd (HandleEvent NewWorkflowJobHandler p s w) = Some e \<Longrightarrow>
      typed (fst (HandleEvent NewWorkflowJobHandler p s w)) = typed w \<and> \<not> errors_Is e ErrPermanent"
    by (rule o) (auto simp: d typed_def)
  show "healthy w \<Longrightarrow> healthy (fst (HandleEvent NewWorkflowJobHandler p s w))"
    by (rule o) (auto simp: d healthy_def)
  show "healthy w \<Longrightarrow> ExtractEventTimestamp NewWorkflowJobHandler p = Inr t \<Longrightarrow>
      snd (HandleEvent NewWorkflowJobHandler p s w) = None"
    by (rule o) (auto simp: d JobExtractEventTimestamp_def)
  show "ExtractEventTimestamp NewWorkflowJobHandler p = Inr t \<Longrightarrow>
      \<exists>k prio. ExtractOrderingKey NewWorkflowJobHandler p = Inr k \<and>
        GetStatusPriority NewWorkflowJobHandler p = Inr prio \<and> 0 \<le> prio"
    by (auto simp: d job_handler_defs split: option.splits)
qed

interpretation run_handler: event_handler_contract NewWorkflowRunHandler run_effect
proof unfold_locales
  fix w p s e t
  note d = NewWorkflowRunHandler_def
  note o = RunHandleEvent_outcome [of p s w]
  show "db_wf w \<Longrightarrow> db_wf (fst (HandleEvent NewWorkflowRunHandler p s w))"
    by (rule o) (auto simp: d db_wf_def run_table.wf_gput rows_known_put)
  show "webhook_events (fst (HandleEvent NewWorkflowRunHandler p s w)) = webhook_events w"
    by (rule o) (auto simp: d)
  show "clock (fst (HandleEvent NewWorkflowRunHandler p s w)) = clock w"
    by (rule o) (auto simp: d)
  show "snd (HandleEvent NewWorkflowRunHandler p s w) = None \<Longrightarrow>
      typed (fst (HandleEvent NewWorkflowRunHandler p s w)) = run_effect p (clock w) (typed w)"
    by (rule o) (auto simp: d typed_def run_effect_def)
  show "snd (HandleEvent NewWorkflowRunHandler p s w) = Some e \<Longrightarrow>
      typed (fst (HandleEvent NewWorkflowRunHandler p s w)) = typed w \<and> \<not> errors_Is e ErrPermanent"
    by (rule o) (auto simp: d typed_def)
  show "healthy w \<Longrightarrow> healthy (fst (HandleEvent NewWorkflowRunHandler p s w))"
    by (rule o) (auto simp: d healthy_def)
  show "healthy w \<Longrightarrow> ExtractEventTimestamp NewWorkflowRunHandler p = Inr t \<Longrightarrow>
      snd (HandleEvent NewWorkflowRunHandler p s w) = None"
    by (rule o) (auto simp: d RunExtractEventTimestamp_def)
  show "ExtractEventTimestamp NewWorkflowRunHandler p = Inr t \<Longrightarrow>
      \<exists>k prio. ExtractOrderingKey NewWorkflowRunHandler p = Inr k \<and>
        GetStatusPriority NewWorkflowRunHandler p = Inr prio \<and> 0 \<le> prio"
    by (auto simp: d run_handler_defs split: option.splits)
qed

end
