(* ===== verification/Webhook.thy ===== *)
theory Webhook
  imports Http Handlers Ordering
begin

text \<open>
  The webhook endpoint, \<open>handlers/webhook_handler.go\<close>: signature validation, the transport
  independent \<open>Ingest\<close>, the HTTP handler, and the processing function it gives to the ordering
  service.  The locale \<open>registered_handlers\<close> derives the service's contract on the processing
  function from the contracts of the registered event handlers.
\<close>

section \<open>Handlers and the processing function\<close>

type_synonym handler_map = "string \<rightharpoonup> event_handler"

definition RegisterHandler :: "event_handler \<Rightarrow> handler_map \<Rightarrow> handler_map" where
  "RegisterHandler h hs = hs(GetEventType h \<mapsto> h)"

definition NewWebhookHandler :: handler_map where
  "NewWebhookHandler = RegisterHandler NewWorkflowRunHandler (RegisterHandler NewWorkflowJobHandler Map.empty)"

definition processOrderedEvent :: "handler_map \<Rightarrow> process_func" where
  "processOrderedEvent hs event w =
     (case hs (EventType event) of
        None \<Rightarrow> (w, Some (Wrap (''event type '' @ EventType event) ErrPermanent))
      | Some h \<Rightarrow>
     (case HandleEvent h (RawPayload event) (Sequence event) w of
        (w, Some err) \<Rightarrow>
          ((if Persisted event then fst (MarkEventFailed (DeliveryID (Sequence event)) w) else w),
           Some (Wrap ''failed to handle event'' err))
      | (w, None) \<Rightarrow>
          if Persisted event then MarkEventProcessed (DeliveryID (Sequence event)) w else (w, None)))"

section \<open>Ingest\<close>

record IngestResult =
  Status :: nat
  Message :: string

definition result :: "nat \<Rightarrow> string \<Rightarrow> IngestResult" where
  "result st m = \<lparr>Status = st, Message = m\<rparr>"

definition has_prefix :: "string \<Rightarrow> string \<Rightarrow> bool" where
  "has_prefix p s \<longleftrightarrow> take (length p) s = p"

definition payload_prefix :: string where
  "payload_prefix = ''payload=''"

text \<open>The JSON text of a body, or the message of a 400.\<close>

definition unwrap_payload :: "bytes \<Rightarrow> string + bytes" where
  "unwrap_payload body =
     (if has_prefix payload_prefix body then
        (case query_unescape body of
           None \<Rightarrow> Inl ''Failed to decode URL-encoded payload''
         | Some decodedBody \<Rightarrow>
             if \<not> has_prefix payload_prefix decodedBody then Inl ''Invalid URL-encoded payload format''
             else Inr (drop (length payload_prefix) decodedBody))
      else Inr body)"

definition on_world :: "(world \<Rightarrow> world) \<Rightarrow> svc \<Rightarrow> svc" where
  "on_world f s = s\<lparr>wrld := f (wrld s)\<rparr>"

definition count_delivery :: "string \<Rightarrow> string \<Rightarrow> svc \<Rightarrow> svc" where
  "count_delivery eventType outcome = on_world (WebhookEventsTotal_Inc eventType outcome)"

definition Ingest ::
  "handler_map \<Rightarrow> (svc \<Rightarrow> svc \<times> select_case) \<Rightarrow> string \<Rightarrow> string \<Rightarrow> bytes \<Rightarrow> svc \<Rightarrow> svc \<times> IngestResult" where
  "Ingest hs wait eventType deliveryID body s =
     (if eventType = [] then (s, result 400 ''Missing event type'')
      else if deliveryID = [] then (s, result 400 ''Missing delivery ID'') else
      case unwrap_payload body of Inl m \<Rightarrow> (s, result 400 m) | Inr jsonData \<Rightarrow>
      if \<not> unmarshal_map jsonData then (s, result 400 ''Invalid JSON payload'') else
      case hs eventType of
        None \<Rightarrow> (count_delivery eventType ''ignored'' s, result 200 ''Event type not supported'')
      | Some h \<Rightarrow>
      case ExtractEventTimestamp h jsonData of
        Inl e \<Rightarrow> (count_delivery eventType ''rejected_invalid'' s, result 400 ''Failed to extract event timestamp'')
      | Inr extractedTime \<Rightarrow>
      case ExtractOrderingKey h jsonData of
        Inl e \<Rightarrow> (count_delivery eventType ''rejected_invalid'' s, result 400 ''Failed to extract ordering key'')
      | Inr orderingKey \<Rightarrow>
      case GetStatusPriority h jsonData of
        Inl e \<Rightarrow> (count_delivery eventType ''rejected_invalid'' s, result 400 ''Failed to extract status priority'')
      | Inr statusPriority \<Rightarrow>
      case AddEvent wait
          \<lparr>Sequence = \<lparr>EventID = deliveryID, SequenceID = 0, Timestamp = extractedTime,
             DeliveryID = deliveryID, ReceivedAt = clock (wrld s)\<rparr>,
           EventType = eventType, RawPayload = jsonData, ProcessedAt = None,
           OrderingKey = orderingKey, StatusPriority = statusPriority, Persisted = False\<rparr> s of
        (s, None) \<Rightarrow> (count_delivery eventType ''accepted'' s, result 202 ''Event queued for processing'')
      | (s, Some err) \<Rightarrow>
          if errors_Is err ErrIngestQueueFull
          then (count_delivery eventType ''rejected_queue_full'' s,
                result 503 ''Server overloaded; manual redelivery required'')
          else (count_delivery eventType ''rejected_invalid'' s, result 500 ''Failed to process event''))"

text \<open>With room in the queue \<open>Ingest\<close> answers 202 on one path only; every other path counts at most.\<close>

lemma AddEvent_room: "has_room s \<Longrightarrow> AddEvent wait ev s = (send_event ev s, None)"
  by (simp add: AddEvent_def)

lemma Ingest_room:
  assumes "has_room s"
  obtains (accepted) jsonData h tm key prio ev where "unwrap_payload body = Inr jsonData" "hs t = Some h"
      "ExtractEventTimestamp h jsonData = Inr tm" "ExtractOrderingKey h jsonData = Inr key"
      "GetStatusPriority h jsonData = Inr prio"
      "ev = \<lparr>Sequence = \<lparr>EventID = d, SequenceID = 0, Timestamp = tm, DeliveryID = d, ReceivedAt = clock (wrld s)\<rparr>,
         EventType = t, RawPayload = jsonData, ProcessedAt = None, OrderingKey = key,
         StatusPriority = prio, Persisted = False\<rparr>"
      "Ingest hs wait t d body s =
         (count_delivery t ''accepted'' (send_event ev s), result 202 ''Event queued for processing'')"
  | (refused) st m ms where "st \<in> {200, 400}" "Ingest hs wait t d body s = (on_world (emit ms) s, result st m)"
proof -
  define R where "R x \<longleftrightarrow> (\<exists>st m ms. st \<in> {200, 400} \<and> x = (on_world (emit ms) s, result st m))" for x
  have "s = on_world (emit []) s" by (simp add: on_world_def emit_def)
  then have plain: "R (s, result 400 m)" for m unfolding R_def by blast
  have counted: "R (count_delivery t o' s, result st m)" if "st \<in> {200, 400}" for o' m st
    unfolding R_def count_delivery_def WebhookEventsTotal_Inc_def using that by blast
  define acc where "acc \<longleftrightarrow> (\<exists>jsonData h tm key prio. unwrap_payload body = Inr jsonData \<and> hs t = Some h \<and>
      ExtractEventTimestamp h jsonData = Inr tm \<and> ExtractOrderingKey h jsonData = Inr key \<and>
      GetStatusPriority h jsonData = Inr prio \<and> t \<noteq> [] \<and> d \<noteq> [] \<and> unmarshal_map jsonData)"
  show thesis
  proof (cases acc)
    case True
    then obtain jsonData h tm key prio where c: "unwrap_payload body = Inr jsonData" "hs t = Some h"
      "ExtractEventTimestamp h jsonData = Inr tm" "ExtractOrderingKey h jsonData = Inr key"
      "GetStatusPriority h jsonData = Inr prio" "t \<noteq> []" "d \<noteq> []" "unmarshal_map jsonData"
      unfolding acc_def by blast
    show thesis by (rule accepted [OF c(1-5) refl]) (simp add: Ingest_def c AddEvent_room [OF assms])
  next
    case False
    then have "R (Ingest hs wait t d body s)"
      unfolding Ingest_def acc_def
      by (auto split: sum.split option.split intro: plain counted)
    then show thesis using refused unfolding R_def by blast
  qed
qed

section \<open>The HTTP endpoint\<close>

text \<open>A request: its headers, its body, and whether reading the body fails with an I/O error.\<close>

record http_request =
  rq_signature :: string   \<comment> \<open>\<open>X-Hub-Signature-256\<close>\<close>
  rq_event :: string       \<comment> \<open>\<open>X-GitHub-Event\<close>\<close>
  rq_delivery :: string    \<comment> \<open>\<open>X-GitHub-Delivery\<close>\<close>
  rq_body :: bytes
  rq_broken :: bool

definition maxBodySize :: nat where
  "maxBodySize = 10 * 1024 * 1024"

definition strip_sha256 :: "string \<Rightarrow> string" where
  "strip_sha256 signature =
     (if 7 < length signature \<and> take 7 signature = ''sha256='' then drop 7 signature else signature)"

text \<open>\<open>ValidateGitHubWebhook\<close>: the response it aborts with, or the event type it hands on.\<close>

definition ValidateGitHubWebhook :: "bytes \<Rightarrow> http_request \<Rightarrow> http_response + string" where
  "ValidateGitHubWebhook webhookSecret rq =
     (if webhookSecret = [] then Inl (error_json 500 ''Webhook secret not configured'')
      else if rq_signature rq = [] then Inl (error_json 401 ''Missing signature header'')
      else if rq_broken rq then Inl (error_json 500 ''Failed to read request body'')
      else if maxBodySize < length (rq_body rq) then Inl (error_json 413 ''Request body too large'') else
      case hex_decode (hex_encode (hmac_sha256 webhookSecret (rq_body rq))) of
        None \<Rightarrow> Inl (error_json 500 ''Failed to validate signature'')
      | Some expectedBytes \<Rightarrow>
      case hex_decode (strip_sha256 (rq_signature rq)) of
        None \<Rightarrow> Inl (error_json 401 ''Invalid signature format'')
      | Some receivedBytes \<Rightarrow>
      if expectedBytes \<noteq> receivedBytes then Inl (error_json 401 ''Invalid signature'')
      else if rq_event rq = [] then Inl (error_json 400 ''Missing event type'')
      else Inr (rq_event rq))"

text \<open>\<open>Handle\<close>, which reads the body the middleware has put back, and the route of the server.\<close>

definition Handle ::
  "handler_map \<Rightarrow> (svc \<Rightarrow> svc \<times> select_case) \<Rightarrow> string option \<Rightarrow> http_request \<Rightarrow> svc \<Rightarrow> svc \<times> http_response" where
  "Handle hs wait eventType rq s =
     (if rq_broken rq then (s, error_json 400 ''Failed to read request body'') else
      case eventType of None \<Rightarrow> (s, error_json 400 ''Missing event type'') | Some t \<Rightarrow>
      case Ingest hs wait t (rq_delivery rq) (rq_body rq) s of (s, r) \<Rightarrow>
        (s, if Status r = 202 then \<lparr>rs_status = 202, rs_body = [(''status'', ''queued''), (''message'', Message r)]\<rparr>
            else if Status r = 200 then \<lparr>rs_status = 200, rs_body = [(''status'', ''ignored''), (''message'', Message r)]\<rparr>
            else error_json (Status r) (Message r)))"

definition webhook_route ::
  "bytes \<Rightarrow> handler_map \<Rightarrow> (svc \<Rightarrow> svc \<times> select_case) \<Rightarrow> http_request \<Rightarrow> svc \<Rightarrow> svc \<times> http_response" where
  "webhook_route secret hs wait rq s =
     (case ValidateGitHubWebhook secret rq of
        Inl r \<Rightarrow> (s, r)
      | Inr t \<Rightarrow> Handle hs wait (Some t) rq s)"

lemma passes_iff:
  "ValidateGitHubWebhook secret rq = Inr t \<longleftrightarrow>
     secret \<noteq> [] \<and> \<not> rq_broken rq \<and> length (rq_body rq) \<le> maxBodySize \<and>
     hex_decode (strip_sha256 (rq_signature rq)) = Some (hmac_sha256 secret (rq_body rq)) \<and>
     rq_event rq = t \<and> t \<noteq> []"
proof -
  have "strip_sha256 [] = []" by (simp add: strip_sha256_def)
  moreover have "hmac_sha256 secret (rq_body rq) \<noteq> []"
    using hmac_length [of secret "rq_body rq"] by auto
  ultimately show ?thesis
    by (auto simp: ValidateGitHubWebhook_def hex_round_trip split: option.splits if_splits)
qed

section \<open>The contract of the processing function\<close>

lemma pending_rows_update:
  assumes "\<And>r. er_delivery_id (f r) = er_delivery_id r" "\<And>r. \<not> is_pending (f r)"
  shows "filter is_pending (update_rows (\<lambda>r. er_delivery_id r = d) f rows) =
    filter (\<lambda>r. er_delivery_id r \<noteq> d) (filter is_pending rows)"
  by (induction rows) (auto simp: update_rows_def assms)

lemma map_id_update_rows:
  "(\<And>r. er_delivery_id (f r) = er_delivery_id r) \<Longrightarrow>
   map er_delivery_id (update_rows P f rows) = map er_delivery_id rows"
  by (induction rows) (auto simp: update_rows_def)

lemma mark_ids:
  "map er_delivery_id (webhook_events (fst (MarkEventProcessed d w))) = map er_delivery_id (webhook_events w)"
  "map er_delivery_id (webhook_events (fst (MarkEventFailed d w))) = map er_delivery_id (webhook_events w)"
  using MarkEvent_outcome [of d w] by (auto simp: map_id_update_rows)

lemma mark_healthy:
  "healthy w \<Longrightarrow> MarkEventProcessed d w = (w\<lparr>webhook_events := update_rows (\<lambda>r. er_delivery_id r = d)
       (mark_processed (format_RFC3339 (clock w))) (webhook_events w)\<rparr>, None)"
  "healthy w \<Longrightarrow> MarkEventFailed d w = (w\<lparr>webhook_events := update_rows (\<lambda>r. er_delivery_id r = d)
       mark_failed (webhook_events w)\<rparr>, None)"
  by (simp_all add: MarkEventProcessed_def MarkEventFailed_def)

lemma mark_error: "snd (MarkEventProcessed d w) = Some e \<Longrightarrow> \<not> IsPermanent e"
  by (auto simp: MarkEventProcessed_def db_error_def IsPermanent_def split: prod.splits if_splits)

locale registered_handlers =
  fixes hs :: handler_map and effect :: "string \<Rightarrow> bytes \<Rightarrow> gotime \<Rightarrow> typed_tables \<Rightarrow> typed_tables"
  assumes registered: "hs t = Some h \<Longrightarrow> event_handler_contract h (effect t)"

sublocale registered_handlers \<subseteq> replayed: process_contract "processOrderedEvent hs" "\<lambda>t. hs t \<noteq> None"
proof unfold_locales
  fix w :: world and ev :: OrderedEvent and e :: go_error
  note d = processOrderedEvent_def
  let ?p = "RawPayload ev" let ?s = "Sequence ev"
  show "db_wf w \<Longrightarrow> db_wf (fst (processOrderedEvent hs ev w))"
    using registered [THEN event_handler_contract.keeps_wf, of "EventType ev" _ w ?p ?s]
    by (auto simp: d db_wf_MarkEventFailed db_wf_MarkEventProcessed split: option.split prod.split)
  show "map er_delivery_id (webhook_events (fst (processOrderedEvent hs ev w))) =
      map er_delivery_id (webhook_events w)"
    using registered [THEN event_handler_contract.keeps_events, of "EventType ev" _ ?p ?s w]
    by (auto simp: d mark_ids split: option.split prod.split)
  show "\<not> Persisted ev \<Longrightarrow> webhook_events (fst (processOrderedEvent hs ev w)) = webhook_events w"
    using registered [THEN event_handler_contract.keeps_events, of "EventType ev" _ ?p ?s w]
    by (auto simp: d split: option.split prod.split)
  show "healthy w \<Longrightarrow> healthy (fst (processOrderedEvent hs ev w))"
    using registered [THEN event_handler_contract.keeps_healthy, of "EventType ev" _ w ?p ?s]
    by (auto simp: d mark_healthy healthy_def split: option.split prod.split)
  show "healthy w \<Longrightarrow> Persisted ev \<Longrightarrow> hs (EventType ev) \<noteq> None \<Longrightarrow>
      pending_rows (fst (processOrderedEvent hs ev w)) =
        filter (\<lambda>r. er_delivery_id r \<noteq> DeliveryID (Sequence ev)) (pending_rows w)"
    using registered [THEN event_handler_contract.keeps_events, of "EventType ev" _ ?p ?s w]
      registered [THEN event_handler_contract.keeps_healthy, of "EventType ev" _ w ?p ?s]
    by (auto simp: d mark_healthy pending_rows_def pending_rows_update is_pending_def
        split: option.split prod.split)
  show "snd (processOrderedEvent hs ev w) = Some e \<Longrightarrow> IsPermanent e \<longleftrightarrow> \<not> (hs (EventType ev) \<noteq> None)"
    using registered [THEN event_handler_contract.error_frame, of "EventType ev" _ ?p ?s w]
    by (auto simp: d IsPermanent_def dest: mark_error [unfolded IsPermanent_def] split: option.splits prod.splits if_splits)
qed

text \<open>The handler map of the server.\<close>

definition server_effect :: "string \<Rightarrow> bytes \<Rightarrow> gotime \<Rightarrow> typed_tables \<Rightarrow> typed_tables" where
  "server_effect t = (if t = ''workflow_job'' then job_effect else run_effect)"

lemma NewWebhookHandler_lookup:
  "NewWebhookHandler t =
     (if t = ''workflow_run'' then Some NewWorkflowRunHandler
      else if t = ''workflow_job'' then Some NewWorkflowJobHandler else None)"
  by (simp add: NewWebhookHandler_def RegisterHandler_def NewWorkflowRunHandler_def NewWorkflowJobHandler_def)

interpretation server: registered_handlers NewWebhookHandler server_effect
proof (rule registered_handlers.intro)
  fix t h
  assume "NewWebhookHandler t = Some h"
  then show "event_handler_contract h (server_effect t)"
    by (auto simp: NewWebhookHandler_lookup server_effect_def split: if_splits
        intro: job_handler.event_handler_contract_axioms run_handler.event_handler_contract_axioms)
qed

abbreviation server_pf :: process_func where
  "server_pf \<equiv> processOrderedEvent NewWebhookHandler"

section \<open>Processing as a function on the typed tables\<close>

text \<open>What an event does to the typed tables when it is processed without an error.\<close>

definition event_effect :: "OrderedEvent \<Rightarrow> gotime \<Rightarrow> typed_tables \<Rightarrow> typed_tables" where
  "event_effect ev now t =
     (if NewWebhookHandler (EventType ev) = None then t
      else server_effect (EventType ev) (RawPayload ev) now t)"

definition parses :: "OrderedEvent \<Rightarrow> bool" where
  "parses ev \<longleftrightarrow>
     (EventType ev = ''workflow_job'' \<longrightarrow> unmarshal_job_event (RawPayload ev) \<noteq> None) \<and>
     (EventType ev = ''workflow_run'' \<longrightarrow> unmarshal_run_event (RawPayload ev) \<noteq> None)"

lemma mark_typed [simp]:
  "typed (fst (MarkEventProcessed d w)) = typed w" "typed (fst (MarkEventFailed d w)) = typed w"
  "clock (fst (MarkEventProcessed d w)) = clock w" "clock (fst (MarkEventFailed d w)) = clock w"
  using MarkEvent_outcome [of d w] by (auto simp: typed_def)

text \<open>Every call either performs the effect or leaves the typed tables as they were.\<close>

lemma processOrderedEvent_typed:
  "typed (fst (processOrderedEvent NewWebhookHandler ev w)) \<in> {typed w, event_effect ev (clock w) (typed w)}"
  "clock (fst (processOrderedEvent NewWebhookHandler ev w)) = clock w"
proof -
  have "typed (fst (processOrderedEvent NewWebhookHandler ev w)) \<in> {typed w, event_effect ev (clock w) (typed w)} \<and>
    clock (fst (processOrderedEvent NewWebhookHandler ev w)) = clock w"
  proof (cases "NewWebhookHandler (EventType ev)")
    case None
    then show ?thesis by (simp add: processOrderedEvent_def)
  next
    case (Some h)
    show ?thesis
      by (rule event_handler_contract.handle_cases [OF server.registered [OF Some], of "RawPayload ev" "Sequence ev" w])
         (simp_all add: processOrderedEvent_def event_effect_def Some)
  qed
  then show "typed (fst (processOrderedEvent NewWebhookHandler ev w)) \<in> {typed w, event_effect ev (clock w) (typed w)}"
    and "clock (fst (processOrderedEvent NewWebhookHandler ev w)) = clock w" by auto
qed

lemma parses_extract:
  "parses ev \<Longrightarrow> NewWebhookHandler (EventType ev) = Some h \<Longrightarrow>
   \<exists>t. ExtractEventTimestamp h (RawPayload ev) = Inr t"
  by (auto simp: NewWebhookHandler_lookup parses_def NewWorkflowJobHandler_def NewWorkflowRunHandler_def
      JobExtractEventTimestamp_def RunExtractEventTimestamp_def split: if_splits)

lemma processOrderedEvent_healthy:
  assumes "healthy w" "parses ev"
  shows "typed (fst (processOrderedEvent NewWebhookHandler ev w)) = event_effect ev (clock w) (typed w)"
    and "snd (processOrderedEvent NewWebhookHandler ev w) =
      (if NewWebhookHandler (EventType ev) = None
       then Some (Wrap (''event type '' @ EventType ev) ErrPermanent) else None)"
proof -
  have "typed (fst (processOrderedEvent NewWebhookHandler ev w)) = event_effect ev (clock w) (typed w) \<and>
    snd (processOrderedEvent NewWebhookHandler ev w) =
      (if NewWebhookHandler (EventType ev) = None
       then Some (Wrap (''event type '' @ EventType ev) ErrPermanent) else None)"
  proof (cases "NewWebhookHandler (EventType ev)")
    case None
    then show ?thesis by (simp add: processOrderedEvent_def event_effect_def)
  next
    case (Some h)
    then obtain t where "ExtractEventTimestamp h (RawPayload ev) = Inr t"
      using assms(2) parses_extract by blast
    with server.registered [OF Some] assms(1) obtain w' where
      "HandleEvent h (RawPayload ev) (Sequence ev) w = (w', None)" "healthy w'"
      "typed w' = server_effect (EventType ev) (RawPayload ev) (clock w) (typed w)"
      by (rule event_handler_contract.handle_validated [where s = "Sequence ev"])
    then show ?thesis
      using Some mark_typed(1) [of "DeliveryID (Sequence ev)" w']
      by (simp add: processOrderedEvent_def event_effect_def mark_healthy)
  qed
  then show "typed (fst (processOrderedEvent NewWebhookHandler ev w)) = event_effect ev (clock w) (typed w)"
    and "snd (processOrderedEvent NewWebhookHandler ev w) =
      (if NewWebhookHandler (EventType ev) = None
       then Some (Wrap (''event type '' @ EventType ev) ErrPermanent) else None)" by auto
qed

lemma processEvents_healthy_effect:
  "healthy w \<Longrightarrow> \<forall>ev \<in> set evs. parses ev \<Longrightarrow>
   typed (processEvents (processOrderedEvent NewWebhookHandler) evs w) =
     fold (\<lambda>ev. event_effect ev (clock w)) evs (typed w)"
  by (induction evs arbitrary: w)
     (simp_all add: processOrderedEvent_healthy(1) processOrderedEvent_typed(2) server.replayed.pf_healthy)

text \<open>The rows a list of events writes, in order.\<close>

definition job_rows :: "gotime \<Rightarrow> OrderedEvent list \<Rightarrow> job_row list" where
  "job_rows now evs = List.map_filter (\<lambda>ev.
     if EventType ev = ''workflow_job''
     then map_option (\<lambda>event. job_row_of (job_of_event event) now) (unmarshal_job_event (RawPayload ev))
     else None) evs"

definition run_rows :: "OrderedEvent list \<Rightarrow> run_row list" where
  "run_rows evs = List.map_filter (\<lambda>ev.
     if EventType ev = ''workflow_run''
     then map_option (\<lambda>event. run_row_of (run_of_event event)) (unmarshal_run_event (RawPayload ev))
     else None) evs"

lemma fold_event_effect:
  "fold (\<lambda>ev. event_effect ev now) evs t =
     \<lparr>tt_jobs = fold put_job (job_rows now evs) (tt_jobs t), tt_runs = fold put_run (run_rows evs) (tt_runs t)\<rparr>"
proof (induction evs arbitrary: t)
  case Nil
  show ?case by (simp add: job_rows_def run_rows_def map_filter_simps)
next
  case (Cons ev evs)
  then show ?case
    by (auto simp: job_rows_def run_rows_def map_filter_simps event_effect_def server_effect_def
        job_effect_def run_effect_def NewWebhookHandler_lookup split: option.split)
qed

lemma processEvents_jobs:
  assumes "healthy w" "\<forall>ev \<in> set evs. parses ev"
  shows "workflow_jobs (processEvents (processOrderedEvent NewWebhookHandler) evs w) =
      fold put_job (job_rows (clock w) evs) (workflow_jobs w)"
    and "workflow_runs (processEvents (processOrderedEvent NewWebhookHandler) evs w) =
      fold put_run (run_rows evs) (workflow_runs w)"
  using arg_cong [OF processEvents_healthy_effect [OF assms], of tt_jobs]
    arg_cong [OF processEvents_healthy_effect [OF assms], of tt_runs]
  by (simp_all add: fold_event_effect typed_def)

section \<open>The typed tables along every interleaving\<close>

text \<open>
  A step of the service, whatever the engine does, leaves the typed tables or performs the effect
  of one event.
\<close>

lemma flushSpill_typed: "typed (wrld (flushSpill c s)) = typed (wrld s) \<and> clock (wrld (flushSpill c s)) = clock (wrld s)"
  by (rule flushSpill_outcome [of s c]) (auto simp: typed_def)

lemma process_typed:
  "typed (wrld (process (processOrderedEvent NewWebhookHandler) ev s)) \<in>
     {typed (wrld s), event_effect ev (clock (wrld s)) (typed (wrld s))}"
  using processOrderedEvent_typed(1) [of ev "wrld s"]
  by (auto simp: process_def WebhookEventsTotal_Inc_def typed_def split: prod.splits option.splits)

lemma ingest_take_typed:
  "typed (wrld (ingest_take (processOrderedEvent NewWebhookHandler) c ev rest s)) \<in>
     {typed (wrld s), event_effect ev (clock (wrld s)) (typed (wrld s))}"
  using process_typed [of ev "s\<lparr>ingestCh := rest, taken := taken s @ [ev]\<rparr>"] flushSpill_typed
  by (auto simp: ingest_take_def Let_def)

lemma typed_surroundings [simp]:
  "typed (w\<lparr>tape := bs\<rparr>) = typed w" "typed (w\<lparr>clock := t\<rparr>) = typed w"
  "typed (v\<lparr>tape := bs, mlog := ms, sse := h\<rparr>) = typed (v :: world)"
  by (simp_all add: typed_def)

lemma server_step_typed:
  "svc_step (processOrderedEvent NewWebhookHandler) s s' \<Longrightarrow>
   \<exists>ev now. typed (wrld s') = typed (wrld s) \<or> typed (wrld s') = event_effect ev now (typed (wrld s))"
proof (induction rule: svc_step.induct)
  case (step_take s ev rest)
  show ?case using ingest_take_typed [of "ctxDone s" ev rest s] by auto
next
  case (step_drain s ev rest)
  show ?case using ingest_take_typed [of False ev rest s] by auto
next
  case (step_fetch s w evs)
  from pending_query_frame(1) [OF step_fetch(3)] show ?case by auto
next
  case (step_fetch_error s w e)
  from pending_query_frame(1) [OF step_fetch_error(2)] show ?case by auto
next
  case (step_final s w evs)
  from pending_query_frame(2) [OF step_final(4)] show ?case by auto
next
  case (step_final_error s w e)
  from pending_query_frame(2) [OF step_final_error(4)] show ?case by auto
next
  case (step_replay s ev evs)
  show ?case using processOrderedEvent_typed(1) [of ev "wrld s"] by auto
next
  case (step_final_replay s ev evs)
  show ?case using processOrderedEvent_typed(1) [of ev "wrld s"] by auto
qed (auto simp: send_event_def flushSpill_typed)

text \<open>So each typed table only changes by guarded writes, and the lifecycle laws hold for every run.\<close>

lemma event_effect_puts:
  "\<exists>rs us. tt_jobs (event_effect ev now t) = fold put_job rs (tt_jobs t) \<and>
           tt_runs (event_effect ev now t) = fold put_run us (tt_runs t)"
  using fold_event_effect [of now "[ev]" t] by auto

lemma server_run_puts:
  "(svc_step (processOrderedEvent NewWebhookHandler))\<^sup>*\<^sup>* s s' \<Longrightarrow>
   \<exists>rs us. workflow_jobs (wrld s') = fold put_job rs (workflow_jobs (wrld s)) \<and>
           workflow_runs (wrld s') = fold put_run us (workflow_runs (wrld s))"
proof (induction rule: rtranclp_induct)
  case base
  show ?case by (auto intro: exI [of _ "[]"])
next
  case (step s1 s2)
  then obtain rs us where 1: "workflow_jobs (wrld s1) = fold put_job rs (workflow_jobs (wrld s))"
    "workflow_runs (wrld s1) = fold put_run us (workflow_runs (wrld s))" by blast
  obtain rs' us' where 2: "workflow_jobs (wrld s2) = fold put_job rs' (workflow_jobs (wrld s1))"
    "workflow_runs (wrld s2) = fold put_run us' (workflow_runs (wrld s1))"
  proof -
    obtain ev now where "typed (wrld s2) = typed (wrld s1) \<or> typed (wrld s2) = event_effect ev now (typed (wrld s1))"
      using server_step_typed [OF step(2)] by blast
    then show thesis
    proof
      assume "typed (wrld s2) = typed (wrld s1)"
      then show thesis by (intro that [of "[]" "[]"]) (simp_all add: typed_def)
    next
      assume e: "typed (wrld s2) = event_effect ev now (typed (wrld s1))"
      obtain rs us where "tt_jobs (typed (wrld s2)) = fold put_job rs (tt_jobs (typed (wrld s1)))"
        "tt_runs (typed (wrld s2)) = fold put_run us (tt_runs (typed (wrld s1)))"
        unfolding e using event_effect_puts by blast
      then show thesis by (intro that [of rs us]) (simp_all add: typed_def)
    qed
  qed
  have "workflow_jobs (wrld s2) = fold put_job (rs @ rs') (workflow_jobs (wrld s))"
    "workflow_runs (wrld s2) = fold put_run (us @ us') (workflow_runs (wrld s))"
    by (simp_all add: 1 2)
  then show ?case by blast
qed

end
