(* ===== verification/Json_Labels.thy ===== *)
theory Json_Labels
  imports Db_Workflow
begin

text \<open>
  The label column: what \<open>labelsToJSON\<close> writes for ASCII labels is read back by
  \<open>labelsFromJSON\<close> as it was, whatever characters the labels contain.
\<close>

section \<open>One character\<close>

lemma hex_digits_ok: "list_all (\<lambda>n. hex_val (hex_digit n) = Some n \<and> hex_digit n \<noteq> CHR 0x22) [0..<16]"
  by code_simp

lemma hex_val_digit [simp]: "n < 16 \<Longrightarrow> hex_val (hex_digit n) = Some n"
  using hex_digits_ok by (auto simp: list_all_iff)

lemma is_hex_digit [simp]: "n < 16 \<Longrightarrow> is_hex (hex_digit n)"
  by (simp add: is_hex_def)

lemma is_hex_zero [simp]: "is_hex (CHR ''0'')" "hex_val (CHR ''0'') = Some 0"
  by (simp_all add: is_hex_def hex_val_def is_digit_def digit_val_def)

text \<open>The three forms of an escaped ASCII character.\<close>

lemma escape_byte_cases:
  assumes "of_char c < (128::nat)"
  obtains (plain) "escape_byte c = [c]" "c \<noteq> quote_char" "c \<noteq> backslash" "\<not> of_char c < (32::nat)"
  | (short) e where "escape_byte c = [backslash, e]" "e \<in> set ''bfnrt/'' \<or> e = backslash \<or> e = quote_char"
      "e \<noteq> CHR ''u''" "unescape e = c"
  | (long) "escape_byte c = [backslash, CHR ''u'', CHR ''0'', CHR ''0'',
      hex_digit (of_char c div 16), hex_digit (of_char c mod 16)]"
proof -
  have "(escape_byte c = [c] \<and> c \<noteq> quote_char \<and> c \<noteq> backslash \<and> \<not> of_char c < (32::nat)) \<or>
    (\<exists>e. escape_byte c = [backslash, e] \<and> (e \<in> set ''bfnrt/'' \<or> e = backslash \<or> e = quote_char) \<and>
      e \<noteq> CHR ''u'' \<and> unescape e = c) \<or>
    escape_byte c = [backslash, CHR ''u'', CHR ''0'', CHR ''0'', hex_digit (of_char c div 16), hex_digit (of_char c mod 16)]"
    by (auto simp: escape_byte_def unescape_def)
  then show thesis using plain short long by blast
qed

lemma char_code: "of_char c < (128::nat) \<Longrightarrow> (of_char c div 16 :: nat) < 16"
  by (simp add: div_less_iff_less_mult)

lemma lex_escape_byte:
  "of_char c < (128::nat) \<Longrightarrow>
   lex_string (escape_byte c @ s) = map_option (\<lambda>(r, t). (escape_byte c @ r, t)) (lex_string s)"
  by (rule escape_byte_cases [of c]) (auto simp: char_code)

lemma unquote_escape_byte: "of_char c < (128::nat) \<Longrightarrow> unquote (escape_byte c @ s) = c # unquote s"
proof (rule escape_byte_cases [of c])
  assume c: "of_char c < (128::nat)" and
    e: "escape_byte c = [backslash, CHR ''u'', CHR ''0'', CHR ''0'', hex_digit (of_char c div 16), hex_digit (of_char c mod 16)]"
  have "getu4 (escape_byte c @ s) = Some (of_char c)"
    unfolding e using c by (simp add: char_code)
  then show ?thesis using c unfolding e by (simp add: utf8_enc_def)
next
  fix x
  assume e: "escape_byte c = [backslash, x]" "x \<noteq> CHR ''u''" "unescape x = c"
  have "getu4 (backslash # x # s) = None" using e(2) by (cases "backslash # x # s" rule: getu4.cases) auto
  then show ?thesis using e by simp
qed (auto simp: escape_byte_def)

section \<open>Strings and slices\<close>

definition ascii :: "string \<Rightarrow> bool" where
  "ascii s \<longleftrightarrow> (\<forall>c \<in> set s. of_char c < (128::nat))"

lemma escape_ascii: "ascii s \<Longrightarrow> escape_string s = concat (map escape_byte s)"
  by (induction s) (simp_all add: ascii_def)

lemma lex_escaped: "ascii s \<Longrightarrow> lex_string (escape_string s @ quote_char # t) = Some (escape_string s, t)"
proof -
  assume "ascii s"
  moreover from this have "lex_string (concat (map escape_byte s) @ quote_char # t) = Some (concat (map escape_byte s), t)"
    by (induction s) (simp_all add: ascii_def lex_escape_byte)
  ultimately show ?thesis by (simp add: escape_ascii)
qed

lemma unquote_escaped: "ascii s \<Longrightarrow> unquote (escape_string s) = s"
proof -
  assume "ascii s"
  moreover from this have "unquote (concat (map escape_byte s)) = s"
    by (induction s) (simp_all add: ascii_def unquote_escape_byte)
  ultimately show ?thesis by (simp add: escape_ascii)
qed

lemma lex_quoted: "ascii s \<Longrightarrow> lex (quote_string s @ t) = map_option (Cons (TStr (escape_string s))) (lex t)"
  using lex_escaped [of s t] by (simp add: quote_string_def is_space_def punct_def)

fun elem_tokens :: "string list \<Rightarrow> token list" where
  "elem_tokens [] = []"
| "elem_tokens [s] = [TStr (escape_string s)]"
| "elem_tokens (s # ss) = TStr (escape_string s) # TComma # elem_tokens ss"

lemma lex_elems:
  "\<forall>s \<in> set ss. ascii s \<Longrightarrow>
   lex (join_comma (map quote_string ss) @ '']'') = Some (elem_tokens ss @ [TRBrack])"
proof (induction ss rule: elem_tokens.induct)
  case 1
  then show ?case by (simp add: is_space_def punct_def)
next
  case (2 s)
  then show ?case by (simp add: lex_quoted is_space_def punct_def)
next
  case (3 s s' ss)
  then show ?case by (simp add: lex_quoted is_space_def punct_def)
qed

lemma steps_elems:
  "ss \<noteq> [] \<Longrightarrow> json_steps [FArr xs] MVal (elem_tokens ss @ [TRBrack]) =
     Some (JArr (rev xs @ map (\<lambda>s. JStr (escape_string s)) ss))"
proof (induction ss arbitrary: xs rule: elem_tokens.induct)
  case 1
  then show ?case by simp
next
  case (2 s)
  show ?case by (simp add: json_step_def)
next
  case (3 s s' ss)
  then show ?case by (simp add: json_step_def)
qed

lemma parse_marshalled:
  assumes "\<forall>s \<in> set ss. ascii s"
  shows "json_parse (marshal_strings ss) = Some (JArr (map (\<lambda>s. JStr (escape_string s)) ss))"
proof (cases ss)
  case Nil
  then show ?thesis
    by (simp add: marshal_strings_def json_parse_def is_space_def punct_def json_step_def maxNestingDepth_def)
next
  case (Cons s ss')
  have "lex (marshal_strings ss) = Some (TLBrack # elem_tokens ss @ [TRBrack])"
    using lex_elems [OF assms] by (simp add: marshal_strings_def is_space_def punct_def)
  moreover obtain ts where "elem_tokens ss = TStr (escape_string s) # ts"
    using Cons by (cases ss') auto
  ultimately show ?thesis
    using steps_elems [of ss "[]"] Cons
    by (simp add: json_parse_def json_step_def maxNestingDepth_def)
qed

lemma decode_escaped: "\<forall>s \<in> set ss. ascii s \<Longrightarrow> decode_elems [] (map (\<lambda>s. JStr (escape_string s)) ss) = Some ss"
  by (induction ss) (simp_all add: decode_string_def unquote_escaped)

lemma labels_round_trip: "\<forall>s \<in> set ls. ascii s \<Longrightarrow> labelsFromJSON (labelsToJSON ls) = ls"
  using parse_marshalled [of ls] decode_escaped [of ls]
  by (simp add: labelsFromJSON_def labelsToJSON_def decode_strings_def) (simp add: marshal_strings_def)

text \<open>A job read back from its row: its times are cut to the second, everything else is as stored.\<close>

definition job_storable :: "WorkflowJob \<Rightarrow> bool" where
  "job_storable job \<longleftrightarrow>
     (\<forall>l \<in> set (j_Labels job). ascii l) \<and>
     (\<forall>t \<in> {j_CreatedAt job, j_StartedAt job, j_CompletedAt job}. time_ok t)"

definition nullable_read :: "gotime \<Rightarrow> gotime" where
  "nullable_read t = (if IsZero t then zero_time else whole_secs t)"

definition job_read :: "WorkflowJob \<Rightarrow> WorkflowJob" where
  "job_read job = job\<lparr>j_CreatedAt := whole_secs (j_CreatedAt job),
     j_StartedAt := nullable_read (j_StartedAt job), j_CompletedAt := nullable_read (j_CompletedAt job)\<rparr>"

lemma parseTime_nullable: "time_ok t \<Longrightarrow> parseTime (null_string (formatNullableTime t)) = nullable_read t"
  by (simp add: formatNullableTime_def nullable_read_def null_string_def parseTime_format)
     (simp add: parseTime_def)

lemma job_row_round_trip: "job_storable job \<Longrightarrow> job_of_row (job_row_of job now) = job_read job"
  by (simp add: job_of_row_def job_row_of_def job_storable_def job_read_def labels_round_trip
      parseTime_format parseTime_nullable)

end
