(* ===== verification/Json_Stream.thy ===== *)
theory Json_Stream
  imports Json_Labels Base64 Http
begin

text \<open>
  \<open>json.Decoder\<close>: unlike \<open>Unmarshal\<close> it reads the first value of its input, token by token, and does
  not look at what follows.  Then the decoding of \<open>[]byte\<close> and \<open>map[string][]string\<close>.
\<close>

section \<open>The first value of an input\<close>

fun next_token :: "string \<Rightarrow> (token \<times> string) option" where
  "next_token [] = None"
| "next_token (c # s) =
     (if is_space c then next_token s
      else case punct c of Some p \<Rightarrow> Some (p, s) | None \<Rightarrow>
      if c = quote_char then map_option (\<lambda>(r, t). (TStr r, t)) (lex_string s)
      else case literal_token (c # s) of
        Some (l, n) \<Rightarrow> Some (l, drop n (c # s))
      | None \<Rightarrow> map_option (\<lambda>(n, t). (TNum n, t)) (lex_number (c # s)))"

lemma next_token_shorter: "next_token s = Some (t, r) \<Longrightarrow> length r < length s"
proof (induction s)
  case Nil
  then show ?case by simp
next
  case (Cons c s)
  then show ?case
    by (auto simp: literal_token_def split: if_splits option.splits
        dest!: lex_string_shorter lex_number_shorter)
qed

function first_value :: "frame list \<Rightarrow> mode \<Rightarrow> string \<Rightarrow> json option" where
  "first_value st m s =
     (case next_token s of None \<Rightarrow> None | Some (t, r) \<Rightarrow>
      case json_step st m t of
        None \<Rightarrow> None
      | Some (st', m') \<Rightarrow> (case m' of MDone v \<Rightarrow> Some v | _ \<Rightarrow> first_value st' m' r))"
  by pat_completeness auto
termination by (relation "measure (\<lambda>(st, m, s). length s)") (auto dest: next_token_shorter)

declare first_value.simps [simp del]

definition json_decode :: "bytes \<Rightarrow> json option" where
  "json_decode s = first_value [] MVal s"

text \<open>
  A token at the head of the input; the rules that read a document written with \<open>quote_string\<close>.
\<close>

lemma next_token_rules:
  "ascii x \<Longrightarrow> next_token (quote_string x @ s) = Some (TStr (escape_string x), s)"
  "next_token (CHR ''{'' # s) = Some (TLBrace, s)" "next_token (CHR ''}'' # s) = Some (TRBrace, s)"
  "next_token (CHR ''['' # s) = Some (TLBrack, s)" "next_token (CHR '']'' # s) = Some (TRBrack, s)"
  "next_token (CHR '':'' # s) = Some (TColon, s)" "next_token (CHR '','' # s) = Some (TComma, s)"
  by (simp_all add: quote_string_def lex_escaped is_space_def punct_def)

definition read_on :: "(frame list \<times> mode) option \<Rightarrow> string \<Rightarrow> json option" where
  "read_on state r =
     (case state of None \<Rightarrow> None
      | Some (st, m) \<Rightarrow> (case m of MDone v \<Rightarrow> Some v | _ \<Rightarrow> first_value st m r))"

lemma first_value_next: "next_token s = Some (t, r) \<Longrightarrow> first_value st m s = read_on (json_step st m t) r"
  by (simp add: first_value.simps [of st m s] read_on_def)

lemmas first_value_rules = next_token_rules [THEN first_value_next]

lemma read_on_modes [simp]:
  "read_on None r = None" "read_on (Some (st, MDone v)) r = Some v"
  "read_on (Some (st, MVal)) r = first_value st MVal r" "read_on (Some (st, MKey)) r = first_value st MKey r"
  "read_on (Some (st, MColon)) r = first_value st MColon r"
  "read_on (Some (st, MValOrEnd)) r = first_value st MValOrEnd r"
  "read_on (Some (st, MKeyOrEnd)) r = first_value st MKeyOrEnd r"
  "read_on (Some (st, MArrNext)) r = first_value st MArrNext r"
  "read_on (Some (st, MObjNext)) r = first_value st MObjNext r"
  by (simp_all add: read_on_def)

section \<open>Byte slices and header maps\<close>

text \<open>
  A \<open>[]byte\<close> is base64 text; the library also takes an array of numbers, element by element like any
  other slice.
\<close>

definition decode_byte :: "char \<Rightarrow> json \<Rightarrow> char option" where
  "decode_byte cur v =
     (case v of
        JNum n \<Rightarrow> (case int_literal n of
                    Some i \<Rightarrow> if 0 \<le> i \<and> i < 256 then Some (char_of (nat i)) else None
                  | None \<Rightarrow> None)
      | JNull \<Rightarrow> Some cur
      | _ \<Rightarrow> None)"

fun decode_byte_elems :: "bytes \<Rightarrow> json list \<Rightarrow> bytes option" where
  "decode_byte_elems cur [] = Some []"
| "decode_byte_elems cur (v # vs) =
     (case decode_byte (case cur of [] \<Rightarrow> CHR 0x00 | c # _ \<Rightarrow> c) v of None \<Rightarrow> None | Some x \<Rightarrow>
      map_option (Cons x) (decode_byte_elems (drop 1 cur) vs))"

definition decode_bytes :: "bytes \<Rightarrow> json \<Rightarrow> bytes option" where
  "decode_bytes cur v =
     (case v of
        JStr r \<Rightarrow> b64_decode std_alphabet (unquote r)
      | JArr vs \<Rightarrow> decode_byte_elems cur vs
      | JNull \<Rightarrow> Some []
      | _ \<Rightarrow> None)"

text \<open>
  A \<open>map[string][]string\<close>: each member is decoded into a new slice and stored under its key, over what
  the map already holds; \<open>null\<close> makes the map nil.
\<close>

fun decode_entries :: "header \<Rightarrow> (string \<times> json) list \<Rightarrow> header option" where
  "decode_entries h [] = Some h"
| "decode_entries h ((k, v) # kvs) =
     (case decode_strings [] v of None \<Rightarrow> None | Some vs \<Rightarrow> decode_entries (h(unquote k \<mapsto> vs)) kvs)"

definition decode_header :: "header \<Rightarrow> json \<Rightarrow> header option" where
  "decode_header cur v =
     (case v of JObj kvs \<Rightarrow> decode_entries cur kvs | JNull \<Rightarrow> Some Map.empty | _ \<Rightarrow> None)"

end
