(* ===== verification/Relay_Wire.thy ===== *)
theory Relay_Wire
  imports Json_Stream
begin

text \<open>
  What the relay of \<open>internal/services/ghws/subscriber.go\<close> puts on the wire and reads from it: frames
  and their acknowledgements, the requests of the hook API, and its answers.
\<close>

section \<open>Frames\<close>

record wsFrame =
  fr_Header :: header
  fr_Body :: bytes

definition frame_fields :: "(string \<times> (wsFrame \<Rightarrow> json \<Rightarrow> wsFrame option)) list" where
  "frame_fields =
     [(''Header'', field_decoder decode_header fr_Header (\<lambda>x. fr_Header_update (\<lambda>_. x))),
      (''Body'', field_decoder decode_bytes fr_Body (\<lambda>x. fr_Body_update (\<lambda>_. x)))]"

text \<open>\<open>conn.ReadJSON (&frame)\<close> on the bytes of one message; \<open>None\<close> is an error.\<close>

definition decode_frame :: "bytes \<Rightarrow> wsFrame option" where
  "decode_frame m =
     (case json_decode m of None \<Rightarrow> None
      | Some v \<Rightarrow> decode_struct (lookup_field frame_fields) \<lparr>fr_Header = Map.empty, fr_Body = []\<rparr> v)"

section \<open>Acknowledgements\<close>

text \<open>\<open>conn.WriteJSON (ack)\<close>: the header, never set, and an empty body are omitted.\<close>

record wsAck =
  ack_Status :: int
  ack_Body :: bytes

definition member :: "string \<Rightarrow> string \<Rightarrow> string" where
  "member k v = quote_string k @ CHR '':'' # v"

definition encode_ack :: "wsAck \<Rightarrow> bytes" where
  "encode_ack a =
     CHR ''{'' # join_comma
       (member ''Status'' (go_itoa (ack_Status a)) #
        (if ack_Body a = [] then []
         else [member ''Body'' (quote_char # b64_encode std_alphabet (ack_Body a) @ [quote_char])])) @
     [CHR ''}'', CHR 0x0A]"

section \<open>The hook API\<close>

record hookConfig =
  hc_ContentType :: string
  hc_InsecureSSL :: string
  hc_URL :: string
  hc_Secret :: string

record createHookRequest =
  cr_Name :: string
  cr_Events :: "string list"
  cr_Active :: bool
  cr_Config :: hookConfig

text \<open>\<open>json.Marshal\<close> of the request; an empty URL and an empty secret are omitted.\<close>

definition marshal_config :: "hookConfig \<Rightarrow> string" where
  "marshal_config c =
     CHR ''{'' # join_comma
       ([member ''content_type'' (quote_string (hc_ContentType c)),
         member ''insecure_ssl'' (quote_string (hc_InsecureSSL c))] @
        (if hc_URL c = [] then [] else [member ''url'' (quote_string (hc_URL c))]) @
        (if hc_Secret c = [] then [] else [member ''secret'' (quote_string (hc_Secret c))])) @ ''}''"

definition marshal_create :: "createHookRequest \<Rightarrow> string" where
  "marshal_create r =
     CHR ''{'' # join_comma
       [member ''name'' (quote_string (cr_Name r)), member ''events'' (marshal_strings (cr_Events r)),
        member ''active'' (if cr_Active r then ''true'' else ''false''),
        member ''config'' (marshal_config (cr_Config r))] @ ''}''"

record hookResponse =
  hook_ID :: int
  hook_URL :: string
  hook_WsURL :: string

definition hook_fields :: "(string \<times> (hookResponse \<Rightarrow> json \<Rightarrow> hookResponse option)) list" where
  "hook_fields =
     [(''id'', field_decoder decode_int64 hook_ID (\<lambda>x. hook_ID_update (\<lambda>_. x))),
      (''url'', field_decoder decode_string hook_URL (\<lambda>x. hook_URL_update (\<lambda>_. x))),
      (''ws_url'', field_decoder decode_string hook_WsURL (\<lambda>x. hook_WsURL_update (\<lambda>_. x)))]"

definition decode_hook :: "bytes \<Rightarrow> hookResponse option" where
  "decode_hook body =
     (case json_decode body of None \<Rightarrow> None
      | Some v \<Rightarrow> decode_struct (lookup_field hook_fields) \<lparr>hook_ID = 0, hook_URL = [], hook_WsURL = []\<rparr> v)"

section \<open>A frame as the relay encodes it\<close>

text \<open>
  The relay encodes the headers of a delivery as a map from names to lists and the payload as base64
  text.  \<open>frame_text\<close> is such a message with two headers.
\<close>

definition frame_text :: "string \<times> string \<Rightarrow> string \<times> string \<Rightarrow> bytes \<Rightarrow> bytes" where
  "frame_text h g b =
     CHR ''{'' # quote_string ''Header'' @ CHR '':'' # CHR ''{'' #
       quote_string (fst h) @ CHR '':'' # CHR ''['' # quote_string (snd h) @ CHR '']'' # CHR '','' #
       quote_string (fst g) @ CHR '':'' # CHR ''['' # quote_string (snd g) @ CHR '']'' # CHR ''}'' # CHR '','' #
       quote_string ''Body'' @ CHR '':'' # quote_string (b64_encode std_alphabet b) @ [CHR ''}'']"

lemma std_ascii: "n < 64 \<Longrightarrow> of_char (std_alphabet ! n) < (128 :: nat)"
proof -
  have "list_all (\<lambda>c. of_char c < (128 :: nat)) std_alphabet" by code_simp
  then show "n < 64 \<Longrightarrow> ?thesis" by (simp add: list_all_length std64.size)
qed

lemma b64_ascii: "ascii (b64_encode std_alphabet b)"
  by (rule byte_groups [of _ b]) (simp_all add: ascii_def Let_def std_ascii std64.sextet_simps)

lemma ascii_names [simp]: "ascii ''Header''" "ascii ''Body''"
  by (simp_all add: ascii_def)

lemma frame_value:
  assumes "ascii (fst h)" "ascii (snd h)" "ascii (fst g)" "ascii (snd g)"
  shows "json_decode (frame_text h g b @ rest) = Some (JObj
     [(escape_string ''Header'', JObj [(escape_string (fst h), JArr [JStr (escape_string (snd h))]),
                                       (escape_string (fst g), JArr [JStr (escape_string (snd g))])]),
      (escape_string ''Body'', JStr (escape_string (b64_encode std_alphabet b)))])"
  using assms
  by (simp add: json_decode_def frame_text_def first_value_rules b64_ascii json_step_def maxNestingDepth_def)

lemma decode_frame_text:
  assumes "ascii (fst h)" "ascii (snd h)" "ascii (fst g)" "ascii (snd g)"
  shows "decode_frame (frame_text h g b @ rest) =
    Some \<lparr>fr_Header = Map.empty(fst h \<mapsto> [snd h], fst g \<mapsto> [snd g]), fr_Body = b\<rparr>"
proof -
  have k: "lookup_field frame_fields (escape_string ''Header'') =
      Some (field_decoder decode_header fr_Header (\<lambda>x. fr_Header_update (\<lambda>_. x)))"
    "lookup_field frame_fields (escape_string ''Body'') =
      Some (field_decoder decode_bytes fr_Body (\<lambda>x. fr_Body_update (\<lambda>_. x)))"
  proof -
    have "key_matches ''Header'' (escape_string ''Header'')" "\<not> key_matches ''Header'' (escape_string ''Body'')"
      "key_matches ''Body'' (escape_string ''Body'')" by code_simp+
    then show "lookup_field frame_fields (escape_string ''Header'') =
        Some (field_decoder decode_header fr_Header (\<lambda>x. fr_Header_update (\<lambda>_. x)))"
      "lookup_field frame_fields (escape_string ''Body'') =
        Some (field_decoder decode_bytes fr_Body (\<lambda>x. fr_Body_update (\<lambda>_. x)))"
      by (simp_all add: frame_fields_def)
  qed
  have "decode_header Map.empty (JObj [(escape_string (fst h), JArr [JStr (escape_string (snd h))]),
                                       (escape_string (fst g), JArr [JStr (escape_string (snd g))])]) =
      Some (Map.empty(fst h \<mapsto> [snd h], fst g \<mapsto> [snd g]))"
    using assms by (simp add: decode_header_def decode_strings_def decode_string_def unquote_escaped)
  moreover have "decode_bytes [] (JStr (escape_string (b64_encode std_alphabet b))) = Some b"
    by (simp add: decode_bytes_def unquote_escaped b64_ascii std64.decode_encode)
  ultimately show ?thesis
    by (simp add: decode_frame_def frame_value [OF assms] decode_struct_def k field_decoder_def del: escape_string.simps)
qed

lemma canonical_names:
  "CanonicalHeaderKey ''X-GitHub-Event'' = ''X-Github-Event''"
  "CanonicalHeaderKey ''X-GitHub-Delivery'' = ''X-Github-Delivery''"
  by code_simp+

section \<open>Properties\<close>



end
