(* ===== verification/Relay.thy ===== *)
theory Relay
  imports Webhook Relay_Wire
begin

text \<open>
  The WebSocket transport, \<open>internal/services/ghws/subscriber.go\<close>: validation of its configuration,
  one cycle of create, dial, activate and read, and the redial loop.  What the network answers in a
  cycle is a script, the argument of the cycle; the requests the program makes are its log.
\<close>

section \<open>Configuration and paths\<close>

record relay_config =
  Token :: string
  Host :: string
  Repo :: string
  Org :: string
  Enterprise :: string
  Events :: "string list"
  Secret :: string

definition relay_targets :: "relay_config \<Rightarrow> nat" where
  "relay_targets c =
     (if Repo c \<noteq> [] then 1 else 0) + (if Org c \<noteq> [] then 1 else 0) + (if Enterprise c \<noteq> [] then 1 else 0)"

text \<open>\<open>Validate\<close>, which also fills in the default host.\<close>

definition Validate :: "relay_config \<Rightarrow> string + relay_config" where
  "Validate c =
     (if Token c = [] then Inl ''GitHub token is required''
      else if relay_targets c = 0 then Inl ''one of Repo, Org, or Enterprise is required''
      else if relay_targets c > 1 then Inl ''only one of Repo, Org, or Enterprise may be set''
      else if Events c = [] then Inl ''at least one event type is required''
      else Inr (if Host c = [] then c\<lparr>Host := ''github.com''\<rparr> else c))"

definition has_suffix :: "string \<Rightarrow> string \<Rightarrow> bool" where
  "has_suffix suf s \<longleftrightarrow> length suf \<le> length s \<and> drop (length s - length suf) s = suf"

definition apiBase :: "relay_config \<Rightarrow> string" where
  "apiBase c =
     (if Host c = ''github.com'' then ''https://api.github.com''
      else if has_suffix ''.ghe.com'' (Host c) then ''https://api.'' @ Host c
      else ''https://'' @ Host c @ ''/api/v3'')"

definition hookPath :: "relay_config \<Rightarrow> string" where
  "hookPath c =
     (if Enterprise c \<noteq> [] then ''/enterprises/'' @ Enterprise c @ ''/hooks''
      else if Org c \<noteq> [] then ''/orgs/'' @ Org c @ ''/hooks''
      else ''/repos/'' @ Repo c @ ''/hooks'')"

definition wsOutcome :: "nat \<Rightarrow> string" where
  "wsOutcome status =
     (if 200 \<le> status \<and> status < 300 then ''accepted''
      else if status = 503 then ''queue_full'' else ''rejected'')"

text \<open>The subscriber; the two clients are libraries, the ingester is an argument of the operations.\<close>

record Subscriber =
  sub_cfg :: relay_config
  apiBaseOverride :: string
  initialBackoff :: int
  maxBackoff :: int

definition NewSubscriber :: "relay_config \<Rightarrow> string + Subscriber" where
  "NewSubscriber c =
     (case Validate c of
        Inl e \<Rightarrow> Inl e
      | Inr c \<Rightarrow> Inr \<lparr>sub_cfg = c, apiBaseOverride = [], initialBackoff = 1000000000, maxBackoff = 60000000000\<rparr>)"

definition sub_apiBase :: "Subscriber \<Rightarrow> string" where
  "sub_apiBase sub = (if apiBaseOverride sub \<noteq> [] then apiBaseOverride sub else apiBase (sub_cfg sub))"

section \<open>Requests\<close>

record hook_request =
  hq_Method :: string
  hq_URL :: string
  hq_Header :: header
  hq_Body :: bytes

text \<open>\<open>http.NewRequestWithContext\<close>, which parses the URL, and \<open>applyAuth\<close>.\<close>

definition NewRequest :: "string \<Rightarrow> string \<Rightarrow> bytes \<Rightarrow> hook_request option" where
  "NewRequest m u body =
     (if url_Parse u = None then None
      else Some \<lparr>hq_Method = m, hq_URL = u, hq_Header = Map.empty, hq_Body = body\<rparr>)"

definition applyAuth :: "Subscriber \<Rightarrow> hook_request \<Rightarrow> hook_request" where
  "applyAuth sub rq = rq\<lparr>hq_Header :=
     header_Set ''X-GitHub-Api-Version'' ''2022-11-28''
       (header_Set ''Accept'' ''application/vnd.github+json''
         (header_Set ''Authorization'' (''Bearer '' @ Token (sub_cfg sub)) (hq_Header rq)))\<rparr>"

datatype sent =
    Request hook_request
  | Dial string header
  | Ack bytes

section \<open>One cycle\<close>

text \<open>
  The network of one cycle: the answers to the creation and to the activation (\<open>None\<close> when the request
  fails), whether the dial succeeds, what the reads of the connection bring, and which of the
  acknowledgements can be written.
\<close>

record http_answer =
  ha_Status :: string
  ha_Code :: nat
  ha_Body :: bytes

datatype ws_read = Incoming bytes | NormalClosure | ReadError

record network =
  net_create :: "http_answer option"
  net_dial :: bool
  net_activate :: "http_answer option"
  net_reads :: "ws_read list"
  net_acks :: "bool list"

definition create_body :: "Subscriber \<Rightarrow> bytes" where
  "create_body sub = marshal_create
     \<lparr>cr_Name = ''cli'', cr_Events = Events (sub_cfg sub), cr_Active = False,
      cr_Config = \<lparr>hc_ContentType = ''json'', hc_InsecureSSL = ''0'', hc_URL = [], hc_Secret = Secret (sub_cfg sub)\<rparr>\<rparr>"

definition createHook :: "Subscriber \<Rightarrow> network \<Rightarrow> sent list \<times> (string + hookResponse)" where
  "createHook sub net =
     (case NewRequest ''POST'' (sub_apiBase sub @ hookPath (sub_cfg sub)) (create_body sub) of
        None \<Rightarrow> ([], Inl ''parse'')
      | Some rq \<Rightarrow>
     ([Request (applyAuth sub rq)],
      (case net_create net of
         None \<Rightarrow> Inl ''request failed''
       | Some resp \<Rightarrow>
           if ha_Code resp div 100 \<noteq> 2
           then Inl (''create hook: '' @ ha_Status resp @ '': '' @ TrimSpace (ha_Body resp))
           else (case decode_hook (ha_Body resp) of
                   None \<Rightarrow> Inl ''decode hook response''
                 | Some hr \<Rightarrow>
                     if hook_WsURL hr = []
                     then Inl ''create hook: response missing ws_url; the relay feature may not be enabled for this account''
                     else Inr hr))))"

definition activateHook :: "Subscriber \<Rightarrow> hookResponse \<Rightarrow> network \<Rightarrow> sent list \<times> string option" where
  "activateHook sub hook net =
     (case NewRequest ''PATCH'' (hook_URL hook) (CHR ''{'' # quote_string ''active'' @ '': true}'') of
        None \<Rightarrow> ([], Some ''parse'')
      | Some rq \<Rightarrow>
     ([Request (applyAuth sub rq)],
      (case net_activate net of
         None \<Rightarrow> Some ''request failed''
       | Some resp \<Rightarrow>
           if ha_Code resp div 100 \<noteq> 2
           then Some (''activate hook: '' @ ha_Status resp @ '': '' @ TrimSpace (ha_Body resp)) else None)))"

definition deleteHook :: "Subscriber \<Rightarrow> hookResponse \<Rightarrow> sent list" where
  "deleteHook sub hook =
     (if hook_URL hook = [] then []
      else case NewRequest ''DELETE'' (hook_URL hook) [] of None \<Rightarrow> [] | Some rq \<Rightarrow> [Request (applyAuth sub rq)])"

text \<open>
  The read loop.  \<open>ingest\<close> is the \<open>Ingester\<close>; the loop ends with a clean close (\<open>None\<close>) or an
  error.  When the script of reads ends the connection is lost.
\<close>

type_synonym ingester = "string \<Rightarrow> string \<Rightarrow> bytes \<Rightarrow> svc \<Rightarrow> svc \<times> IngestResult"

definition ack_of :: "IngestResult \<Rightarrow> sent" where
  "ack_of r = Ack (encode_ack \<lparr>ack_Status = int (Status r), ack_Body = Message r\<rparr>)"

fun read_loop ::
  "ingester \<Rightarrow> ws_read list \<Rightarrow> bool list \<Rightarrow> svc \<Rightarrow> svc \<times> sent list \<times> string option" where
  "read_loop ingest [] acks s = (s, [], Some ''read frame'')"
| "read_loop ingest (NormalClosure # rs) acks s = (s, [], None)"
| "read_loop ingest (ReadError # rs) acks s = (s, [], Some ''read frame'')"
| "read_loop ingest (Incoming m # rs) acks s =
     (case decode_frame m of None \<Rightarrow> (s, [], Some ''read frame'') | Some fr \<Rightarrow>
      let eventType = header_Get ''X-GitHub-Event'' (fr_Header fr);
          deliveryID = header_Get ''X-GitHub-Delivery'' (fr_Header fr) in
      case ingest eventType deliveryID (fr_Body fr) s of (s, r) \<Rightarrow>
      let s = count_delivery eventType (''ws_'' @ wsOutcome (Status r)) s;
          (ok, acks) = (case acks of [] \<Rightarrow> (True, []) | b # bs \<Rightarrow> (b, bs))
      in if \<not> ok then (s, [ack_of r], Some ''write ack'')
         else (case read_loop ingest rs acks s of (s, log, e) \<Rightarrow> (s, ack_of r # log, e)))"

definition runOnce ::
  "Subscriber \<Rightarrow> ingester \<Rightarrow> network \<Rightarrow> svc \<Rightarrow> svc \<times> sent list \<times> string option" where
  "runOnce sub ingest net s =
     (case createHook sub net of
        (log1, Inl e) \<Rightarrow> (s, log1, Some (''create hook: '' @ e))
      | (log1, Inr hook) \<Rightarrow>
     (let log2 = log1 @ [Dial (hook_WsURL hook) (Map.empty(''Authorization'' \<mapsto> [Token (sub_cfg sub)]))] in
      if \<not> net_dial net then (s, log2 @ deleteHook sub hook, Some ''dial relay'') else
      case activateHook sub hook net of
        (log3, Some e) \<Rightarrow> (s, log2 @ log3 @ deleteHook sub hook, Some (''activate hook: '' @ e))
      | (log3, None) \<Rightarrow>
     (case read_loop ingest (net_reads net) (net_acks net) s of
        (s, log4, r) \<Rightarrow> (s, log2 @ log3 @ log4 @ deleteHook sub hook, r))))"

section \<open>The redial loop\<close>

definition next_backoff :: "Subscriber \<Rightarrow> int \<Rightarrow> int" where
  "next_backoff sub b = (if maxBackoff sub < wrap64 (b * 2) then maxBackoff sub else wrap64 (b * 2))"

text \<open>
  \<open>Run\<close> over the networks of its cycles: the waits between cycles, and the result, \<open>Some True\<close> for
  a clean end and \<open>Some False\<close> for a cancelled context; \<open>None\<close> when it would go on.  Each cycle
  comes with the readings of the context before it, after it and during the wait.
\<close>

record cycle =
  cy_net :: network
  cancelled_before :: bool
  cancelled_after :: bool
  cancelled_waiting :: bool

fun run_loop ::
  "Subscriber \<Rightarrow> ingester \<Rightarrow> cycle list \<Rightarrow> int \<Rightarrow> svc \<Rightarrow> svc \<times> sent list \<times> int list \<times> bool option" where
  "run_loop sub ingest [] backoff s = (s, [], [], None)"
| "run_loop sub ingest (cy # cys) backoff s =
     (if cancelled_before cy then (s, [], [], Some False) else
      case runOnce sub ingest (cy_net cy) s of (s, log, err) \<Rightarrow>
        if cancelled_after cy then (s, log, [], Some False)
        else if err = None then (s, log, [], Some True)
        else if cancelled_waiting cy then (s, log, [backoff], Some False)
        else (case run_loop sub ingest cys (next_backoff sub backoff) s of (s, log', waits, r) \<Rightarrow>
                (s, log @ log', backoff # waits, r)))"

definition Run :: "Subscriber \<Rightarrow> ingester \<Rightarrow> cycle list \<Rightarrow> svc \<Rightarrow> svc \<times> sent list \<times> int list \<times> bool option" where
  "Run sub ingest cys s = run_loop sub ingest cys (initialBackoff sub) s"

section \<open>What the read loop sends and ingests\<close>

lemma read_loop_Incoming:
  "read_loop ingest (Incoming m # rs) acks s =
     (case decode_frame m of None \<Rightarrow> (s, [], Some ''read frame'') | Some fr \<Rightarrow>
      let t = header_Get ''X-GitHub-Event'' (fr_Header fr);
          (u, r) = ingest t (header_Get ''X-GitHub-Delivery'' (fr_Header fr)) (fr_Body fr) s;
          v = count_delivery t (''ws_'' @ wsOutcome (Status r)) u
      in if acks \<noteq> [] \<and> \<not> hd acks then (v, [ack_of r], Some ''write ack'')
         else (fst (read_loop ingest rs (drop 1 acks) v),
               ack_of r # fst (snd (read_loop ingest rs (drop 1 acks) v)),
               snd (snd (read_loop ingest rs (drop 1 acks) v))))"
  by (cases acks) (auto simp: Let_def split: prod.split option.split)

declare read_loop.simps(4) [simp del]

fun is_delete :: "sent \<Rightarrow> bool" where
  "is_delete (Request rq) = (hq_Method rq = ''DELETE'')"
| "is_delete x = False"

lemma read_loop_keeps_hook: "\<not> list_ex is_delete (fst (snd (read_loop ingest rs acks s)))"
proof (induction rs arbitrary: acks s)
  case Nil
  show ?case by simp
next
  case (Cons x rs)
  then show ?case
    by (cases x) (auto simp: read_loop_Incoming Let_def ack_of_def split: option.split prod.split)
qed

lemma runOnce_log:
  assumes "snd (createHook sub net) = Inr hook"
  obtains mid where "fst (snd (runOnce sub ingest net s)) = mid @ deleteHook sub hook" "\<not> list_ex is_delete mid"
proof -
  obtain log1 where c: "createHook sub net = (log1, Inr hook)" using assms by (cases "createHook sub net") simp
  then have 1: "\<not> list_ex is_delete log1"
    by (auto simp: createHook_def NewRequest_def applyAuth_def split: option.splits if_splits)
  obtain log3 e where a: "activateHook sub hook net = (log3, e)" by fastforce
  then have 3: "\<not> list_ex is_delete log3"
    by (auto simp: activateHook_def NewRequest_def applyAuth_def split: option.splits if_splits)
  obtain t log4 r where l: "read_loop ingest (net_reads net) (net_acks net) s = (t, log4, r)"
    by (cases "read_loop ingest (net_reads net) (net_acks net) s")
  then have 4: "\<not> list_ex is_delete log4"
    using read_loop_keeps_hook [of ingest "net_reads net" "net_acks net" s] by simp
  let ?dial = "[Dial (hook_WsURL hook) (Map.empty(''Authorization'' \<mapsto> [Token (sub_cfg sub)]))]"
  have "\<exists>mid. fst (snd (runOnce sub ingest net s)) = mid @ deleteHook sub hook \<and> \<not> list_ex is_delete mid"
  proof (cases "net_dial net")
    case False
    then show ?thesis using 1 by (intro exI [of _ "log1 @ ?dial"]) (simp add: runOnce_def c Let_def)
  next
    case True
    then show ?thesis using 1 3 4
      by (intro exI [of _ "log1 @ ?dial @ log3 @ (if e = None then log4 else [])"])
         (auto simp: runOnce_def c a l Let_def split: option.split)
  qed
  with that show thesis by blast
qed

section \<open>Properties\<close>


text \<open>
  The reference for the read loop: the frames before the first read that ends the connection are
  ingested in order; a frame whose acknowledgement cannot be written is the last one.
\<close>

fun frames_of :: "ws_read list \<Rightarrow> wsFrame list" where
  "frames_of (Incoming m # rs) = (case decode_frame m of None \<Rightarrow> [] | Some fr \<Rightarrow> fr # frames_of rs)"
| "frames_of rs = []"

fun ingest_all :: "ingester \<Rightarrow> wsFrame list \<Rightarrow> svc \<Rightarrow> svc \<times> sent list" where
  "ingest_all ingest [] s = (s, [])"
| "ingest_all ingest (fr # frs) s =
     (let t = header_Get ''X-GitHub-Event'' (fr_Header fr) in
      case ingest t (header_Get ''X-GitHub-Delivery'' (fr_Header fr)) (fr_Body fr) s of (s, r) \<Rightarrow>
      case ingest_all ingest frs (count_delivery t (''ws_'' @ wsOutcome (Status r)) s) of (s, log) \<Rightarrow>
        (s, ack_of r # log))"

definition frames_read :: "ws_read list \<Rightarrow> bool list \<Rightarrow> wsFrame list" where
  "frames_read rs acks =
     (if list_all id acks then frames_of rs else take (Suc (length (takeWhile id acks))) (frames_of rs))"

lemma frames_read_Incoming:
  "decode_frame m = Some fr \<Longrightarrow> frames_read (Incoming m # rs) acks =
     fr # (case acks of [] \<Rightarrow> frames_read rs [] | b # bs \<Rightarrow> if b then frames_read rs bs else [])"
  by (cases acks) (auto simp: frames_read_def)

text \<open>Every frame read is ingested exactly once, in order, and acknowledged with the status and the
  message of its ingestion: state and log of the read loop are those of ingesting all frames that
  arrive before the connection ends, a message is not a frame, or an acknowledgement cannot be written.\<close>

theorem frames_are_acknowledged:
  "(fst (read_loop ingest rs acks s), fst (snd (read_loop ingest rs acks s))) =
     ingest_all ingest (frames_read rs acks) s"
proof (induction rs arbitrary: acks s)
  case Nil
  show ?case by (simp add: frames_read_def)
next
  case (Cons x rs)
  show ?case
  proof (cases x)
    case (Incoming m)
    show ?thesis
    proof (cases "decode_frame m")
      case None
      then show ?thesis by (simp add: Incoming read_loop_Incoming frames_read_def)
    next
      case (Some fr)
      let ?t = "header_Get ''X-GitHub-Event'' (fr_Header fr)"
      let ?i = "ingest ?t (header_Get ''X-GitHub-Delivery'' (fr_Header fr)) (fr_Body fr) s"
      obtain u r where i: "?i = (u, r)" by (cases ?i)
      define v where "v = count_delivery ?t (''ws_'' @ wsOutcome (Status r)) u"
      have ih: "ingest_all ingest (frames_read rs bs) v =
          (fst (read_loop ingest rs bs v), fst (snd (read_loop ingest rs bs v)))" for bs
        using Cons.IH [of bs v] by simp
      have "ingest_all ingest (fr # frs) s = (case ingest_all ingest frs v of (z, log) \<Rightarrow> (z, ack_of r # log))" for frs
        by (simp add: i v_def)
      moreover have "(fst (read_loop ingest (x # rs) acks s), fst (snd (read_loop ingest (x # rs) acks s))) =
          (if acks \<noteq> [] \<and> \<not> hd acks then (v, [ack_of r])
           else (fst (read_loop ingest rs (drop 1 acks) v), ack_of r # fst (snd (read_loop ingest rs (drop 1 acks) v))))"
        by (simp add: Incoming read_loop_Incoming Some i v_def Let_def)
      ultimately show ?thesis
        unfolding Incoming frames_read_Incoming [OF Some] by (cases acks) (simp_all add: ih)
    qed
  qed (simp_all add: frames_read_def)
qed

lemma waits_step:
  "0 \<le> b \<Longrightarrow> b \<le> maxBackoff sub \<Longrightarrow> maxBackoff sub \<le> 60000000000 \<Longrightarrow> next_backoff sub b = min (maxBackoff sub) (b * 2)"
proof -
  assume "0 \<le> b" "b \<le> maxBackoff sub" "maxBackoff sub \<le> 60000000000"
  then have "in_int64 (b * 2)" by (simp add: in_int64_def)
  then show ?thesis by (simp add: next_backoff_def wrap64_id)
qed

lemma min_doubling: "0 < b \<Longrightarrow> 0 \<le> M \<Longrightarrow> min M (min M (b * 2) * 2 ^ m) = min M (b * 2 ^ Suc m)" for b M :: int
proof (cases "b * 2 \<le> M")
  case True
  then show ?thesis by (simp add: mult.assoc)
next
  case False
  assume "0 < b" "0 \<le> M"
  have 1: "M * 1 \<le> M * 2 ^ m" using \<open>0 \<le> M\<close> by (intro mult_left_mono) simp_all
  moreover have "M * 2 ^ m \<le> (b * 2) * 2 ^ m" using False by (intro mult_right_mono) simp_all
  ultimately have "M \<le> (b * 2) * 2 ^ m" by linarith
  then have "M \<le> b * (2 * 2 ^ m)" by (simp only: mult.assoc)
  then show ?thesis using False 1 by (simp add: min_def)
qed

lemma waits_from:
  assumes "0 < maxBackoff sub" "maxBackoff sub \<le> 60000000000"
  shows "0 < b \<Longrightarrow> b \<le> maxBackoff sub \<Longrightarrow> n < length (fst (snd (snd (run_loop sub ingest cys b s)))) \<Longrightarrow>
   fst (snd (snd (run_loop sub ingest cys b s))) ! n = min (maxBackoff sub) (b * 2 ^ n)"
proof (induction cys arbitrary: b s n)
  case Nil
  then show ?case by simp
next
  case (Cons cy cys)
  have nb: "next_backoff sub b = min (maxBackoff sub) (b * 2)" using Cons.prems assms by (intro waits_step) simp_all
  have nb': "0 < next_backoff sub b" "next_backoff sub b \<le> maxBackoff sub" using Cons.prems(1) assms by (simp_all add: nb)
  obtain s1 log err where ro: "runOnce sub ingest (cy_net cy) s = (s1, log, err)"
    by (cases "runOnce sub ingest (cy_net cy) s")
  obtain s2 log' ws r where rl: "run_loop sub ingest cys (next_backoff sub b) s1 = (s2, log', ws, r)"
    by (cases "run_loop sub ingest cys (next_backoff sub b) s1")
  have ih: "m < length ws \<Longrightarrow> ws ! m = min (maxBackoff sub) (b * 2 ^ Suc m)" for m
    using Cons.IH [OF nb', of m s1] rl min_doubling [OF Cons.prems(1), of "maxBackoff sub" m] assms by (simp add: nb)
  show ?case
    using Cons.prems ro rl ih by (cases n) (auto split: if_splits)
qed

text \<open>The wait of a new subscriber before the n-th redial is the n-th power of two in seconds, capped at one
  minute; it is never reset, however long a connection has lived in between.\<close>

theorem backoff_doubles_to_a_minute:
  assumes "NewSubscriber c = Inr sub" "n < length (fst (snd (snd (Run sub ingest cys s))))"
  shows "fst (snd (snd (Run sub ingest cys s))) ! n = min 60000000000 (1000000000 * 2 ^ n)"
proof -
  have "initialBackoff sub = 1000000000" "maxBackoff sub = 60000000000"
    using assms(1) by (auto simp: NewSubscriber_def split: sum.splits)
  then show ?thesis
    using waits_from [of sub "initialBackoff sub" n ingest cys s] assms(2) by (simp add: Run_def)
qed

end
