(* ===== verification/Migrations.thy ===== *)
theory Migrations
  imports Db_Core GoUrl
begin

text \<open>
  Opening the database, \<open>internal/database/db.go\<close>: the data source name with its pragmas, the two
  pools, and the schema migrations.  The scripts are run by the SQL engine, a parameter \<open>exec\<close>
  that maps a script and a schema to the new schema or to an error.  The main lemma says that an
  interrupted run leaves a prefix of the pending migrations applied and recorded.
\<close>

section \<open>The data source name\<close>

definition connPragmas :: "string list" where
  "connPragmas = [''journal_mode(WAL)'', ''busy_timeout(5000)'', ''synchronous(NORMAL)'', ''foreign_keys(ON)'',
     ''cache_size(-65536)'', ''temp_store(MEMORY)'', ''mmap_size(268435456)'']"

fun join_amp :: "string list \<Rightarrow> string" where
  "join_amp [] = []"
| "join_amp [s] = s"
| "join_amp (s # t # ss) = s @ ''&'' @ join_amp (t # ss)"

definition buildDSN :: "string \<Rightarrow> string list \<Rightarrow> string" where
  "buildDSN dsn pragmas =
     (if pragmas = [] then dsn
      else dsn @ (if CHR ''?'' \<in> set dsn then ''&'' else ''?'') @
        join_amp (map (\<lambda>p. ''_pragma='' @ query_escape p) pragmas))"

section \<open>Migrations\<close>

text \<open>An entry of the embedded directory, with its data (\<open>None\<close> when it cannot be read).\<close>

record dir_entry =
  de_Name :: string
  de_IsDir :: bool
  de_Data :: "bytes option"

record 'd mig_db = dbw +
  db_schema :: 'd
  schema_migrations :: "int list option"   \<comment> \<open>\<open>None\<close>: no such table\<close>

text \<open>\<open>fmt.Sscanf (name, "%06d_", &ver)\<close>: a sign and digits among the first six bytes, then an underscore.\<close>

definition scan_version :: "string \<Rightarrow> int option" where
  "scan_version name =
     (let lim = take 6 name;
          blanks = takeWhile (\<lambda>c. c = CHR '' '' \<or> c = CHR 0x09) lim;
          s = drop (length blanks) lim;
          sign = (case s of c # _ \<Rightarrow> if c = CHR ''-'' \<or> c = CHR ''+'' then [c] else [] | [] \<Rightarrow> []);
          ds = takeWhile is_digit (drop (length sign) s);
          rest = drop (length blanks + length sign + length ds) name
      in if ds = [] \<or> \<not> starts ''_'' rest then None
         else Some (if sign = ''-'' then - int (digits_val ds) else int (digits_val ds)))"

definition is_up_sql :: "string \<Rightarrow> bool" where
  "is_up_sql name \<longleftrightarrow> starts (rev ''.up.sql'') (rev name)"

definition migrations_of :: "dir_entry list \<Rightarrow> (int \<times> dir_entry) list" where
  "migrations_of entries = sort_key fst (List.map_filter (\<lambda>e.
     if de_IsDir e \<or> \<not> is_up_sql (de_Name e) then None
     else map_option (\<lambda>v. (v, e)) (scan_version (de_Name e))) entries)"

definition currentVersion :: "int list \<Rightarrow> int" where
  "currentVersion vs = (case vs of [] \<Rightarrow> 0 | v # vs \<Rightarrow> fold max vs v)"

definition recorded :: "('d, 'a) mig_db_scheme \<Rightarrow> int list" where
  "recorded w = (case schema_migrations w of None \<Rightarrow> [] | Some vs \<Rightarrow> vs)"

fun apply_pending ::
  "(bytes \<Rightarrow> 'd \<Rightarrow> 'd option) \<Rightarrow> int \<Rightarrow> (int \<times> dir_entry) list \<Rightarrow> 'd mig_db \<Rightarrow> 'd mig_db \<times> go_error option" where
  "apply_pending exec current [] w = (w, None)"
| "apply_pending exec current ((ver, e) # ms) w =
     (if ver \<le> current then apply_pending exec current ms w else
      case de_Data e of
        None \<Rightarrow> (w, Some (Wrap (''failed to read migration '' @ de_Name e) (Engine ''embed'')))
      | Some data \<Rightarrow>
     (case engine w of (begin_ok, w) \<Rightarrow>
        if \<not> begin_ok then (w, Some (db_error ''failed to start migration transaction'')) else
      case engine w of (exec_ok, w) \<Rightarrow>
        if \<not> exec_ok \<or> exec data (db_schema w) = None
        then (w, Some (db_error (''failed to apply migration '' @ de_Name e))) else
      case engine w of (insert_ok, w) \<Rightarrow>
        if \<not> insert_ok \<or> ver \<in> set (recorded w)
        then (w, Some (db_error (''failed to record migration version '' @ go_itoa ver))) else
      case engine w of (commit_ok, w) \<Rightarrow>
        if \<not> commit_ok then (w, Some (db_error (''failed to commit migration '' @ de_Name e)))
        else apply_pending exec current ms
               (w\<lparr>db_schema := the (exec data (db_schema w)), schema_migrations := Some (recorded w @ [ver])\<rparr>)))"

definition RunMigrations ::
  "(bytes \<Rightarrow> 'd \<Rightarrow> 'd option) \<Rightarrow> dir_entry list \<Rightarrow> 'd mig_db \<Rightarrow> 'd mig_db \<times> go_error option" where
  "RunMigrations exec entries w =
     (case engine w of (create_ok, w) \<Rightarrow>
        if \<not> create_ok then (w, Some (db_error ''failed to create migrations table'')) else
      let w = w\<lparr>schema_migrations := Some (recorded w)\<rparr> in
      case engine w of (query_ok, w) \<Rightarrow>
        if \<not> query_ok then (w, Some (db_error ''failed to check migration version''))
        else apply_pending exec (currentVersion (recorded w)) (migrations_of entries) w)"

section \<open>Opening\<close>

text \<open>
  \<open>InitDB\<close> on the outcomes of the driver's calls; the log says which handles were opened and closed,
  the result is the sizes of the two pools.
\<close>

datatype pool_op = OpenWrite | CloseWrite | OpenRead | CloseRead

definition InitDB ::
  "nat \<Rightarrow> bool \<Rightarrow> bool \<Rightarrow> bool \<Rightarrow> bool \<Rightarrow> ('d mig_db \<Rightarrow> 'd mig_db \<times> go_error option) \<Rightarrow> 'd mig_db \<Rightarrow>
     'd mig_db \<times> pool_op list \<times> (go_error + nat \<times> nat)" where
  "InitDB numCPU open1 ping1 open2 ping2 migrate w =
     (if \<not> open1 then (w, [], Inl (Engine ''open''))
      else if \<not> ping1 then (w, [OpenWrite, CloseWrite], Inl (Engine ''ping''))
      else if \<not> open2 then (w, [OpenWrite, CloseWrite], Inl (Engine ''open''))
      else if \<not> ping2 then (w, [OpenWrite, OpenRead, CloseWrite, CloseRead], Inl (Engine ''ping''))
      else let readPoolSize = (if numCPU < 4 then 4 else numCPU) in
      case migrate w of
        (w, Some err) \<Rightarrow> (w, [OpenWrite, OpenRead, CloseWrite, CloseRead], Inl err)
      | (w, None) \<Rightarrow> (w, [OpenWrite, OpenRead], Inr (1, readPoolSize)))"

section \<open>A run applies a prefix\<close>

fun apply_all :: "(bytes \<Rightarrow> 'd \<Rightarrow> 'd option) \<Rightarrow> (int \<times> dir_entry) list \<Rightarrow> 'd \<Rightarrow> 'd option" where
  "apply_all exec [] d = Some d"
| "apply_all exec ((ver, e) # ms) d =
     (case de_Data e of None \<Rightarrow> None | Some data \<Rightarrow>
      case exec data d of None \<Rightarrow> None | Some d' \<Rightarrow> apply_all exec ms d')"

lemma apply_pending_filter:
  "apply_pending exec cur ms w = apply_pending exec cur (filter (\<lambda>m. cur < fst m) ms) w"
  by (induction exec cur ms w rule: apply_pending.induct)
     (simp_all add: not_le split: option.split prod.split)

lemma apply_pending_current:
  "\<forall>m \<in> set ms. cur < fst m \<and> cur' < fst m \<Longrightarrow> apply_pending exec cur ms w = apply_pending exec cur' ms w"
  by (induction exec cur ms w rule: apply_pending.induct) (simp_all split: option.split prod.split)

lemma engine_schema: "engine w = (b, w') \<Longrightarrow> \<exists>bs. w' = w\<lparr>tape := bs\<rparr>"
  using engine_tape [of w] by simp

lemma recorded_tape [simp]: "recorded (w\<lparr>tape := bs\<rparr>) = recorded w"
  by (simp add: recorded_def)

definition migrated :: "int list \<Rightarrow> 'd \<Rightarrow> 'd mig_db \<Rightarrow> 'd mig_db" where
  "migrated vs d w = w\<lparr>db_schema := d, schema_migrations := Some vs\<rparr>"

lemma apply_pending_prefix:
  fixes w :: "'d mig_db"
  assumes "schema_migrations w = Some vs"
  shows "\<exists>k d bs r. apply_pending exec cur ms w =
      (migrated (vs @ map fst (take k (filter (\<lambda>m. cur < fst m) ms))) d (w\<lparr>tape := bs\<rparr>), r) \<and>
    k \<le> length (filter (\<lambda>m. cur < fst m) ms) \<and>
    apply_all exec (take k (filter (\<lambda>m. cur < fst m) ms)) (db_schema w) = Some d \<and>
    (r = None \<longrightarrow> k = length (filter (\<lambda>m. cur < fst m) ms))"
  using assms
proof (induction ms arbitrary: w vs)
  case Nil
  then show ?case
    by (intro exI [of _ 0] exI [of _ "db_schema w"] exI [of _ "tape w"] exI [of _ None]) (simp add: migrated_def)
next
  case (Cons m ms)
  obtain ver e where m: "m = (ver, e)" by (cases m)
  show ?case
  proof (cases "ver \<le> cur")
    case True
    then show ?thesis using Cons.IH [OF Cons.prems] by (simp add: m)
  next
    case new: False
    let ?P = "filter (\<lambda>m. cur < fst m) ms"
    have stop: ?thesis if "apply_pending exec cur (m # ms) w = (w\<lparr>tape := bs\<rparr>, Some err)" for bs err
    proof -
      have "w\<lparr>tape := bs\<rparr> = migrated (vs @ map fst (take 0 (filter (\<lambda>m. cur < fst m) (m # ms)))) (db_schema w) (w\<lparr>tape := bs\<rparr>)"
        using Cons.prems by (simp add: migrated_def)
      with that show ?thesis
        by (intro exI [of _ 0] exI [of _ "db_schema w"] exI [of _ bs] exI [of _ "Some err"]) simp
    qed
    show ?thesis
    proof (cases "de_Data e")
      case None
      then show ?thesis using stop [of "tape w"] new by (simp add: m)
    next
      case data: (Some data)
      obtain b1 t1 b2 t2 where 1: "engine w = (b1, w\<lparr>tape := t1\<rparr>)"
        "engine (w\<lparr>tape := t1\<rparr>) = (b2, w\<lparr>tape := t2\<rparr>)" by (rule engine_twice)
      obtain b3 t3 b4 t4 where 2: "engine (w\<lparr>tape := t2\<rparr>) = (b3, w\<lparr>tape := t3\<rparr>)"
        "engine (w\<lparr>tape := t3\<rparr>) = (b4, w\<lparr>tape := t4\<rparr>)"
        by (rule engine_twice [of "w\<lparr>tape := t2\<rparr>"]) auto
      show ?thesis
      proof (cases "b1 \<and> b2 \<and> exec data (db_schema w) \<noteq> None \<and> b3 \<and> ver \<notin> set vs \<and> b4")
        case False
        have "recorded w = vs" using Cons.prems by (simp add: recorded_def)
        with False have "\<exists>bs err. apply_pending exec cur (m # ms) w = (w\<lparr>tape := bs\<rparr>, Some err)"
          using new data 1 2 by (auto simp: m)
        then show ?thesis using stop by blast
      next
        case True
        then obtain d1 where d1: "exec data (db_schema w) = Some d1" by auto
        let ?w = "migrated (vs @ [ver]) d1 (w\<lparr>tape := t4\<rparr>)"
        have run: "apply_pending exec cur (m # ms) w = apply_pending exec cur ms ?w"
          using new data True d1 1 2 Cons.prems by (simp add: m recorded_def migrated_def)
        have "schema_migrations ?w = Some (vs @ [ver])" by (simp add: migrated_def)
        from Cons.IH [OF this] obtain k d bs r where
          "apply_pending exec cur ms ?w = (migrated ((vs @ [ver]) @ map fst (take k ?P)) d (?w\<lparr>tape := bs\<rparr>), r)"
          "k \<le> length ?P" "apply_all exec (take k ?P) (db_schema ?w) = Some d" "r = None \<longrightarrow> k = length ?P"
          by blast
        then show ?thesis using run new data d1
          by (intro exI [of _ "Suc k"] exI [of _ d] exI [of _ bs] exI [of _ r]) (simp add: m migrated_def)
      qed
    qed
  qed
qed

text \<open>On a healthy engine a prefix that applies can be split off.\<close>

lemma apply_pending_split:
  fixes w :: "'d mig_db"
  assumes "healthy w" "schema_migrations w = Some vs" "apply_all exec ms1 (db_schema w) = Some d"
    and "\<forall>m \<in> set ms1. cur < fst m" "distinct (vs @ map fst ms1)"
  shows "apply_pending exec cur (ms1 @ ms2) w = apply_pending exec cur ms2 (migrated (vs @ map fst ms1) d w)"
  using assms
proof (induction ms1 arbitrary: w vs)
  case Nil
  then have "w = migrated (vs @ []) d w" by (simp add: migrated_def)
  then show ?case by simp
next
  case (Cons m ms1)
  obtain ver e where m: "m = (ver, e)" by (cases m)
  obtain data d1 where d: "de_Data e = Some data" "exec data (db_schema w) = Some d1"
    "apply_all exec ms1 d1 = Some d"
    using Cons.prems(3) by (auto simp: m split: option.splits)
  let ?w = "migrated (vs @ [ver]) d1 w"
  have h: "healthy ?w" "schema_migrations ?w = Some (vs @ [ver])" "db_schema ?w = d1"
    using Cons.prems(1) by (simp_all add: migrated_def healthy_def)
  have "apply_pending exec cur ((m # ms1) @ ms2) w = apply_pending exec cur (ms1 @ ms2) ?w"
    using Cons.prems d by (auto simp: m recorded_def migrated_def)
  also have "\<dots> = apply_pending exec cur ms2 (migrated ((vs @ [ver]) @ map fst ms1) d ?w)"
    using Cons.prems(4,5) d(3) by (intro Cons.IH [OF h(1,2)]) (simp_all add: h m)
  finally show ?case by (simp add: m migrated_def)
qed


lemma currentVersion_Max: "vs \<noteq> [] \<Longrightarrow> currentVersion vs = Max (set vs)"
  by (cases vs) (simp_all only: currentVersion_def Max.set_eq_fold list.case)

lemma currentVersion_ge: "v \<in> set vs \<Longrightarrow> v \<le> currentVersion vs"
  by (cases "vs = []") (simp_all add: currentVersion_Max)

lemma currentVersion_mem: "vs \<noteq> [] \<Longrightarrow> currentVersion vs \<in> set vs"
  by (simp add: currentVersion_Max)

text \<open>Where the next run takes up the work: the pending migrations after a prefix has been recorded.\<close>

lemma pending_after_prefix:
  assumes "sorted_wrt (\<lambda>a b. fst a < fst b) ms" "P = filter (\<lambda>m. currentVersion vs < fst m) ms"
  shows "filter (\<lambda>m. currentVersion (vs @ map fst (take k P)) < fst m) ms = drop k P"
proof (cases "take k P = []")
  case True
  then show ?thesis using assms(2) by auto
next
  case False
  let ?c = "currentVersion (vs @ map fst (take k P))" and ?Q = "take k P"
  have P: "sorted_wrt (\<lambda>a b. fst a < fst b) P" using assms by (simp add: sorted_wrt_filter)
  have le: "\<forall>m \<in> set ?Q. fst m \<le> ?c"
    by (intro ballI currentVersion_ge) simp
  have new: "\<forall>m \<in> set P. currentVersion vs < fst m" using assms(2) by simp
  have "?c \<in> fst ` set ?Q"
  proof -
    have "?c \<in> set (vs @ map fst ?Q)" using False by (intro currentVersion_mem) simp
    moreover have "?c \<notin> set vs"
    proof
      assume "?c \<in> set vs"
      then have "?c \<le> currentVersion vs" by (rule currentVersion_ge)
      moreover obtain m where "m \<in> set ?Q" using False by (cases ?Q) auto
      ultimately show False using le new by (meson in_set_takeD leD order_trans)
    qed
    ultimately show ?thesis by auto
  qed
  then obtain q where q: "q \<in> set ?Q" "?c = fst q" by auto
  have "\<forall>m \<in> set (drop k P). fst q < fst m"
  proof -
    have "sorted_wrt (\<lambda>a b. fst a < fst b) (?Q @ drop k P)" using P by simp
    then show ?thesis using q(1) by (simp only: sorted_wrt_append) blast
  qed
  then have gt: "\<forall>m \<in> set (drop k P). ?c < fst m" using q(2) by simp
  have "currentVersion vs < ?c" using new q by (auto dest: in_set_takeD)
  then have "filter (\<lambda>m. ?c < fst m) ms = filter (\<lambda>m. ?c < fst m) P"
    unfolding assms(2) filter_filter by (intro filter_cong refl) auto
  also have "\<dots> = filter (\<lambda>m. ?c < fst m) (?Q @ drop k P)" by simp
  also have "\<dots> = drop k P"
    unfolding filter_append using le gt by (simp add: filter_empty_conv filter_id_conv leD)
  finally show ?thesis .
qed


lemma migrations_sorted: "sorted (map fst (migrations_of entries))"
  by (simp add: migrations_of_def)

lemma RunMigrations_healthy:
  "RunMigrations exec entries (w\<lparr>tape := []\<rparr>) =
     apply_pending exec (currentVersion (recorded w)) (migrations_of entries)
       (migrated (recorded w) (db_schema w) (w\<lparr>tape := []\<rparr>))"
  by (simp add: RunMigrations_def engine_def migrated_def recorded_def Let_def)

lemma RunMigrations_prefix:
  fixes w :: "'d mig_db" and entries :: "dir_entry list"
  defines "P \<equiv> filter (\<lambda>m. currentVersion (recorded w) < fst m) (migrations_of entries)"
  obtains (idle) bs e where "RunMigrations exec entries w = (w\<lparr>tape := bs\<rparr>, Some e)"
  | (ran) k d bs r where "RunMigrations exec entries w =
        (migrated (recorded w @ map fst (take k P)) d (w\<lparr>tape := bs\<rparr>), r)"
      "k \<le> length P" "apply_all exec (take k P) (db_schema w) = Some d" "r = None \<longrightarrow> k = length P"
proof -
  obtain b1 t1 where 1: "engine w = (b1, w\<lparr>tape := t1\<rparr>)" by (rule engine_cases)
  define u where "u = migrated (recorded w) (db_schema w) (w\<lparr>tape := t1\<rparr>)"
  obtain b2 t2 where 2: "engine u = (b2, u\<lparr>tape := t2\<rparr>)" by (rule engine_cases)
  have u: "w\<lparr>tape := t1, schema_migrations := Some (recorded w)\<rparr> = u" "recorded u = recorded w"
    "db_schema u = db_schema w" "u\<lparr>tape := t\<rparr> = migrated (recorded w) (db_schema w) (w\<lparr>tape := t\<rparr>)" for t
    by (simp_all add: u_def migrated_def recorded_def)
  show thesis
  proof (cases "b1 \<and> b2")
    case False
    then have "(\<exists>bs e. RunMigrations exec entries w = (w\<lparr>tape := bs\<rparr>, Some e)) \<or>
        (\<exists>bs e. RunMigrations exec entries w = (u\<lparr>tape := bs\<rparr>, Some e))"
      using 1 2 u(1) by (auto simp: RunMigrations_def Let_def)
    then show thesis using idle ran [of 0 "db_schema w"] by (auto simp: u(4))
  next
    case True
    then have run: "RunMigrations exec entries w =
        apply_pending exec (currentVersion (recorded w)) (migrations_of entries) (u\<lparr>tape := t2\<rparr>)"
      using 1 2 u(1,2) by (simp add: RunMigrations_def Let_def)
    have "schema_migrations (u\<lparr>tape := t2\<rparr>) = Some (recorded w)" by (simp add: u_def migrated_def)
    from apply_pending_prefix [OF this, of exec "currentVersion (recorded w)" "migrations_of entries"]
    obtain k d bs r where "apply_pending exec (currentVersion (recorded w)) (migrations_of entries) (u\<lparr>tape := t2\<rparr>) =
        (migrated (recorded w @ map fst (take k P)) d (u\<lparr>tape := t2, tape := bs\<rparr>), r)"
      "k \<le> length P" "apply_all exec (take k P) (db_schema w) = Some d" "r = None \<longrightarrow> k = length P"
      unfolding P_def by (auto simp: u(3))
    then show thesis using ran [of k d bs r] run by (simp add: u_def migrated_def)
  qed
qed

section \<open>Properties\<close>

text \<open>C22: an interrupted start-up is repaired by the next one.  Whatever the engine does in a first run of
  the migrations, running them again on a healthy engine gives exactly the schema, the recorded
  versions and the result of one undisturbed run.\<close>

theorem migrations_resume:
  assumes "distinct (map fst (migrations_of entries))" "distinct (recorded w)"
  shows "RunMigrations exec entries ((fst (RunMigrations exec entries w))\<lparr>tape := []\<rparr>) =
    RunMigrations exec entries (w\<lparr>tape := []\<rparr>)"
proof (cases rule: RunMigrations_prefix [of exec entries w])
  case (idle bs e)
  then show ?thesis by simp
next
  case (ran k d bs r)
  let ?ms = "migrations_of entries" and ?vs = "recorded w"
  define P where "P = filter (\<lambda>m. currentVersion ?vs < fst m) ?ms"
  let ?vs' = "?vs @ map fst (take k P)"
  have strict: "sorted_wrt (\<lambda>a b. fst a < fst b) ?ms"
    using assms(1) migrations_sorted [of entries] by (simp add: strict_sorted_iff sorted_wrt_map [symmetric] flip: sorted_wrt_map)
  have rest: "filter (\<lambda>m. currentVersion ?vs' < fst m) ?ms = drop k P"
    using strict P_def by (rule pending_after_prefix)
  have new: "\<forall>m \<in> set P. currentVersion ?vs < fst m" by (simp add: P_def)
  have "distinct (map fst P)" using assms(1) by (simp add: P_def distinct_map_filter)
  moreover have "set ?vs \<inter> fst ` set P = {}" using new currentVersion_ge [of _ ?vs] by fastforce
  ultimately have "distinct (map fst (take k P))" "set ?vs \<inter> fst ` set (take k P) = {}"
    using set_take_subset [of k P] by (simp add: take_map [symmetric], blast)
  then have dist: "distinct ?vs'" using assms(2) by simp
  let ?w = "migrated ?vs (db_schema w) (w\<lparr>tape := []\<rparr>)"
  have "RunMigrations exec entries (w\<lparr>tape := []\<rparr>) = apply_pending exec (currentVersion ?vs) (take k P @ drop k P) ?w"
    unfolding RunMigrations_healthy by (subst apply_pending_filter) (simp add: P_def)
  also have "\<dots> = apply_pending exec (currentVersion ?vs) (drop k P) (migrated ?vs' d ?w)"
  proof (rule apply_pending_split)
    show "healthy ?w" "schema_migrations ?w = Some ?vs" by (simp_all add: healthy_def migrated_def)
    show "apply_all exec (take k P) (db_schema ?w) = Some d" using ran(3) by (simp add: P_def migrated_def)
    show "\<forall>m \<in> set (take k P). currentVersion ?vs < fst m" using new set_take_subset [of k P] by blast
    show "distinct ?vs'" by (rule dist)
  qed
  also have "\<dots> = apply_pending exec (currentVersion ?vs') (drop k P) (migrated ?vs' d ?w)"
  proof (rule apply_pending_current)
    show "\<forall>m \<in> set (drop k P). currentVersion ?vs < fst m \<and> currentVersion ?vs' < fst m"
      using new set_drop_subset [of k P] rest [THEN arg_cong, of set] by auto
  qed
  also have "\<dots> = apply_pending exec (currentVersion ?vs') ?ms (migrated ?vs' d ?w)"
    using apply_pending_filter [of exec "currentVersion ?vs'" ?ms] rest by simp
  also have "\<dots> = RunMigrations exec entries ((fst (RunMigrations exec entries w))\<lparr>tape := []\<rparr>)"
    unfolding RunMigrations_healthy by (simp add: ran(1) P_def migrated_def recorded_def)
  finally show ?thesis by simp
qed

text \<open>A fresh database, a first script and a second one.\<close>

definition sample_entries :: "dir_entry list" where
  "sample_entries =
     [\<lparr>de_Name = ''000002_add_missing_indexes.up.sql'', de_IsDir = False, de_Data = Some ''B''\<rparr>,
      \<lparr>de_Name = ''000001_create_initial_schema.down.sql'', de_IsDir = False, de_Data = Some ''X''\<rparr>,
      \<lparr>de_Name = ''000001_create_initial_schema.up.sql'', de_IsDir = False, de_Data = Some ''A''\<rparr>]"

definition fresh_db :: "bool list \<Rightarrow> string mig_db" where
  "fresh_db bs = \<lparr>workflow_jobs = [], workflow_runs = [], webhook_events = [], metrics_snapshots = [],
     tape = bs, clock = zero_time, db_schema = [], schema_migrations = None\<rparr>"

lemma sample_migrations: "map fst (migrations_of sample_entries) = [1, 2]"
  by code_simp

lemma sample_interrupted:
  "schema_migrations (fst (RunMigrations (\<lambda>b d. Some (d @ b)) sample_entries (fresh_db [True, True, True, True, True, True, True, False]))) = Some [1]"
  by code_simp

theorem migrations_resume_witness:
  "RunMigrations (\<lambda>b d. Some (d @ b)) sample_entries
     ((fst (RunMigrations (\<lambda>b d. Some (d @ b)) sample_entries (fresh_db [True, True, True, True, True, True, True, False])))\<lparr>tape := []\<rparr>) =
   RunMigrations (\<lambda>b d. Some (d @ b)) sample_entries ((fresh_db [True, True, True, True, True, True, True, False])\<lparr>tape := []\<rparr>)"
  by (rule migrations_resume) (simp_all add: sample_migrations, simp add: fresh_db_def recorded_def)

text \<open>How the driver reads the pragmas of a data source name: the parameters after the question mark.\<close>

definition dsn_params :: "string \<Rightarrow> string option list" where
  "dsn_params dsn = map (\<lambda>p. query_unescape (drop (length ''_pragma='') p)) (split_on (CHR ''&'') (after (CHR ''?'') dsn))"

lemma split_join_amp:
  "ss \<noteq> [] \<Longrightarrow> \<forall>s \<in> set ss. CHR ''&'' \<notin> set s \<Longrightarrow> split_on (CHR ''&'') (join_amp ss) = ss"
  by (induction ss rule: join_amp.induct) (simp_all add: split_on_append split_on_none)

text \<open>The data source name carries every pragma: the driver reads back exactly the configured list,
  in order, whatever characters the pragmas contain.\<close>

theorem dsn_round_trip:
  assumes "CHR ''?'' \<notin> set dsn" "pragmas \<noteq> []"
  shows "dsn_params (buildDSN dsn pragmas) = map Some pragmas"
proof -
  let ?ps = "map (\<lambda>p. ''_pragma='' @ query_escape p) pragmas"
  have "\<forall>s \<in> set ?ps. CHR ''&'' \<notin> set s" using query_escape_plain [of "CHR ''&''"] by auto
  then have "split_on (CHR ''&'') (join_amp ?ps) = ?ps" using assms(2) by (intro split_join_amp) simp_all
  moreover have "after (CHR ''?'') (dsn @ CHR ''?'' # join_amp ?ps) = join_amp ?ps"
    using assms(1) by (simp add: after_def dropWhile_append)
  ultimately show ?thesis
    using assms by (simp add: buildDSN_def dsn_params_def query_round_trip comp_def)
qed

theorem dsn_round_trip_witness:
  "dsn_params (buildDSN ''./data/live-actions.db'' connPragmas) = map Some connPragmas"
  by (rule dsn_round_trip) (simp_all add: connPragmas_def)

text \<open>Every handle that was opened is closed again when the initialisation fails, and only then.\<close>

lemma InitDB_handles:
  "case InitDB n o1 p1 o2 p2 mg w of (_, log, r) \<Rightarrow>
     (case r of Inl e \<Rightarrow> count_list log OpenWrite = count_list log CloseWrite \<and>
                         count_list log OpenRead = count_list log CloseRead
              | Inr pools \<Rightarrow> log = [OpenWrite, OpenRead] \<and> fst pools = 1 \<and> 4 \<le> snd pools)"
  by (auto simp: InitDB_def Let_def split: prod.split option.split)

end
