(* ===== verification/Startup.thy ===== *)
theory Startup
  imports Relay Http Migrations AppConfig
begin

text \<open>
  The start of the process, \<open>main.go\<close> and \<open>SetupAndRun\<close> of \<open>cmd/server/server.go\<close> up to the call that
  serves: what it builds and starts, in the order of the code, and where it ends early.  A start is the list of the
  actions it performs; what the environment answers is its argument.
\<close>

section \<open>File paths\<close>

text \<open>\<open>filepath.Clean\<close> and \<open>filepath.Dir\<close> on a system with slashes.\<close>

fun clean_parts :: "bool \<Rightarrow> string list \<Rightarrow> string list \<Rightarrow> string list" where
  "clean_parts rooted out [] = rev out"
| "clean_parts rooted out (p # ps) =
     (if p = [] \<or> p = ''.'' then clean_parts rooted out ps
      else if p = ''..'' then
        (case out of
           [] \<Rightarrow> clean_parts rooted (if rooted then [] else [p]) ps
         | a # out' \<Rightarrow> clean_parts rooted (if a = ''..'' then p # out else out') ps)
      else clean_parts rooted (p # out) ps)"

fun join_slash :: "string list \<Rightarrow> string" where
  "join_slash [] = []"
| "join_slash [p] = p"
| "join_slash (p # ps) = p @ CHR ''/'' # join_slash ps"

definition filepath_Clean :: "string \<Rightarrow> string" where
  "filepath_Clean path =
     (let rooted = starts ''/'' path;
          out = (if rooted then ''/'' else []) @ join_slash (clean_parts rooted [] (split_on (CHR ''/'') path))
      in if out = [] then ''.'' else out)"

definition filepath_Dir :: "string \<Rightarrow> string" where
  "filepath_Dir path = filepath_Clean (rev (dropWhile (\<lambda>c. c \<noteq> CHR ''/'') (rev path)))"

lemma default_directory:
  "filepath_Dir ''./data/live-actions.db'' = ''data''" "filepath_Dir ''live-actions.db'' = ''.''"
  "filepath_Dir ''/var/lib/../db/x.db'' = ''/var/db''" "filepath_Dir ''/x.db'' = ''/''"
  by code_simp+

section \<open>The relay's configuration\<close>

definition splitEvents :: "string \<Rightarrow> string list" where
  "splitEvents s = filter (\<lambda>t. t \<noteq> []) (map TrimSpace (split_on (CHR '','') s))"

definition relay_of :: "Vars \<Rightarrow> relay_config" where
  "relay_of v =
     \<lparr>Token = GitHubToken v, Host = GitHubHost v, Repo = GitHubRepo v, Org = GitHubOrg v,
      Enterprise = GitHubEnterprise v, Events = splitEvents (GitHubEvents v), Secret = WebhookSecret v\<rparr>"

text \<open>\<open>ingestAdapter\<close>: the webhook handler as the relay's \<open>Ingester\<close>.\<close>

definition ingestAdapter :: "handler_map \<Rightarrow> (svc \<Rightarrow> svc \<times> select_case) \<Rightarrow> ingester" where
  "ingestAdapter hs wait eventType deliveryID body s =
     (case Ingest hs wait eventType deliveryID body s of
        (s, r) \<Rightarrow> (s, \<lparr>Status = Status r, Message = Message r\<rparr>))"

lemma ingestAdapter [simp]: "ingestAdapter hs wait = Ingest hs wait"
  by (auto simp: ingestAdapter_def fun_eq_iff split: prod.split)

section \<open>The start\<close>

record http_server =
  hs_Addr :: string
  hs_ReadTimeout :: int
  hs_WriteTimeout :: int
  hs_IdleTimeout :: int

datatype boot_action =
    LoggerInit string
  | ReleaseMode
  | MakeDirectory string
  | DatabaseOpened string
  | EventStreamReady
  | OrderingServiceStarted
  | StatsRegistered string
  | QueueCapacitySet nat
  | QueueDepthRegistered
  | SubscribersRegistered
  | Using string
  | RoutesRegistered
  | CleanupStarted int
  | MetricsStarted int
  | SignalsAwaited int
  | RelayStarted Subscriber
  | ListenAndServe http_server
  | Fatal string
  | ExitWith nat

text \<open>What the start meets: the environment, the database, and the embedded frontend.\<close>

record boot =
  bt_env :: environment
  bt_database :: bool
  bt_dist :: bool
  bt_assets :: bool
  bt_index :: bool

definition second :: int where "second = 1000000000"

definition middleware_chain :: "string list" where
  "middleware_chain =
     [''ErrorHandler'', ''RequestLogger'', ''SecurityLogger'', ''SecurityHeaders'', ''InputValidator'']"

definition http_server_of :: "Vars \<Rightarrow> http_server" where
  "http_server_of cfg =
     \<lparr>hs_Addr = CHR '':'' # Port cfg, hs_ReadTimeout = 30 * second, hs_WriteTimeout = 30 * second,
      hs_IdleTimeout = 60 * second\<rparr>"

text \<open>From the started services to the call that serves, which does not come back while all is well.\<close>

definition start_serving :: "Vars \<Rightarrow> boot_action list" where
  "start_serving cfg =
     [CleanupStarted (GetCleanupInterval cfg), MetricsStarted (2 * second), SignalsAwaited (30 * second)] @
     (if WebhookTransport cfg = ''websocket'' then
        (case NewSubscriber (relay_of cfg) of
           Inl e \<Rightarrow> [Fatal ''Invalid WebSocket subscriber config'']
         | Inr sub \<Rightarrow> [RelayStarted sub, ListenAndServe (http_server_of cfg)])
      else [ListenAndServe (http_server_of cfg)])"

definition SetupAndRun :: "boot \<Rightarrow> boot_action list" where
  "SetupAndRun b =
     (case NewConfig (bt_env b) of
        Inl e \<Rightarrow> [LoggerInit ''error'', Fatal ''Failed to load configuration'']
      | Inr cfg \<Rightarrow>
     (let dbPath = GetDatabasePath cfg; dir = filepath_Dir dbPath in
      [LoggerInit (LogLevel cfg)] @ (if IsProduction cfg then [ReleaseMode] else []) @
      (if dir \<noteq> ''.'' \<and> dir \<noteq> [] then [MakeDirectory dir] else []) @
      (if \<not> bt_database b then [ExitWith 1] else
       [DatabaseOpened dbPath, EventStreamReady, OrderingServiceStarted, StatsRegistered ''write'',
        StatsRegistered ''read'', QueueCapacitySet defaultIngestChannelSize, QueueDepthRegistered,
        SubscribersRegistered] @ map Using middleware_chain @
       (if \<not> bt_dist b then [Fatal ''Failed to load embedded frontend/dist'']
        else if \<not> bt_assets b then [Fatal ''Failed to load embedded frontend/dist/assets'']
        else RoutesRegistered #
          (if \<not> bt_index b then [Fatal ''Failed to load embedded index.html''] else start_serving cfg)))))"

text \<open>\<open>main\<close>: the two lines it prints, with what the build and the runtime say of themselves, then the
  start.\<close>

record build =
  bd_version :: string
  bd_commit :: string
  bd_date :: string
  bd_Version :: string        \<comment> \<open>\<open>runtime.Version\<close>\<close>
  bd_GOOS :: string
  bd_GOARCH :: string

definition default_build :: "string \<Rightarrow> string \<Rightarrow> string \<Rightarrow> build" where
  "default_build go os arch =
     \<lparr>bd_version = ''dev'', bd_commit = ''unknown'', bd_date = ''unknown'', bd_Version = go, bd_GOOS = os, bd_GOARCH = arch\<rparr>"

definition go_main :: "build \<Rightarrow> boot \<Rightarrow> string list \<times> boot_action list" where
  "go_main bd b =
     ([''Live Actions '' @ bd_version bd @ '' (commit: '' @ bd_commit bd @ '', built: '' @ bd_date bd @ '')'',
       ''Go version: '' @ bd_Version bd @ '' '' @ bd_GOOS bd @ ''/'' @ bd_GOARCH bd],
      SetupAndRun b)"

text \<open>The three ways a start ends, and that it ends only once.\<close>

fun final_action :: "boot_action \<Rightarrow> bool" where
  "final_action (ListenAndServe srv) = True"
| "final_action (Fatal m) = True"
| "final_action (ExitWith n) = True"
| "final_action a = False"

fun ends_once :: "boot_action list \<Rightarrow> bool" where
  "ends_once [] = False"
| "ends_once (a # as) = (if as = [] then final_action a else \<not> final_action a \<and> ends_once as)"

lemma ends_once_append [simp]: "bs \<noteq> [] \<Longrightarrow> ends_once (as @ bs) \<longleftrightarrow> \<not> list_ex final_action as \<and> ends_once bs"
  by (induction as) auto

lemma start_serving_ends: "start_serving v \<noteq> [] \<and> ends_once (start_serving v)"
  by (cases "NewSubscriber (relay_of v)") (auto simp: start_serving_def)

lemma start_ends_once: "ends_once (SetupAndRun b)"
  by (cases "NewConfig (bt_env b)") (auto simp: SetupAndRun_def Let_def middleware_chain_def start_serving_ends)

section \<open>Properties\<close>

text \<open>Of the configurations \<open>NewConfig\<close> accepts, a start with a working database and frontend refuses
  exactly those that enable the relay without naming an event: a text of commas and blanks passes the
  configuration; the services are started and then the process ends without stopping them.\<close>

theorem accepted_configuration_starts:
  assumes "NewConfig (bt_env b) = Inr cfg" "bt_database b" "bt_dist b" "bt_assets b" "bt_index b"
  shows "(if WebhookTransport cfg \<noteq> ''websocket'' \<or> splitEvents (GitHubEvents cfg) \<noteq> []
     then last (SetupAndRun b) = ListenAndServe (http_server_of cfg)
     else last (SetupAndRun b) = Fatal ''Invalid WebSocket subscriber config'' \<and>
       CleanupStarted (GetCleanupInterval cfg) \<in> set (SetupAndRun b) \<and> OrderingServiceStarted \<in> set (SetupAndRun b))"
proof -
  have "(\<exists>e. NewSubscriber (relay_of cfg) = Inl e) \<longleftrightarrow> splitEvents (GitHubEvents cfg) = []"
    if "WebhookTransport cfg = ''websocket''"
    using assms(1) that
    by (auto simp: NewConfig_def NewSubscriber_def Validate_def relay_of_def relay_targets_def targets_set_def Let_def
      split: if_splits)
  then show ?thesis using assms
    by (cases "NewSubscriber (relay_of cfg)") (auto simp: SetupAndRun_def start_serving_def Let_def)
qed

definition blank_events :: environment where
  "blank_events k =
     (if k = ''WEBHOOK_TRANSPORT'' then ''websocket'' else if k = ''GITHUB_TOKEN'' then ''t''
      else if k = ''GITHUB_REPO'' then ''o/r'' else if k = ''GITHUB_EVENTS'' then '' , '' else [])"

theorem accepted_configuration_starts_witness:
  "NewConfig blank_events = Inr (read_vars blank_events) \<and>
   last (SetupAndRun \<lparr>bt_env = blank_events, bt_database = True, bt_dist = True, bt_assets = True, bt_index = True\<rparr>) =
     Fatal ''Invalid WebSocket subscriber config''"
proof -
  have v: "WebhookTransport (read_vars blank_events) = ''websocket''" "GitHubEvents (read_vars blank_events) = '' , ''"
    by (simp_all add: read_vars_def getEnvOrDefault_def blank_events_def)
  have c: "NewConfig blank_events = Inr (read_vars blank_events)"
    by (simp add: NewConfig_def Let_def IsProduction_def targets_set_def read_vars_def getEnvOrDefault_def blank_events_def)
  have "splitEvents '' , '' = []"
    by (simp add: splitEvents_def TrimSpace_def ascii_space_def is_blank_def)
  then show ?thesis
    using accepted_configuration_starts [of "\<lparr>bt_env = blank_events, bt_database = True, bt_dist = True,
        bt_assets = True, bt_index = True\<rparr>" "read_vars blank_events"] v c by simp
qed

end
