(* ===== verification/Server.thy ===== *)
theory Server
  imports Api Origin Middleware Startup
begin

text \<open>
  The composition of the server, \<open>SetupAndRun\<close> of \<open>cmd/server/server.go\<close>: the route table with its guards, and the way of a request through the input validation, the guard of
  its route and the handler.  The router is a library; its matching of a pattern with a path is a
  parameter, which answers the value of the path parameter (empty when the pattern has none).
\<close>

section \<open>Routes\<close>

datatype guard = NoGuard | SignatureGuard | OriginGuard | SSEGuard

datatype endpoint =
    HandleEP | CSRFTokenEP | WorkflowRunsEP | WorkflowJobsEP | CurrentMetricsEP | FailureAnalyticsEP
  | LabelDemandEP | RepositoriesEP | EventsEP | PrometheusEP | HealthzEP | ReadyzEP | DistEP | AssetsEP

record route =
  rt_Method :: string
  rt_Path :: string
  rt_Guard :: guard
  rt_Endpoint :: endpoint

definition routes :: "route list" where
  "routes = map (\<lambda>(m, p, g, e). \<lparr>rt_Method = m, rt_Path = p, rt_Guard = g, rt_Endpoint = e\<rparr>)
     [(''GET'', ''/static/*filepath'', NoGuard, DistEP), (''HEAD'', ''/static/*filepath'', NoGuard, DistEP),
      (''GET'', ''/assets/*filepath'', NoGuard, AssetsEP), (''HEAD'', ''/assets/*filepath'', NoGuard, AssetsEP),
      (''POST'', ''/webhook'', SignatureGuard, HandleEP),
      (''GET'', ''/api/csrf'', NoGuard, CSRFTokenEP),
      (''GET'', ''/api/workflow-runs'', OriginGuard, WorkflowRunsEP),
      (''GET'', ''/api/workflow-jobs/:run_id'', OriginGuard, WorkflowJobsEP),
      (''GET'', ''/api/metrics/query_range'', OriginGuard, CurrentMetricsEP),
      (''GET'', ''/api/analytics/failures'', OriginGuard, FailureAnalyticsEP),
      (''GET'', ''/api/analytics/labels'', OriginGuard, LabelDemandEP),
      (''GET'', ''/api/repositories'', OriginGuard, RepositoriesEP),
      (''GET'', ''/events'', SSEGuard, EventsEP),
      (''GET'', ''/metrics'', NoGuard, PrometheusEP),
      (''GET'', ''/healthz'', NoGuard, HealthzEP),
      (''GET'', ''/readyz'', NoGuard, ReadyzEP)]"

section \<open>One request\<close>

text \<open>A request: what the origin checks read, the line, the query, and what the webhook reads.\<close>

record server_request = web_request +
  sq_Method :: string
  sq_Path :: string
  sq_Query :: "string \<Rightarrow> string option"
  sq_Hook :: http_request

definition c_Query :: "('a server_request_scheme) \<Rightarrow> string \<Rightarrow> string" where
  "c_Query rq k = (case sq_Query rq k of None \<Rightarrow> [] | Some v \<Rightarrow> v)"

text \<open>The bodies of the answers; streams and files are named only.\<close>

datatype answer =
    Json http_response
  | Runs "WorkflowRun list" pagination
  | Jobs "WorkflowJob list"
  | Metrics MetricsResponse
  | Failures failure_summary "FailureTrendPoint list"
  | Labels "LabelDemandSummary list" "LabelDemandTrendPoint list"
  | Repositories "string list"
  | CSRF "cookie option" http_response
  | Readiness "nat \<times> string"
  | EventStream
  | PrometheusText
  | StaticFile string
  | IndexHTML

text \<open>The libraries and the environment a request meets.\<close>

record deps =
  dp_config :: Vars
  dp_match :: "string \<Rightarrow> string \<Rightarrow> string option"
  dp_strftime :: sql_strftime
  dp_julianday :: sql_julianday
  dp_random :: "bytes option"
  dp_pings :: "bool option \<times> bool option"
  dp_wait :: "svc \<Rightarrow> svc \<times> select_case"

definition spaFallbackHandler :: "string \<Rightarrow> answer" where
  "spaFallbackHandler method =
     (if method \<noteq> ''GET'' \<and> method \<noteq> ''HEAD'' then Json (error_json 404 ''route not found'') else IndexHTML)"

definition guard_check :: "deps \<Rightarrow> guard \<Rightarrow> server_request \<Rightarrow> http_response option" where
  "guard_check dp g rq =
     (case g of
        NoGuard \<Rightarrow> None
      | SignatureGuard \<Rightarrow> (case ValidateGitHubWebhook (WebhookSecret (dp_config dp)) (sq_Hook rq) of
                             Inl r \<Rightarrow> Some r | Inr _ \<Rightarrow> None)
      | OriginGuard \<Rightarrow> ValidateOrigin rq
      | SSEGuard \<Rightarrow> ValidateSSEOrigin rq)"

text \<open>A handler that reads the database, as a transition of the service.\<close>

definition reading :: "(world \<Rightarrow> world \<times> (nat \<times> string + 'x)) \<Rightarrow> ('x \<Rightarrow> answer) \<Rightarrow> svc \<Rightarrow> svc \<times> answer" where
  "reading f mk s =
     (case f (wrld s) of
        (w, Inl (code, m)) \<Rightarrow> (s\<lparr>wrld := w\<rparr>, Json (error_json code m))
      | (w, Inr x) \<Rightarrow> (s\<lparr>wrld := w\<rparr>, mk x))"

definition handle_endpoint :: "deps \<Rightarrow> endpoint \<Rightarrow> string \<Rightarrow> server_request \<Rightarrow> svc \<Rightarrow> svc \<times> answer" where
  "handle_endpoint dp e param rq s =
     (case e of
        HandleEP \<Rightarrow> (case Handle NewWebhookHandler (dp_wait dp) (Some (rq_event (sq_Hook rq))) (sq_Hook rq) s of
                       (s, r) \<Rightarrow> (s, Json r))
      | CSRFTokenEP \<Rightarrow> (case GetCSRFToken (dp_config dp) (dp_random dp) of (c, r) \<Rightarrow> (s, CSRF c r))
      | WorkflowRunsEP \<Rightarrow> reading (GetWorkflowRuns (sq_Query rq ''page'') (sq_Query rq ''limit'')
                            (c_Query rq ''repo'') (c_Query rq ''status'')) (\<lambda>(rs, p). Runs rs p) s
      | WorkflowJobsEP \<Rightarrow> reading (APIGetWorkflowJobsByRunID param) Jobs s
      | CurrentMetricsEP \<Rightarrow> reading (GetCurrentMetrics (dp_julianday dp) (sq_Query rq ''period'')) Metrics s
      | FailureAnalyticsEP \<Rightarrow> reading (APIGetFailureAnalytics (dp_strftime dp) (sq_Query rq ''period'') (c_Query rq ''repo''))
                                (\<lambda>(a, b). Failures a b) s
      | LabelDemandEP \<Rightarrow> reading (APIGetLabelDemand (dp_strftime dp) (dp_julianday dp) (sq_Query rq ''period'') (c_Query rq ''repo''))
                           (\<lambda>(a, b). Labels a b) s
      | RepositoriesEP \<Rightarrow> reading APIGetRepositories Repositories s
      | EventsEP \<Rightarrow> (s, EventStream)
      | PrometheusEP \<Rightarrow> (s, PrometheusText)
      | HealthzEP \<Rightarrow> (s, Json \<lparr>rs_status = 200, rs_body = [(''status'', ''ok'')]\<rparr>)
      | ReadyzEP \<Rightarrow> (s, Readiness (ReadyzHandler (fst (dp_pings dp)) (snd (dp_pings dp)) (Some s)))
      | DistEP \<Rightarrow> (s, StaticFile (''frontend/dist'' @ param))
      | AssetsEP \<Rightarrow> (s, StaticFile (''frontend/dist/assets'' @ param)))"

definition find_route :: "deps \<Rightarrow> server_request \<Rightarrow> route option" where
  "find_route dp rq =
     List.find (\<lambda>rt. rt_Method rt = sq_Method rq \<and> dp_match dp (rt_Path rt) (sq_Path rq) \<noteq> None) routes"

definition serve :: "deps \<Rightarrow> server_request \<Rightarrow> svc \<Rightarrow> svc \<times> answer" where
  "serve dp rq s =
     (case InputValidator (c_Query rq) of
        Some r \<Rightarrow> (s, Json r)
      | None \<Rightarrow>
     (case find_route dp rq of
        None \<Rightarrow> (s, spaFallbackHandler (sq_Method rq))
      | Some rt \<Rightarrow>
     (case guard_check dp (rt_Guard rt) rq of
        Some r \<Rightarrow> (s, Json r)
      | None \<Rightarrow> handle_endpoint dp (rt_Endpoint rt) (the (dp_match dp (rt_Path rt) (sq_Path rq))) rq s)))"

section \<open>Reads\<close>

context read_only
begin

lemma reading_frame: "\<exists>w. fst (reading f mk s) = s\<lparr>wrld := w\<rparr> \<and> untouched (wrld s) w"
proof -
  obtain w x where f: "f (wrld s) = (w, x)" by (cases "f (wrld s)")
  then have "untouched (wrld s) w" using frame [of "wrld s"] by simp
  with f show ?thesis by (auto simp: reading_def split: sum.split)
qed

end

lemma untouched_same: "\<exists>w. s = s\<lparr>wrld := w\<rparr> \<and> untouched (wrld s) w"
  by (rule exI [of _ "wrld s"]) simp

lemma read_endpoint_frame:
  "e \<noteq> HandleEP \<Longrightarrow> \<exists>w. fst (handle_endpoint dp e param rq s) = s\<lparr>wrld := w\<rparr> \<and> untouched (wrld s) w"
  using get_runs.reading_frame get_jobs.reading_frame get_repositories.reading_frame get_failures.reading_frame
    get_demand.reading_frame get_metrics.reading_frame untouched_same [of s]
  by (cases e) (simp_all add: handle_endpoint_def split: prod.split)

lemma post_routes: "list_all (\<lambda>rt. rt_Endpoint rt = HandleEP \<longrightarrow> rt_Method rt = ''POST'') routes"
  by (simp add: routes_def)

lemma find_route_Some:
  "find_route dp rq = Some rt \<Longrightarrow> rt \<in> set routes \<and> rt_Method rt = sq_Method rq"
  by (auto simp: find_route_def find_Some_iff)

text \<open>The answers that carry data of the tables, and the endpoints that give them.\<close>

fun is_data :: "answer \<Rightarrow> bool" where
  "is_data (Runs _ _) = True"
| "is_data (Jobs _) = True"
| "is_data (Metrics _) = True"
| "is_data (Failures _ _) = True"
| "is_data (Labels _ _) = True"
| "is_data (Repositories _) = True"
| "is_data _ = False"

lemma data_routes:
  "rt \<in> set routes \<Longrightarrow> is_data (snd (handle_endpoint dp (rt_Endpoint rt) param rq s)) \<Longrightarrow> rt_Guard rt = OriginGuard"
  by (auto simp: routes_def handle_endpoint_def split: prod.splits)

section \<open>A request is a run of the service\<close>

lemma step_tape: "svc_step pf s (s\<lparr>wrld := (wrld s)\<lparr>tape := bs\<rparr>\<rparr>)"
  using step_observe [of pf s, where bs = bs and ms = "[]" and h = "sse (wrld s)"] by simp

lemma step_count: "svc_step pf s (count_delivery t oc s)"
  using step_observe [of pf s, where bs = "tape (wrld s)" and ms = "[WebhookEventsInc t oc]" and h = "sse (wrld s)"]
  by (simp add: count_delivery_def on_world_def WebhookEventsTotal_Inc_def emit_def)

lemma AddEvent_run:
  assumes "\<And>s. (svc_step pf)\<^sup>*\<^sup>* s (fst (wait s))"
  shows "(svc_step pf)\<^sup>*\<^sup>* s (fst (AddEvent wait ev s))"
proof -
  obtain u c where w: "wait s = (u, c)" by (cases "wait s")
  have "(svc_step pf)\<^sup>*\<^sup>* s u" using assms [of s] w by simp
  then show ?thesis
    using step_add [of _ pf ev] by (auto simp: AddEvent_def w intro: rtranclp.rtrancl_into_rtrancl)
qed

lemma Ingest_run:
  assumes "\<And>s. (svc_step pf)\<^sup>*\<^sup>* s (fst (wait s))"
  shows "(svc_step pf)\<^sup>*\<^sup>* s (fst (Ingest hs wait t d body s))"
proof -
  have counted: "(svc_step pf)\<^sup>*\<^sup>* s (count_delivery t oc u)" if "(svc_step pf)\<^sup>*\<^sup>* s u" for oc u
    using that step_count by (rule rtranclp.rtrancl_into_rtrancl)
  have "(svc_step pf)\<^sup>*\<^sup>* s (count_delivery t oc u)" if "AddEvent wait ev s = (u, r)" for ev u r oc
    using AddEvent_run [OF assms, of s ev] that by (intro counted) simp
  then show ?thesis
    by (auto simp: Ingest_def counted split: sum.split option.split prod.split)
qed

text \<open>
  The relay knows the webhook handler only as its \<open>Ingester\<close>.  Whatever ingester keeps the promise
  that a delivery is a run of the service, so is a frame, a connection, and every sequence of redials.
\<close>

locale ingester_contract =
  fixes pf :: process_func and ingest :: ingester
  assumes ingest_run: "(svc_step pf)\<^sup>*\<^sup>* s (fst (ingest t d body s))"
begin

lemma read_loop_run: "(svc_step pf)\<^sup>*\<^sup>* s (fst (read_loop ingest rs acks s))"
proof (induction rs arbitrary: acks s)
  case Nil
  show ?case by simp
next
  case (Cons x rs)
  show ?case
  proof (cases x)
    case (Incoming m)
    show ?thesis
    proof (cases "decode_frame m")
      case (Some fr)
      let ?t = "header_Get ''X-GitHub-Event'' (fr_Header fr)"
      let ?i = "ingest ?t (header_Get ''X-GitHub-Delivery'' (fr_Header fr)) (fr_Body fr) s"
      obtain u r where i: "?i = (u, r)" by (cases ?i)
      define v where "v = count_delivery ?t (''ws_'' @ wsOutcome (Status r)) u"
      have "(svc_step pf)\<^sup>*\<^sup>* s u" using ingest_run [of s] i by (metis fst_conv)
      then have v: "(svc_step pf)\<^sup>*\<^sup>* s v" unfolding v_def using step_count by (rule rtranclp.rtrancl_into_rtrancl)
      have "fst (read_loop ingest (x # rs) acks s) =
          (if acks \<noteq> [] \<and> \<not> hd acks then v else fst (read_loop ingest rs (drop 1 acks) v))"
        by (simp add: Incoming read_loop_Incoming Some i v_def Let_def)
      then show ?thesis using v rtranclp_trans [OF v Cons.IH] by simp
    qed (simp add: Incoming read_loop_Incoming)
  qed simp_all
qed

lemma runOnce_run: "(svc_step pf)\<^sup>*\<^sup>* s (fst (runOnce c ingest net s))"
  using read_loop_run [of s "net_reads net" "net_acks net"]
  by (auto simp: runOnce_def Let_def split: prod.split sum.split option.split)

lemma run_loop_run: "(svc_step pf)\<^sup>*\<^sup>* s (fst (run_loop c ingest cys b s))"
proof (induction cys arbitrary: b s)
  case Nil
  show ?case by simp
next
  case (Cons cy cys)
  obtain u log err where r: "runOnce c ingest (cy_net cy) s = (u, log, err)"
    by (cases "runOnce c ingest (cy_net cy) s")
  have u: "(svc_step pf)\<^sup>*\<^sup>* s u" using runOnce_run [of s c "cy_net cy"] r by simp
  then have "(svc_step pf)\<^sup>*\<^sup>* s (fst (run_loop c ingest cys (next_backoff c b) u))"
    using Cons.IH [of u "next_backoff c b"] by (rule rtranclp_trans)
  then show ?case using u by (auto simp: r split: prod.split)
qed

lemma Run_run: "(svc_step pf)\<^sup>*\<^sup>* s (fst (Run c ingest cys s))"
  unfolding Run_def by (rule run_loop_run)

end

interpretation relay_ingest: ingester_contract server_pf "ingestAdapter NewWebhookHandler (\<lambda>s. (s, CaseSend))"
  by unfold_locales (simp, rule Ingest_run, simp)

section \<open>Properties\<close>

text \<open>The ways into the server are runs of the ordering service: serving a request, whatever is
  requested, and the life of the relay, whatever its connections bring.  So what holds in every
  reachable state of the service holds while the server answers requests and reads frames, and what
  no run undoes neither of them undoes.\<close>

theorem requests_are_service_steps:
  assumes "\<And>s. (svc_step pf)\<^sup>*\<^sup>* s (fst (dp_wait dp s))"
  shows "(svc_step pf)\<^sup>*\<^sup>* s (fst (serve dp rq s)) \<and>
    (svc_step pf)\<^sup>*\<^sup>* s (fst (Run c (ingestAdapter hs (dp_wait dp)) cys s))"
proof -
  have "ingester_contract pf (ingestAdapter hs (dp_wait dp))"
    unfolding ingestAdapter by (intro ingester_contract.intro Ingest_run assms)
  then have r: "(svc_step pf)\<^sup>*\<^sup>* s (fst (Run c (ingestAdapter hs (dp_wait dp)) cys s))"
    by (rule ingester_contract.Run_run)
  have e: "(svc_step pf)\<^sup>*\<^sup>* s (fst (handle_endpoint dp e param rq s))" for e param
  proof (cases "e = HandleEP")
    case True
    then show ?thesis
      using Ingest_run [OF assms, of s NewWebhookHandler "rq_event (sq_Hook rq)" "rq_delivery (sq_Hook rq)" "rq_body (sq_Hook rq)"]
      by (auto simp: handle_endpoint_def Handle_def split: prod.split)
  next
    case False
    then obtain bs where "fst (handle_endpoint dp e param rq s) = s\<lparr>wrld := (wrld s)\<lparr>tape := bs\<rparr>\<rparr>"
      using read_endpoint_frame [OF False, of dp param rq s] by (auto simp: untouched_def)
    then show ?thesis using r_into_rtranclp [of "svc_step pf", OF step_tape] by simp
  qed
  then show ?thesis using r by (simp add: serve_def split: option.split)
qed



end
