(* ===== verification/Services.thy ===== *)
theory Services
  imports Maintenance
begin

text \<open>
  The loops of the background services (\<open>internal/services/cleanup_service.go\<close>,
  \<open>metrics_update_service.go\<close>): \<open>Start\<close> makes a ticker, which panics unless its interval is
  positive, does one round and then one round per tick until the context is cancelled; \<open>Stop\<close>
  cancels and waits for the end of \<open>Start\<close>.  A schedule lists what the \<open>select\<close> of the loop meets.
\<close>

section \<open>Loops\<close>

datatype loop_case = Ticked gotime | CtxDone

datatype 'w service_run = Panicked | Looping 'w | Returned 'w

fun service_loop :: "('w \<Rightarrow> 'w) \<Rightarrow> (gotime \<Rightarrow> 'w \<Rightarrow> 'w) \<Rightarrow> loop_case list \<Rightarrow> 'w \<Rightarrow> 'w service_run" where
  "service_loop round at_time [] w = Looping w"
| "service_loop round at_time (CtxDone # cs) w = Returned w"
| "service_loop round at_time (Ticked t # cs) w = service_loop round at_time cs (round (at_time t w))"

definition set_clock :: "gotime \<Rightarrow> 'a dbw_scheme \<Rightarrow> 'a dbw_scheme" where
  "set_clock t w = w\<lparr>clock := t\<rparr>"

definition CleanupService_Start :: "Vars \<Rightarrow> loop_case list \<Rightarrow> world \<Rightarrow> world service_run" where
  "CleanupService_Start config script w =
     (if GetCleanupInterval config \<le> 0 then Panicked
      else service_loop (\<lambda>w. fst (performCleanup config w)) set_clock script (fst (performCleanup config w)))"

definition MetricsUpdateService_Start :: "int \<Rightarrow> loop_case list \<Rightarrow> world \<Rightarrow> world service_run" where
  "MetricsUpdateService_Start interval script w =
     (if interval \<le> 0 then Panicked
      else service_loop updateMetrics set_clock script (updateMetrics w))"

text \<open>\<open>Stop\<close>: the schedule the loop has met so far, then the cancelled context.\<close>

definition stop_service :: "loop_case list \<Rightarrow> loop_case list" where
  "stop_service script = script @ [CtxDone]"

section \<open>A loop keeps what a round keeps\<close>

fun final_state :: "'w service_run \<Rightarrow> 'w option" where
  "final_state Panicked = None"
| "final_state (Looping w) = Some w"
| "final_state (Returned w) = Some w"

lemma service_loop_not_panicked [simp]: "service_loop round at_time cs w \<noteq> Panicked"
  by (induction round at_time cs w rule: service_loop.induct) simp_all

lemma service_loop_invariant:
  assumes "\<And>w. P w \<Longrightarrow> P (round w)" "\<And>t w. P w \<Longrightarrow> P (at_time t w)" "P w"
    and "final_state (service_loop round at_time cs w) = Some w'"
  shows "P w'"
  using assms(3,4)
proof (induction cs arbitrary: w)
  case Nil
  then show ?case by simp
next
  case (Cons c cs)
  then show ?case by (cases c) (auto dest!: Cons.IH [rotated] intro: assms(1,2))
qed

text \<open>What every round establishes holds at the end.\<close>

lemma service_loop_establishes:
  assumes "\<And>w. I w \<Longrightarrow> Q (round w)" "\<And>w. Q w \<Longrightarrow> I w" "\<And>t w. I w \<Longrightarrow> I (at_time t w)" "Q w"
    and "final_state (service_loop round at_time cs w) = Some w'"
  shows "Q w'"
  using assms(4,5)
proof (induction cs arbitrary: w)
  case Nil
  then show ?case by simp
next
  case (Cons c cs)
  then show ?case by (cases c) (auto dest!: Cons.IH [rotated] intro: assms(1-3))
qed

lemma service_loop_stops:
  "\<exists>w'. service_loop round at_time (stop_service cs) w = Returned w'"
  by (induction round at_time cs w rule: service_loop.induct) (auto simp: stop_service_def)

lemma set_clock_tables [simp]:
  "workflow_jobs (set_clock t w) = workflow_jobs w" "workflow_runs (set_clock t w) = workflow_runs w"
  "webhook_events (set_clock t w) = webhook_events w" "metrics_snapshots (set_clock t w) = metrics_snapshots w"
  "healthy (set_clock t w) = healthy w" "db_wf (set_clock t w) = db_wf w" "clock (set_clock t w) = t"
  by (simp_all add: set_clock_def healthy_def db_wf_def)

text \<open>The number of rounds a schedule makes after the first one.\<close>

fun ticks :: "loop_case list \<Rightarrow> nat" where
  "ticks [] = 0"
| "ticks (CtxDone # cs) = 0"
| "ticks (Ticked t # cs) = Suc (ticks cs)"

lemma updateMetrics_snapshot:
  assumes "healthy w"
  shows "healthy (updateMetrics w)" "length (metrics_snapshots (updateMetrics w)) = Suc (length (metrics_snapshots w))"
  using assms
  by (simp_all add: updateMetrics_def GetCurrentJobCounts_def GetCurrentJobCountsByLabel_def query_rows_healthy
    fold_labels InsertMetricsSnapshot_def UpdateCurrentJobCounts_def ResetJobsByLabel_def Let_def healthy_def engine_def)

lemma performCleanup_healthy:
  assumes "healthy w"
  shows "healthy (fst (performCleanup config w))" "clock (fst (performCleanup config w)) = clock w"
    "list_all (\<lambda>r. \<not> old_job (format_RFC3339 (cutoff_time (GetDataRetentionDuration config) w)) r)
      (workflow_jobs (fst (performCleanup config w)))"
proof -
  obtain w1 n where 1: "CleanupStaleJobs (GetStaleJobThreshold config) w = (w1, n)" "healthy w1" "clock w1 = clock w"
    using CleanupStaleJobs_healthy [OF assms, of "GetStaleJobThreshold config"] assms by (auto simp: healthy_def)
  let ?c = "format_RFC3339 (cutoff_time (GetDataRetentionDuration config) w1)"
  obtain r where 2: "CleanupOldData (GetDataRetentionDuration config) w1 = ((retained ?c w1)\<lparr>tape := []\<rparr>, Inr r)"
    using 1(2) by (rule_tac CleanupOldData_outcome [of "GetDataRetentionDuration config" w1]) auto
  have c: "cutoff_time (GetDataRetentionDuration config) w1 = cutoff_time (GetDataRetentionDuration config) w"
    using 1(3) by (simp add: cutoff_time_def)
  have "performCleanup config w = ((retained ?c w1)\<lparr>tape := []\<rparr>, None)"
    by (simp add: performCleanup_def Let_def 1(1) 2)
  then show "healthy (fst (performCleanup config w))" "clock (fst (performCleanup config w)) = clock w"
    "list_all (\<lambda>r. \<not> old_job (format_RFC3339 (cutoff_time (GetDataRetentionDuration config) w)) r)
      (workflow_jobs (fst (performCleanup config w)))"
    using 1(3) by (auto simp: healthy_def retained_def c list_all_iff)
qed

lemma metrics_loop_snapshots:
  "healthy w \<Longrightarrow> \<exists>w'. final_state (service_loop updateMetrics set_clock cs w) = Some w' \<and>
     length (metrics_snapshots w') = length (metrics_snapshots w) + ticks cs"
proof (induction cs arbitrary: w)
  case Nil
  then show ?case by simp
next
  case (Cons c cs)
  then show ?case
    using Cons.IH [of "updateMetrics (set_clock _ w)"] updateMetrics_snapshot [of "set_clock _ w"]
    by (cases c) auto
qed

section \<open>Properties\<close>


text \<open>On a healthy engine, whenever the cleanup loop is between two rounds or has returned, no job is
  left whose creation text is below the cutoff of the last round.\<close>

theorem cleanup_service_retains:
  assumes "healthy w" "final_state (CleanupService_Start config script w) = Some w'"
  shows "list_all (\<lambda>r. \<not> old_job (format_RFC3339 (cutoff_time (GetDataRetentionDuration config) w')) r) (workflow_jobs w') \<and>
    healthy w'"
proof -
  let ?Q = "\<lambda>v :: world. list_all (\<lambda>r. \<not> old_job (format_RFC3339 (cutoff_time (GetDataRetentionDuration config) v)) r) (workflow_jobs v) \<and> healthy v"
  have round: "?Q (fst (performCleanup config v))" if "healthy v" for v
    using performCleanup_healthy [OF that, of config] by (simp add: cutoff_time_def)
  show ?thesis
  proof (rule service_loop_establishes [where Q = ?Q and I = healthy])
    show "final_state (service_loop (\<lambda>w. fst (performCleanup config w)) set_clock script (fst (performCleanup config w))) = Some w'"
      using assms(2) by (simp add: CleanupService_Start_def split: if_splits)
  qed (use round assms(1) in auto)
qed

text \<open>The metrics service stores one snapshot at its start and one per tick.\<close>

theorem one_snapshot_per_round:
  assumes "healthy w" "0 < interval"
  shows "\<exists>w'. final_state (MetricsUpdateService_Start interval script w) = Some w' \<and>
    length (metrics_snapshots w') = length (metrics_snapshots w) + 1 + ticks script"
  using metrics_loop_snapshots [OF updateMetrics_snapshot(1) [OF assms(1)], of script] assms
  by (simp add: MetricsUpdateService_Start_def updateMetrics_snapshot)

end
