(* ===== verification/Backend.thy ===== *)
theory Backend
  imports Server Services
begin

text \<open>
  The server as one step relation: the ordering service with its callers (\<open>svc_step\<close>) interleaved
  with the writes of the background services, the sweep of stale jobs, the retention cleanup and the
  snapshots.  The loops, requests, deliveries and batches of the other theories are runs of it, and
  what survives every interleaving is stated on it.
\<close>

section \<open>Steps\<close>

inductive backend_step :: "Vars \<Rightarrow> process_func \<Rightarrow> svc \<Rightarrow> svc \<Rightarrow> bool"
  for config :: Vars and pf :: process_func where
  by_service: "svc_step pf s s' \<Longrightarrow> backend_step config pf s s'"
| by_sweep: "backend_step config pf s
    (on_world (\<lambda>w. fst (CleanupStaleJobs (GetStaleJobThreshold config) w)) s)"
| by_cleanup: "backend_step config pf s
    (on_world (\<lambda>w. fst (CleanupOldData (GetDataRetentionDuration config) w)) s)"
| by_snapshot: "backend_step config pf s
    (on_world (\<lambda>w. fst (InsertMetricsSnapshot running queued w)) s)"

inductive_cases backend_stepE: "backend_step config pf s s'"

lemma service_run: "(svc_step pf)\<^sup>*\<^sup>* s s' \<Longrightarrow> (backend_step config pf)\<^sup>*\<^sup>* s s'"
  by (rule rtranclp_mono [THEN predicate2D]) (auto intro: by_service)

lemma on_world_simps [simp]:
  "wrld (on_world f s) = f (wrld s)" "ingestCh (on_world f s) = ingestCh s" "spill (on_world f s) = spill s"
  "accepted (on_world f s) = accepted s" "taken (on_world f s) = taken s" "fates (on_world f s) = fates s"
  "ctxDone (on_world f s) = ctxDone s" "ingest_at (on_world f s) = ingest_at s"
  "flush_at (on_world f s) = flush_at s" "on_world g (on_world f s) = on_world (\<lambda>w. g (f w)) s"
  "on_world (\<lambda>w. w) s = s" "on_world (\<lambda>_. wrld s) s = s"
  by (simp_all add: on_world_def)

lemma on_world_cong: "f (wrld s) = g (wrld s) \<Longrightarrow> on_world f s = on_world g s"
  by (simp add: on_world_def)

section \<open>Rounds and loops of the background services\<close>

text \<open>
  A background service is a round of database work repeated by a loop that lets time pass in
  between.  If the round is a run of the server, the loop is one.
\<close>

locale background_round =
  fixes config :: Vars and pf :: process_func and round :: "world \<Rightarrow> world"
  assumes round_run: "(backend_step config pf)\<^sup>*\<^sup>* s (on_world round s)"
begin

lemma loop_run:
  "final_state (service_loop round set_clock script w) = Some w' \<Longrightarrow> w = wrld s \<Longrightarrow>
   (backend_step config pf)\<^sup>*\<^sup>* s (on_world (\<lambda>_. w') s)"
proof (induction script arbitrary: s w)
  case Nil
  then show ?case by auto
next
  case (Cons c cs)
  show ?case
  proof (cases c)
    case (Ticked t)
    let ?u = "on_world (set_clock t) s"
    have "svc_step pf s ?u" using step_time [of pf s t] by (simp add: on_world_def set_clock_def)
    then have "(backend_step config pf)\<^sup>*\<^sup>* s ?u" by (blast intro: by_service)
    also have "(backend_step config pf)\<^sup>*\<^sup>* ?u (on_world round ?u)" by (rule round_run)
    also have "(backend_step config pf)\<^sup>*\<^sup>* (on_world round ?u) (on_world (\<lambda>_. w') (on_world round ?u))"
      using Cons.prems by (intro Cons.IH) (simp_all add: Ticked)
    finally show ?thesis by simp
  qed (use Cons.prems in auto)
qed

lemma start_run:
  assumes "final_state (service_loop round set_clock script (round (wrld s))) = Some w'"
  shows "(backend_step config pf)\<^sup>*\<^sup>* s (on_world (\<lambda>_. w') s)"
proof -
  have "(backend_step config pf)\<^sup>*\<^sup>* s (on_world round s)" by (rule round_run)
  also have "(backend_step config pf)\<^sup>*\<^sup>* (on_world round s) (on_world (\<lambda>_. w') (on_world round s))"
    using assms by (intro loop_run) simp_all
  finally show ?thesis by simp
qed

end

text \<open>A round of the cleanup service: the sweep, then the retention cleanup.\<close>

interpretation cleanup_round: background_round config pf "\<lambda>w. fst (performCleanup config w)"
  for config pf
proof unfold_locales
  fix s
  let ?a = "\<lambda>w. fst (CleanupStaleJobs (GetStaleJobThreshold config) w)"
  let ?b = "\<lambda>w. fst (CleanupOldData (GetDataRetentionDuration config) w)"
  have "(\<lambda>w :: world. fst (performCleanup config w)) = (\<lambda>w. ?b (?a w))"
    by (auto simp: performCleanup_def Let_def fun_eq_iff split: prod.split sum.split)
  then show "(backend_step config pf)\<^sup>*\<^sup>* s (on_world (\<lambda>w. fst (performCleanup config w)) s)"
    using by_sweep [of config pf s] by_cleanup [of config pf "on_world ?a s"]
    by (auto intro: rtranclp.rtrancl_into_rtrancl)
qed

text \<open>
  A round of the metrics service: what it reads and counts is an observation, then the snapshot.
\<close>

lemma observed_order: "w\<lparr>tape := bs, mlog := ms\<rparr> = w\<lparr>mlog := ms, tape := bs\<rparr>" for w :: world
  by simp

lemma updateMetrics_form:
  obtains (failed) bs where "updateMetrics w = w\<lparr>tape := bs\<rparr>"
  | (stored) bs ms running queued where
      "updateMetrics w = fst (InsertMetricsSnapshot running queued (w\<lparr>mlog := mlog w @ ms, tape := bs\<rparr>))"
proof -
  obtain b bs where e: "engine w = (b, w\<lparr>tape := bs\<rparr>)" by (rule engine_cases)
  let ?c = "\<lambda>running queued. [CurrentJobsSet ''in_progress'' running, CurrentJobsSet ''queued'' queued]"
  show thesis
  proof (cases b)
    case False
    then show thesis by (intro failed [of bs]) (simp add: updateMetrics_def GetCurrentJobCounts_def e)
  next
    case True
    then obtain running queued where "GetCurrentJobCounts w = (w\<lparr>tape := bs\<rparr>, Inr (running, queued))"
      by (simp add: GetCurrentJobCounts_def e)
    moreover obtain v r where q: "GetCurrentJobCountsByLabel (UpdateCurrentJobCounts running queued (w\<lparr>tape := bs\<rparr>)) = (v, r)"
      by fastforce
    ultimately have u: "updateMetrics w = fst (InsertMetricsSnapshot running queued
        (case r of Inl err \<Rightarrow> v
         | Inr lcs \<Rightarrow> fold (\<lambda>lc. UpdateJobsByLabel (lc_Label lc) (lc_Running lc) (lc_Queued lc)) lcs (ResetJobsByLabel v)))"
      by (simp add: updateMetrics_def Let_def)
    obtain bs' where v: "v = (UpdateCurrentJobCounts running queued w)\<lparr>tape := bs'\<rparr>"
      using query_rows_frame [of "db_error ''failed to get job counts by label''" "\<lambda>w. label_counts (workflow_jobs w)"
          "UpdateCurrentJobCounts running queued (w\<lparr>tape := bs\<rparr>)"] q
      by (auto simp: GetCurrentJobCountsByLabel_def UpdateCurrentJobCounts_def emit_def)
    show thesis
    proof (cases r)
      case (Inl err)
      then show thesis using u v
        by (intro stored [where running = running and queued = queued and bs = bs' and ms = "?c running queued"]) (simp add: UpdateCurrentJobCounts_def emit_def)
    next
      case (Inr lcs)
      then show thesis using u v
        by (intro stored [where running = running and queued = queued and bs = bs' and ms = "?c running queued @ JobsByLabelReset # label_metrics lcs"])
           (simp add: fold_labels observed_order UpdateCurrentJobCounts_def ResetJobsByLabel_def emit_def)
    qed
  qed
qed

interpretation metrics_round: background_round config pf updateMetrics for config pf
proof unfold_locales
  fix s
  show "(backend_step config pf)\<^sup>*\<^sup>* s (on_world updateMetrics s)"
  proof (rule updateMetrics_form [of "wrld s"])
    fix bs assume "updateMetrics (wrld s) = (wrld s)\<lparr>tape := bs\<rparr>"
    then show ?thesis using step_tape [of pf s bs] by (auto simp: on_world_def intro: by_service)
  next
    fix bs ms running queued
    let ?u = "on_world (\<lambda>w. w\<lparr>mlog := mlog w @ ms, tape := bs\<rparr>) s"
    assume "updateMetrics (wrld s) =
      fst (InsertMetricsSnapshot running queued ((wrld s)\<lparr>mlog := mlog (wrld s) @ ms, tape := bs\<rparr>))"
    then have "on_world updateMetrics s = on_world (\<lambda>w. fst (InsertMetricsSnapshot running queued w)) ?u"
      by (simp add: on_world_def)
    moreover have "svc_step pf s ?u"
      using step_observe [of pf s, where bs = bs and ms = ms and h = "sse (wrld s)"]
      by (simp add: on_world_def observed_order)
    ultimately show ?thesis
      using by_snapshot [of config pf ?u running queued] by_service [of pf s ?u config]
      by (auto intro: converse_rtranclp_into_rtranclp)
  qed
qed

section \<open>The flush worker between two ticks\<close>

lemma batch_run:
  "flush_at s = FlushBatch evs \<Longrightarrow>
   (svc_step pf)\<^sup>*\<^sup>* s (s\<lparr>wrld := processEvents pf evs (wrld s), flush_at := FlushIdle\<rparr>)"
proof (induction evs arbitrary: s)
  case Nil
  then have "svc_step pf s (s\<lparr>flush_at := FlushIdle\<rparr>)" by (rule step_batch_end)
  then show ?case by simp
next
  case (Cons ev evs)
  define t where "t = s\<lparr>wrld := fst (pf ev (wrld s)), flush_at := FlushBatch evs\<rparr>"
  have "svc_step pf s t" unfolding t_def using Cons.prems by (rule step_replay)
  moreover have "(svc_step pf)\<^sup>*\<^sup>* t (t\<lparr>wrld := processEvents pf evs (wrld t), flush_at := FlushIdle\<rparr>)"
    by (rule Cons.IH) (simp add: t_def)
  ultimately show ?case by (simp add: t_def converse_rtranclp_into_rtranclp)
qed

lemma flush_ready_run:
  assumes "flush_at s = FlushIdle" "\<not> ctxDone s"
  shows "(svc_step pf)\<^sup>*\<^sup>* s (s\<lparr>wrld := fst (flush_ready pf cancelled late n m (wrld s))\<rparr>)"
  using assms
proof (induction n arbitrary: m s)
  case 0
  then show ?case by simp
next
  case (Suc n)
  obtain w r where g: "GetPendingEventsByAge maxAge batchSize (wrld s) = (w, r)"
    by (cases "GetPendingEventsByAge maxAge batchSize (wrld s)")
  show ?case
  proof (cases r)
    case (Inl e)
    with g Suc.prems have "svc_step pf s (s\<lparr>wrld := w\<rparr>)" by (intro step_fetch_error) auto
    with g Inl show ?thesis by (auto simp: Let_def)
  next
    case (Inr evs)
    define t where "t = s\<lparr>wrld := w, flush_at := FlushBatch evs\<rparr>"
    define u where "u = s\<lparr>wrld := processEvents pf evs w\<rparr>"
    have "svc_step pf s t" unfolding t_def using g Inr Suc.prems by (intro step_fetch) auto
    moreover have "(svc_step pf)\<^sup>*\<^sup>* t u"
      using batch_run [of t evs pf] Suc.prems by (cases s) (simp add: t_def u_def)
    ultimately have su: "(svc_step pf)\<^sup>*\<^sup>* s u" by (rule converse_rtranclp_into_rtranclp)
    have un: "(svc_step pf)\<^sup>*\<^sup>* u (s\<lparr>wrld := fst (flush_ready pf cancelled late n k (wrld u))\<rparr>)" for k
      using Suc.IH [of u k] Suc.prems by (simp add: u_def)
    show ?thesis
      using su rtranclp_trans [OF su un [of "m + length evs"]]
      by (cases "evs = []") (auto simp: g Inr Let_def u_def)
  qed
qed

text \<open>\<open>flushReadyEvents\<close>, with any readings of its context and its clock, is a run of the flush worker.\<close>

lemma flushReadyEvents_run:
  assumes "flush_at s = FlushIdle" "\<not> ctxDone s"
  shows "(svc_step pf)\<^sup>*\<^sup>* s (on_world (flushReadyEvents pf cancelled late) s)"
proof -
  obtain w n where f: "flush_ready pf cancelled late maxDrainIterations 0 (wrld s) = (w, n)"
    by (cases "flush_ready pf cancelled late maxDrainIterations 0 (wrld s)")
  have "(svc_step pf)\<^sup>*\<^sup>* s (s\<lparr>wrld := w\<rparr>)"
    using flush_ready_run [OF assms, of pf cancelled late maxDrainIterations 0] f by simp
  moreover have "svc_step pf (s\<lparr>wrld := w\<rparr>) (on_world (flushReadyEvents pf cancelled late) s)"
    using step_observe [of pf "s\<lparr>wrld := w\<rparr>", where bs = "tape w" and h = "sse w"
        and ms = "FlushBatchDurationObserve # (if 0 < n then [FlushBatchEventsObserve n] else [])"]
    by (simp add: on_world_def flushReadyEvents_def f emit_def)
  ultimately show ?thesis by (rule rtranclp.rtrancl_into_rtrancl)
qed

section \<open>Invariants of the whole server\<close>

lemma svc_inv_on_world [simp]: "svc_inv (on_world f s) = svc_inv s"
  by (simp add: svc_inv_def)

lemma backend_accounts: "(backend_step config pf)\<^sup>*\<^sup>* s s' \<Longrightarrow> svc_inv s \<Longrightarrow> svc_inv s'"
  by (induction rule: rtranclp_induct) (auto elim!: backend_stepE intro: svc_inv_step)

context process_contract
begin

lemma wf_flush: "db_wf (wrld s) \<Longrightarrow> db_wf (wrld (flushSpill c s))"
  by (rule flushSpill_outcome [of s c]) (auto simp: db_wf_def events_wf_fold_put)

lemma wf_process: "db_wf (wrld s) \<Longrightarrow> db_wf (wrld (process pf ev s))"
  using pf_wf [of "wrld s" ev] by (auto simp: process_def WebhookEventsTotal_Inc_def split: prod.splits option.splits)

lemma wf_take: "db_wf (wrld s) \<Longrightarrow> db_wf (wrld (ingest_take pf c ev rest s))"
  using wf_process [of "s\<lparr>ingestCh := rest, taken := taken s @ [ev]\<rparr>" ev] wf_flush
  by (auto simp: ingest_take_def Let_def)

lemma wf_service_step: "svc_step pf s s' \<Longrightarrow> db_wf (wrld s) \<Longrightarrow> db_wf (wrld s')"
proof (induction rule: svc_step.induct)
  case (step_fetch s w evs)
  from pending_query_frame(1) [OF step_fetch(3)] step_fetch(4) show ?case by auto
next
  case (step_fetch_error s w e)
  from pending_query_frame(1) [OF step_fetch_error(2)] step_fetch_error(3) show ?case by auto
next
  case (step_final s w evs)
  from pending_query_frame(2) [OF step_final(4)] step_final(5) show ?case by auto
next
  case (step_final_error s w e)
  from pending_query_frame(2) [OF step_final_error(4)] step_final_error(5) show ?case by auto
qed (auto simp: send_event_def intro: wf_take wf_flush pf_wf)

lemma wf_backend_step: "backend_step config pf s s' \<Longrightarrow> db_wf (wrld s) \<Longrightarrow> db_wf (wrld s')"
  by (auto elim!: backend_stepE intro: wf_service_step db_wf_CleanupStaleJobs db_wf_CleanupOldData db_wf_InsertMetricsSnapshot)

lemma wf_backend_run: "(backend_step config pf)\<^sup>*\<^sup>* s s' \<Longrightarrow> db_wf (wrld s) \<Longrightarrow> db_wf (wrld s')"
  by (induction rule: rtranclp_induct) (auto intro: wf_backend_step)

end

section \<open>What becomes of a row\<close>

text \<open>The later row of a job: a terminal row is the same row, otherwise its status has not gone back.\<close>

definition job_follows :: "job_row \<Rightarrow> job_row \<Rightarrow> bool" where
  "job_follows r r' \<longleftrightarrow>
     (IsTerminalJobStatus (jr_status r) \<longrightarrow> r' = r) \<and>
     (\<forall>p. JobStatusPriority (jr_status r) = Some p \<longrightarrow>
        (\<exists>p'. JobStatusPriority (jr_status r') = Some p' \<and> p \<le> p'))"

lemma job_follows_refl [simp]: "job_follows r r"
  by (simp add: job_follows_def)

lemma job_follows_trans: "job_follows r r1 \<Longrightarrow> job_follows r1 r2 \<Longrightarrow> job_follows r r2"
  by (fastforce simp: job_follows_def)

lemma mark_stale_follows: "stale_row c r \<Longrightarrow> job_follows r (mark_stale now r)"
  by (auto simp: job_follows_def stale_row_def IsTerminalJobStatus_def JobStatusPriority_def status_defs)

text \<open>One step leaves a job's row, replaces it by a later one, or deletes it as too old.\<close>

lemma job_step:
  assumes "backend_step config server_pf s s'" "db_wf (wrld s)"
    and "find_row jr_id k (workflow_jobs (wrld s)) = Some r"
    and "find_row jr_id k (workflow_jobs (wrld s')) = Some r'"
  shows "job_follows r r'"
  using assms(1)
proof (rule backend_stepE)
  assume "svc_step server_pf s s'"
  then obtain rs where "workflow_jobs (wrld s') = fold put_job rs (workflow_jobs (wrld s))"
    using server_run_puts [OF r_into_rtranclp] by blast
  then show ?thesis
    using assms(2-4) job_table.gput_terminal_final [of "workflow_jobs (wrld s)" k r rs]
      job_table.gput_mono [of "workflow_jobs (wrld s)" k r _ rs]
    by (fastforce simp: job_follows_def db_wf_def)
next
  assume "s' = on_world (\<lambda>w. fst (CleanupStaleJobs (GetStaleJobThreshold config) w)) s"
  then show ?thesis
    using assms(3,4) CleanupStaleJobs_outcome [of "GetStaleJobThreshold config" "wrld s"]
    by (rule_tac CleanupStaleJobs_outcome [of "GetStaleJobThreshold config" "wrld s"])
       (auto simp: find_row_update mark_stale_follows split: if_splits)
next
  assume "s' = on_world (\<lambda>w. fst (CleanupOldData (GetDataRetentionDuration config) w)) s"
  then show ?thesis
    using assms(2-4)
    by (rule_tac CleanupOldData_outcome [of "GetDataRetentionDuration config" "wrld s"])
       (auto simp: retained_def db_wf_def find_row_delete split: if_splits)
next
  fix running queued
  assume "s' = on_world (\<lambda>w. fst (InsertMetricsSnapshot running queued w)) s"
  then show ?thesis using assms(3,4)
    by (rule_tac engine_cases [of "wrld s"]) (auto simp: InsertMetricsSnapshot_def split: if_splits)
qed

text \<open>
  The later table of events: an event without a processing time keeps its row, which gets a processing
  time only together with the status \<open>processed\<close>.
\<close>

definition timely :: "event_row \<Rightarrow> bool" where
  "timely r \<longleftrightarrow> er_processed_at r = None \<or> er_status r = ''processed''"

definition row_timely :: "string \<Rightarrow> event_row list \<Rightarrow> bool" where
  "row_timely d rows \<longleftrightarrow> (\<exists>r. find_row er_delivery_id d rows = Some r \<and> timely r)"

definition row_open :: "string \<Rightarrow> event_row list \<Rightarrow> bool" where
  "row_open d rows \<longleftrightarrow> (\<exists>r. find_row er_delivery_id d rows = Some r \<and> er_processed_at r = None)"

lemma open_timely: "row_open d rows \<Longrightarrow> row_timely d rows"
  by (auto simp: row_open_def row_timely_def timely_def)

lemma open_marked:
  assumes "row_open d rows"
  shows "row_timely d (update_rows P (mark_processed now) rows)" "row_timely d (update_rows P mark_failed rows)"
proof -
  obtain r where "find_row er_delivery_id d rows = Some r" "er_processed_at r = None"
    using assms by (auto simp: row_open_def)
  then show "row_timely d (update_rows P (mark_processed now) rows)" "row_timely d (update_rows P mark_failed rows)"
    by (auto simp: row_timely_def find_row_update timely_def mark_processed_def mark_failed_def)
qed

lemma timely_put: "row_timely d rows \<Longrightarrow> row_timely d (fold put_event evs rows)"
proof (induction evs arbitrary: rows)
  case Nil
  then show ?case by simp
next
  case (Cons ev evs)
  have "timely (event_row_of ev)" by (cases "ProcessedAt ev") (simp_all add: timely_def event_row_of_def)
  then have "row_timely d (put_event ev rows)"
    using Cons.prems by (auto simp: row_timely_def put_event_def find_row_upsert)
  then show ?case using Cons.IH by simp
qed

lemma timely_flush:
  "row_timely d (webhook_events (wrld s)) \<Longrightarrow> row_timely d (webhook_events (wrld (flushSpill c s)))"
  by (rule flushSpill_outcome [of s c]) (auto simp: timely_put)

lemma open_pf: "row_open d (webhook_events w) \<Longrightarrow> row_timely d (webhook_events (fst (server_pf ev w)))"
proof (cases "NewWebhookHandler (EventType ev)")
  case None
  then show "row_open d (webhook_events w) \<Longrightarrow> ?thesis" by (simp add: processOrderedEvent_def open_timely)
next
  case (Some h)
  obtain w1 e where h: "HandleEvent h (RawPayload ev) (Sequence ev) w = (w1, e)" "webhook_events w1 = webhook_events w"
    using event_handler_contract.keeps_events [OF server.registered [OF Some], of "RawPayload ev" "Sequence ev" w]
    by (cases "HandleEvent h (RawPayload ev) (Sequence ev) w") auto
  then show "row_open d (webhook_events w) \<Longrightarrow> ?thesis"
    using MarkEvent_outcome [of "DeliveryID (Sequence ev)" w1] open_marked [of d "webhook_events w1"]
    by (cases e) (auto simp: processOrderedEvent_def Some open_timely)
qed

lemma open_take:
  assumes "row_open d (webhook_events (wrld s))"
  shows "row_timely d (webhook_events (wrld (ingest_take server_pf c ev rest s)))"
proof -
  have "row_timely d (webhook_events (wrld (process server_pf ev (s\<lparr>ingestCh := rest, taken := taken s @ [ev]\<rparr>))))"
    using open_pf [OF assms, of ev]
    by (auto simp: process_def WebhookEventsTotal_Inc_def split: prod.split option.split)
  then show ?thesis by (simp add: ingest_take_def Let_def timely_flush)
qed

lemma open_service_step:
  "svc_step server_pf s s' \<Longrightarrow> row_open d (webhook_events (wrld s)) \<Longrightarrow> row_timely d (webhook_events (wrld s'))"
proof (induction rule: svc_step.induct)
  case (step_fetch s w evs)
  from pending_query_frame(1) [OF step_fetch(3)] step_fetch(4) show ?case by (auto simp: open_timely)
next
  case (step_fetch_error s w e)
  from pending_query_frame(1) [OF step_fetch_error(2)] step_fetch_error(3) show ?case by (auto simp: open_timely)
next
  case (step_final s w evs)
  from pending_query_frame(2) [OF step_final(4)] step_final(5) show ?case by (auto simp: open_timely)
next
  case (step_final_error s w e)
  from pending_query_frame(2) [OF step_final_error(4)] step_final_error(5) show ?case by (auto simp: open_timely)
qed (auto simp: send_event_def open_timely intro: open_take timely_flush open_pf)

lemma open_backend_step:
  assumes "backend_step config server_pf s s'" "db_wf (wrld s)" "row_open d (webhook_events (wrld s))"
  shows "row_timely d (webhook_events (wrld s'))"
  using assms(1)
proof (rule backend_stepE)
  assume "svc_step server_pf s s'"
  then show ?thesis using assms(3) by (rule open_service_step)
next
  assume "s' = on_world (\<lambda>w. fst (CleanupStaleJobs (GetStaleJobThreshold config) w)) s"
  then show ?thesis using open_timely [OF assms(3)]
    by (rule_tac CleanupStaleJobs_outcome [of "GetStaleJobThreshold config" "wrld s"]) auto
next
  assume "s' = on_world (\<lambda>w. fst (CleanupOldData (GetDataRetentionDuration config) w)) s"
  then show ?thesis using assms(2,3)
    by (rule_tac CleanupOldData_outcome [of "GetDataRetentionDuration config" "wrld s"])
       (auto simp: retained_def db_wf_def events_wf_def find_row_delete row_open_def row_timely_def timely_def
          old_event_def below_def)
next
  fix running queued
  assume "s' = on_world (\<lambda>w. fst (InsertMetricsSnapshot running queued w)) s"
  then show ?thesis using open_timely [OF assms(3)]
    by (rule_tac engine_cases [of "wrld s"]) (auto simp: InsertMetricsSnapshot_def split: if_splits)
qed

text \<open>The ingest worker on a healthy engine: an event that parses has its effect.\<close>

lemma ingest_take_effect:
  assumes "healthy (wrld s)" "parses ev"
  shows "typed (wrld (ingest_take server_pf c ev rest s)) = event_effect ev (clock (wrld s)) (typed (wrld s))"
proof -
  let ?s = "s\<lparr>ingestCh := rest, taken := taken s @ [ev]\<rparr>"
  have "typed (wrld (process server_pf ev ?s)) = event_effect ev (clock (wrld s)) (typed (wrld s))"
    using processOrderedEvent_healthy(1) [OF assms]
    by (auto simp: process_def WebhookEventsTotal_Inc_def typed_def split: prod.split option.split)
  then show ?thesis by (simp add: ingest_take_def Let_def flushSpill_typed)
qed

section \<open>Properties\<close>


text \<open>C4: over the life of the server, with sweeps and cleanups in between, a job's status goes back only
  after retention has deleted its row: as long as the row is never missing, a terminal row stays the
  very same row, and the priority of a status never goes down.\<close>

theorem job_regresses_only_after_deletion:
  assumes "(\<lambda>a b. backend_step config server_pf a b \<and> find_row jr_id k (workflow_jobs (wrld b)) \<noteq> None)\<^sup>*\<^sup>* s s'"
    and "db_wf (wrld s)" "find_row jr_id k (workflow_jobs (wrld s)) = Some r"
    and "JobStatusPriority (jr_status r) = Some p"
  shows "\<exists>r' p'. find_row jr_id k (workflow_jobs (wrld s')) = Some r' \<and>
    (IsTerminalJobStatus (jr_status r) \<longrightarrow> r' = r) \<and> JobStatusPriority (jr_status r') = Some p' \<and> p \<le> p'"
proof -
  have "db_wf (wrld s') \<and> (\<exists>r'. find_row jr_id k (workflow_jobs (wrld s')) = Some r' \<and> job_follows r r')"
    using assms(1)
  proof (induction rule: rtranclp_induct)
    case base
    then show ?case using assms(2,3) by auto
  next
    case (step t u)
    then show ?case
      using server.replayed.wf_backend_step [of config t u] job_step [of config t u k]
      by (auto intro: job_follows_trans)
  qed
  then show ?thesis using assms(4) by (auto simp: job_follows_def)
qed

text \<open>C11: a stored event that is pending is never lost: through every run of the server, cleanups included,
  its row stays, pending or failed, until it has been processed.\<close>

theorem unprocessed_event_is_kept:
  assumes "(\<lambda>a b. backend_step config server_pf a b \<and>
        (\<forall>r. find_row er_delivery_id d (webhook_events (wrld b)) = Some r \<longrightarrow> er_status r \<noteq> ''processed''))\<^sup>*\<^sup>* s s'"
    and "db_wf (wrld s)" "find_row er_delivery_id d (webhook_events (wrld s)) = Some r" "er_status r = ''pending''"
  shows "\<exists>r'. find_row er_delivery_id d (webhook_events (wrld s')) = Some r' \<and>
    er_status r' \<in> {''pending'', ''failed''} \<and> er_processed_at r' = None"
proof -
  have "db_wf (wrld s') \<and> row_open d (webhook_events (wrld s')) \<and>
    (\<forall>r. find_row er_delivery_id d (webhook_events (wrld s')) = Some r \<longrightarrow> er_status r \<noteq> ''processed'')"
    using assms(1)
  proof (induction rule: rtranclp_induct)
    case base
    show ?case using assms(2-4) find_row_Some [OF assms(3)]
      by (auto simp: row_open_def db_wf_def events_wf_def event_row_ok_def)
  next
    case (step t u)
    then show ?case
      using server.replayed.wf_backend_step [of config t u] open_backend_step [of config t u d]
      by (auto simp: row_open_def row_timely_def timely_def)
  qed
  then show ?thesis
    using find_row_Some [of er_delivery_id d "webhook_events (wrld s')"]
    by (fastforce simp: row_open_def db_wf_def events_wf_def event_row_ok_def)
qed


end
