(* ===== verification/Background.thy ===== *)
theory Background
  imports Services
begin

text \<open>
  The goroutine of a background service (\<open>internal/services/cleanup_service.go\<close>,
  \<open>metrics_update_service.go\<close>): the struct with its context and its channel \<open>done\<close>, \<open>Start\<close> one
  operation at a time, and a caller of \<open>Stop\<close> beside it.  The loops of \<open>Services\<close> are what \<open>Start\<close>
  does along a schedule; here the schedule is what the interleaving makes of it.
\<close>

section \<open>States and steps\<close>

text \<open>
  \<open>Start\<close> is called once, on a goroutine of its own.  A panic of \<open>NewTicker\<close> ends the process.
\<close>

datatype start_pc = NotStarted | InRound | AtSelect | Ended | Crashed

datatype stop_pc = NotCalled | AwaitDone | StopReturned

record 'w background =
  bg_db :: 'w
  bg_interval :: int
  bg_round :: "'w \<Rightarrow> 'w"
  bg_cancelled :: bool        \<comment> \<open>\<open>ctx\<close>\<close>
  bg_done :: bool             \<comment> \<open>\<open>done\<close> is closed\<close>
  bg_start :: start_pc
  bg_stop :: stop_pc

text \<open>The argument \<open>parent\<close> says whether the context given to the constructor is cancelled already.\<close>

definition NewCleanupService :: "Vars \<Rightarrow> bool \<Rightarrow> world \<Rightarrow> world background" where
  "NewCleanupService config parent w =
     \<lparr>bg_db = w, bg_interval = GetCleanupInterval config, bg_round = (\<lambda>w. fst (performCleanup config w)),
      bg_cancelled = parent, bg_done = False, bg_start = NotStarted, bg_stop = NotCalled\<rparr>"

definition NewMetricsUpdateService :: "int \<Rightarrow> bool \<Rightarrow> world \<Rightarrow> world background" where
  "NewMetricsUpdateService interval parent w =
     \<lparr>bg_db = w, bg_interval = interval, bg_round = updateMetrics,
      bg_cancelled = parent, bg_done = False, bg_start = NotStarted, bg_stop = NotCalled\<rparr>"

text \<open>
  When the context is cancelled and a tick is there, \<open>select\<close> takes either case.  The end of the loop
  closes \<open>done\<close>.
\<close>

inductive bg_step :: "'a dbw_scheme background \<Rightarrow> 'a dbw_scheme background \<Rightarrow> bool" where
  bg_new_ticker: "bg_start b = NotStarted \<Longrightarrow> 0 < bg_interval b \<Longrightarrow> bg_step b (b\<lparr>bg_start := InRound\<rparr>)"
| bg_ticker_panics: "bg_start b = NotStarted \<Longrightarrow> bg_interval b \<le> 0 \<Longrightarrow> bg_step b (b\<lparr>bg_start := Crashed\<rparr>)"
| bg_round_done: "bg_start b = InRound \<Longrightarrow> bg_step b (b\<lparr>bg_db := bg_round b (bg_db b), bg_start := AtSelect\<rparr>)"
| bg_ticked: "bg_start b = AtSelect \<Longrightarrow> bg_step b (b\<lparr>bg_db := set_clock t (bg_db b), bg_start := InRound\<rparr>)"
| bg_ctx_done: "bg_start b = AtSelect \<Longrightarrow> bg_cancelled b \<Longrightarrow> bg_step b (b\<lparr>bg_start := Ended, bg_done := True\<rparr>)"
| bg_parent_cancelled: "bg_start b \<noteq> Crashed \<Longrightarrow> bg_step b (b\<lparr>bg_cancelled := True\<rparr>)"
| bg_stop_called: "bg_start b \<noteq> Crashed \<Longrightarrow> bg_stop b = NotCalled \<Longrightarrow>
    bg_step b (b\<lparr>bg_cancelled := True, bg_stop := AwaitDone\<rparr>)"
| bg_stop_returns: "bg_start b \<noteq> Crashed \<Longrightarrow> bg_stop b = AwaitDone \<Longrightarrow> bg_done b \<Longrightarrow>
    bg_step b (b\<lparr>bg_stop := StopReturned\<rparr>)"

inductive_cases bg_stepE: "bg_step b b'"

inductive_simps bg_step_from: "bg_step b b'"

abbreviation bg_run :: "'a dbw_scheme background \<Rightarrow> 'a dbw_scheme background \<Rightarrow> bool" where
  "bg_run \<equiv> bg_step\<^sup>*\<^sup>*"

section \<open>A run follows a schedule\<close>

text \<open>What \<open>Start\<close> comes to along a schedule.\<close>

definition start_along :: "'a dbw_scheme background \<Rightarrow> loop_case list \<Rightarrow> 'a dbw_scheme service_run" where
  "start_along b script =
     (if bg_interval b \<le> 0 then Panicked
      else service_loop (bg_round b) set_clock script (bg_round b (bg_db b)))"

lemma start_along_services:
  "start_along (NewCleanupService config parent w) script = CleanupService_Start config script w"
  "start_along (NewMetricsUpdateService interval parent w) script = MetricsUpdateService_Start interval script w"
  by (simp_all add: start_along_def NewCleanupService_def NewMetricsUpdateService_def
    CleanupService_Start_def MetricsUpdateService_Start_def)

lemma service_loop_append:
  "service_loop round at_time (cs @ ds) w =
     (case service_loop round at_time cs w of Looping v \<Rightarrow> service_loop round at_time ds v | r \<Rightarrow> r)"
  by (induction round at_time cs w rule: service_loop.induct) simp_all

lemma start_along_append:
  "start_along b cs = Looping v \<Longrightarrow> start_along b (cs @ ds) = service_loop (bg_round b) set_clock ds v"
  by (auto simp: start_along_def service_loop_append split: if_splits)

definition fresh :: "'a dbw_scheme background \<Rightarrow> bool" where
  "fresh b \<longleftrightarrow> bg_start b = NotStarted \<and> bg_stop b = NotCalled \<and> \<not> bg_done b"

lemma fresh_services [simp]:
  "fresh (NewCleanupService config parent w)" "fresh (NewMetricsUpdateService interval parent w)"
  by (simp_all add: fresh_def NewCleanupService_def NewMetricsUpdateService_def)

text \<open>
  The state of the goroutine is the one its schedule leads to; \<open>done\<close> is closed at its end only, and
  the loop ends and \<open>Stop\<close> waits under a cancelled context only.
\<close>

definition follows :: "'a dbw_scheme background \<Rightarrow> 'a dbw_scheme background \<Rightarrow> bool" where
  "follows b0 b \<longleftrightarrow>
     bg_round b = bg_round b0 \<and> bg_interval b = bg_interval b0 \<and>
     (case bg_start b of
        NotStarted \<Rightarrow> bg_db b = bg_db b0
      | InRound \<Rightarrow> (\<exists>script. start_along b0 script = Looping (bg_round b0 (bg_db b)))
      | AtSelect \<Rightarrow> (\<exists>script. start_along b0 script = Looping (bg_db b))
      | Ended \<Rightarrow> (\<exists>script. start_along b0 script = Returned (bg_db b))
      | Crashed \<Rightarrow> start_along b0 [] = Panicked) \<and>
     (bg_done b \<longleftrightarrow> bg_start b = Ended) \<and> (bg_start b = Ended \<longrightarrow> bg_cancelled b) \<and>
     (bg_stop b \<noteq> NotCalled \<longrightarrow> bg_cancelled b) \<and> (bg_stop b = StopReturned \<longrightarrow> bg_done b)"

lemma follows_fresh: "fresh b \<Longrightarrow> follows b b"
  by (simp add: fresh_def follows_def)

lemma follows_start: "follows b0 b \<Longrightarrow> bg_start b = NotStarted \<Longrightarrow> 0 < bg_interval b \<Longrightarrow>
  \<exists>script. start_along b0 script = Looping (bg_round b0 (bg_db b))"
  by (intro exI [of _ "[]"]) (simp add: follows_def start_along_def)

lemma follows_tick: "start_along b0 script = Looping v \<Longrightarrow>
  \<exists>script. start_along b0 script = Looping (bg_round b0 (set_clock t v))"
  by (intro exI [of _ "script @ [Ticked t]"]) (simp add: start_along_append)

lemma follows_return: "start_along b0 script = Looping v \<Longrightarrow> \<exists>script. start_along b0 script = Returned v"
  by (intro exI [of _ "script @ [CtxDone]"]) (simp add: start_along_append)

lemma follows_step: "bg_step b b' \<Longrightarrow> follows b0 b \<Longrightarrow> follows b0 b'"
proof (induction rule: bg_step.induct)
  case (bg_new_ticker b)
  then show ?case using follows_start [of b0 b] by (auto simp: follows_def)
next
  case (bg_ticker_panics b)
  then show ?case by (auto simp: follows_def start_along_def)
next
  case (bg_ticked b t)
  then show ?case by (auto simp: follows_def intro: follows_tick)
next
  case (bg_ctx_done b)
  then show ?case by (auto simp: follows_def intro: follows_return)
qed (auto simp: follows_def split: start_pc.splits)

lemma follows_run: "bg_run b0 b \<Longrightarrow> fresh b0 \<Longrightarrow> follows b0 b"
  by (induction rule: rtranclp_induct) (auto intro: follows_fresh follows_step)

section \<open>Stop\<close>

lemma follows_stopped:
  assumes "follows b0 b" "bg_stop b = StopReturned"
  shows "bg_start b = Ended" "bg_cancelled b" "\<exists>script. start_along b0 script = Returned (bg_db b)"
proof -
  show e: "bg_start b = Ended" using assms by (auto simp: follows_def)
  then show "bg_cancelled b" "\<exists>script. start_along b0 script = Returned (bg_db b)"
    using assms by (simp_all add: follows_def)
qed

text \<open>Once \<open>Stop\<close> has returned nothing of the service moves any more.\<close>

lemma stopped_is_final:
  assumes "follows b0 b" "bg_stop b = StopReturned" "bg_run b b'"
  shows "b' = b"
  using assms(3)
proof (induction rule: rtranclp_induct)
  case base
  then show ?case by simp
next
  case (step y z)
  moreover note follows_stopped [OF assms(1,2)]
  ultimately show ?case using assms(2) by (auto simp: bg_step_from)
qed

text \<open>
  A call of \<open>Stop\<close> can always return: at most the round in progress, or the first one, has to end.
  It does not return when the service is never started, since nobody else closes \<open>done\<close>.
\<close>

lemma stop_can_return:
  assumes "follows b0 b" "bg_stop b = AwaitDone" "0 < bg_interval b"
  shows "\<exists>b'. bg_run b b' \<and> bg_stop b' = StopReturned"
proof -
  have ended: "\<exists>b'. bg_run c b' \<and> bg_stop b' = StopReturned"
    if "bg_start c = Ended" "bg_stop c = AwaitDone" "bg_done c" for c :: "'a dbw_scheme background"
    using that bg_stop_returns [of c] by (intro exI [of _ "c\<lparr>bg_stop := StopReturned\<rparr>"]) (simp add: r_into_rtranclp)
  have select: "\<exists>b'. bg_run c b' \<and> bg_stop b' = StopReturned"
    if "bg_start c = AtSelect" "bg_stop c = AwaitDone" "bg_cancelled c" for c :: "'a dbw_scheme background"
    using that ended [of "c\<lparr>bg_start := Ended, bg_done := True\<rparr>"] bg_ctx_done [of c]
    by (auto intro: converse_rtranclp_into_rtranclp)
  have round: "\<exists>b'. bg_run c b' \<and> bg_stop b' = StopReturned"
    if "bg_start c = InRound" "bg_stop c = AwaitDone" "bg_cancelled c" for c :: "'a dbw_scheme background"
    using that select [of "c\<lparr>bg_db := bg_round c (bg_db c), bg_start := AtSelect\<rparr>"] bg_round_done [of c]
    by (auto intro: converse_rtranclp_into_rtranclp)
  have fresh: "\<exists>b'. bg_run c b' \<and> bg_stop b' = StopReturned"
    if "bg_start c = NotStarted" "bg_stop c = AwaitDone" "bg_cancelled c" "0 < bg_interval c" for c :: "'a dbw_scheme background"
    using that round [of "c\<lparr>bg_start := InRound\<rparr>"] bg_new_ticker [of c]
    by (auto intro: converse_rtranclp_into_rtranclp)
  show ?thesis
  proof (cases "bg_start b")
    case Crashed
    then show ?thesis using assms by (simp add: follows_def start_along_def split: if_splits)
  qed (use assms ended select round fresh in \<open>auto simp: follows_def\<close>)
qed

lemma never_started_never_stops:
  assumes "bg_run b0 b" "fresh b0" "bg_start b = NotStarted"
  shows "bg_stop b \<noteq> StopReturned"
  using follows_run [OF assms(1,2)] assms(3) by (auto simp: follows_def)


lemma metrics_stop_waits_for_last_round:
  assumes "bg_run (NewMetricsUpdateService interval parent w) b" "bg_stop b = StopReturned"
  shows "\<exists>script. MetricsUpdateService_Start interval script w = Returned (bg_db b)" "bg_run b b' \<Longrightarrow> b' = b"
proof -
  have f: "follows (NewMetricsUpdateService interval parent w) b" using assms by (intro follows_run) simp_all
  show "\<exists>script. MetricsUpdateService_Start interval script w = Returned (bg_db b)"
    using follows_stopped(3) [OF f assms(2)] by (simp add: start_along_services)
  show "bg_run b b' \<Longrightarrow> b' = b" by (rule stopped_is_final [OF f assms(2)])
qed

end
