(* ===== verification/Samples.thy ===== *)
theory Samples
  imports Webhook Json_Labels Analytics
begin

text \<open>
  Concrete states, payloads and events on which the properties are instantiated: an empty server
  in March 2024, three deliveries about one job and one about a run.
\<close>

definition sample_now :: gotime where
  "sample_now = \<lparr>t_sec = 1709294400, t_nsec = 500, t_off = 0\<rparr>"

lemma sample_now_ok [simp]: "time_ok sample_now"
  by code_simp

definition sample_world :: world where
  "sample_world =
     \<lparr>workflow_jobs = [], workflow_runs = [], webhook_events = [], metrics_snapshots = [],
      tape = [], clock = sample_now, mlog = [], sse = None\<rparr>"

definition job_doc :: "string \<Rightarrow> bytes" where
  "job_doc action = ''{'' @ [CHR 0x22] @ ''action'' @ [CHR 0x22] @ '':'' @ [CHR 0x22] @ action @ [CHR 0x22] @ '','' @
     [CHR 0x22] @ ''workflow_job'' @ [CHR 0x22] @ '':{'' @ [CHR 0x22] @ ''id'' @ [CHR 0x22] @ '':7}}''"

definition run_doc :: "string \<Rightarrow> bytes" where
  "run_doc action = ''{'' @ [CHR 0x22] @ ''action'' @ [CHR 0x22] @ '':'' @ [CHR 0x22] @ action @ [CHR 0x22] @ '','' @
     [CHR 0x22] @ ''workflow_run'' @ [CHR 0x22] @ '':{'' @ [CHR 0x22] @ ''id'' @ [CHR 0x22] @ '':9}}''"

definition sample_event :: "string \<Rightarrow> string \<Rightarrow> bytes \<Rightarrow> OrderedEvent" where
  "sample_event delivery t p =
     \<lparr>Sequence = \<lparr>EventID = delivery, SequenceID = 0, Timestamp = sample_now, DeliveryID = delivery,
        ReceivedAt = sample_now\<rparr>,
      EventType = t, RawPayload = p, ProcessedAt = None, OrderingKey = ''job_7'',
      StatusPriority = 2, Persisted = False\<rparr>"

definition ev_queued :: OrderedEvent where
  "ev_queued = sample_event ''d1'' ''workflow_job'' (job_doc ''queued'')"
definition ev_progress :: OrderedEvent where
  "ev_progress = sample_event ''d2'' ''workflow_job'' (job_doc ''in_progress'')"
definition ev_completed :: OrderedEvent where
  "ev_completed = sample_event ''d3'' ''workflow_job'' (job_doc ''completed'')"
definition ev_run :: OrderedEvent where
  "ev_run = sample_event ''d4'' ''workflow_run'' (run_doc ''requested'')"

lemmas sample_defs =
  sample_event_def ev_queued_def ev_progress_def ev_completed_def ev_run_def

lemma healthy_sample [simp]: "healthy sample_world"
  by (simp add: healthy_def sample_world_def)

lemma sample_world_simps [simp]:
  "workflow_jobs sample_world = []" "workflow_runs sample_world = []" "webhook_events sample_world = []"
  "metrics_snapshots sample_world = []" "tape sample_world = []" "clock sample_world = sample_now"
  "mlog sample_world = []" "sse sample_world = None"
  by (simp_all add: sample_world_def)

lemma db_wf_sample [simp]: "db_wf sample_world"
  by (simp add: db_wf_def sample_world_def rows_known_def events_wf_def pk_distinct_def)

lemma unmarshal_sample [simp]:
  "unmarshal_job_event (job_doc ''queued'') =
     Some \<lparr>je_Action = ''queued'', je_WorkflowJob = zero_job\<lparr>j_ID := 7\<rparr>\<rparr>"
  "unmarshal_job_event (job_doc ''in_progress'') =
     Some \<lparr>je_Action = ''in_progress'', je_WorkflowJob = zero_job\<lparr>j_ID := 7\<rparr>\<rparr>"
  "unmarshal_job_event (job_doc ''completed'') =
     Some \<lparr>je_Action = ''completed'', je_WorkflowJob = zero_job\<lparr>j_ID := 7\<rparr>\<rparr>"
  "unmarshal_run_event (run_doc ''requested'') =
     Some (zero_run_event\<lparr>re_Action := ''requested'', re_WorkflowRun := zero_run\<lparr>r_ID := 9\<rparr>\<rparr>)"
  by (simp_all add: job_doc_def run_doc_def unmarshal_job_event_def unmarshal_run_event_def
      zero_job_event_def zero_run_event_def job_event_fields_def job_fields_def run_event_fields_def
      run_fields_def repository_fields_def json_eval Let_def)

lemma parses_sample [simp]:
  "parses ev_queued" "parses ev_progress" "parses ev_completed" "parses ev_run"
  by (simp_all add: parses_def sample_defs)

text \<open>A server whose job 7 has completed, the arrival of one more event, and its processing.\<close>

definition sample_done :: world where
  "sample_done = sample_world\<lparr>workflow_jobs :=
     [job_row_of (zero_job\<lparr>j_ID := 7, j_Status := ''completed''\<rparr>) sample_now]\<rparr>"

definition arrive :: "OrderedEvent \<Rightarrow> world \<Rightarrow> svc" where
  "arrive ev w = ingest_take server_pf False ev [] (send_event ev (NewEventOrderingService w))"

lemma arrive_run: "(svc_step server_pf)\<^sup>*\<^sup>* (NewEventOrderingService w) (arrive ev w)"
proof -
  let ?s = "NewEventOrderingService w"
  have "svc_step server_pf ?s (send_event ev ?s)"
    by (rule step_add) (simp add: has_room_def NewEventOrderingService_def defaultIngestChannelSize_def)
  moreover have "svc_step server_pf (send_event ev ?s) (arrive ev w)"
    using step_take [of "send_event ev ?s" ev "[]" server_pf]
    by (simp add: arrive_def send_event_def NewEventOrderingService_def)
  ultimately show ?thesis by (rule converse_rtranclp_into_rtranclp [OF _ r_into_rtranclp])
qed

lemma sample_done [simp]:
  "db_wf sample_done" "healthy sample_done" "clock sample_done = sample_now"
  "workflow_jobs sample_done = [job_row_of (zero_job\<lparr>j_ID := 7, j_Status := ''completed''\<rparr>) sample_now]"
  "IsTerminalJobStatus ''completed''" "JobStatusPriority ''completed'' = Some 5" "RunStatusPriority ''requested'' = Some 1"
  by (simp_all add: db_wf_def sample_done_def rows_known_def events_wf_def pk_distinct_def healthy_def
      JobStatusPriority_def RunStatusPriority_def IsTerminalJobStatus_def status_defs)

definition sample_both :: world where
  "sample_both = sample_done\<lparr>workflow_runs := [run_row_of (zero_run\<lparr>r_ID := 9, r_Status := ''requested''\<rparr>)]\<rparr>"

lemma sample_both [simp]:
  "db_wf sample_both" "healthy sample_both"
  "workflow_jobs sample_both = [job_row_of (zero_job\<lparr>j_ID := 7, j_Status := ''completed''\<rparr>) sample_now]"
  "workflow_runs sample_both = [run_row_of (zero_run\<lparr>r_ID := 9, r_Status := ''requested''\<rparr>)]"
  using sample_done(1,2) by (simp_all add: db_wf_def healthy_def sample_both_def rows_known_def pk_distinct_def)

lemma wrld_new [simp]: "wrld (NewEventOrderingService w) = w"
  by (simp add: NewEventOrderingService_def)

text \<open>The same server after \<open>Stop\<close>: the ingest worker draining, and both workers gone.\<close>

definition sample_draining :: "world \<Rightarrow> svc" where
  "sample_draining w = (NewEventOrderingService w)\<lparr>ctxDone := True, ingest_at := IngestDrain\<rparr>"

definition sample_drained :: "world \<Rightarrow> svc" where
  "sample_drained w = drain server_pf [] (sample_draining w)"

lemma sample_draining_run: "svc_reachable pf w (sample_draining w)"
proof -
  let ?s = "NewEventOrderingService w"
  have 1: "svc_step pf ?s (?s\<lparr>ctxDone := True\<rparr>)" by (rule step_stop)
  have 2: "svc_step pf (?s\<lparr>ctxDone := True\<rparr>) (sample_draining w)"
    using step_done [of "?s\<lparr>ctxDone := True\<rparr>" pf]
    by (simp add: sample_draining_def NewEventOrderingService_def)
  show ?thesis unfolding svc_reachable_def
    using converse_rtranclp_into_rtranclp [of "svc_step pf", OF 1 r_into_rtranclp [of "svc_step pf", OF 2]] .
qed

lemma sample_drained_run: "svc_reachable server_pf w (sample_drained w)"
  using sample_draining_run [of server_pf w] drain_steps [of "sample_draining w" "[]" server_pf]
  by (simp add: svc_reachable_def sample_drained_def sample_draining_def NewEventOrderingService_def)

lemma sample_drained_simps [simp]:
  "wrld (sample_drained w) = w" "ctxDone (sample_drained w)" "ingest_at (sample_drained w) = IngestDone"
  "flush_at (sample_drained w) = FlushIdle" "ingestCh (sample_drained w) = []" "has_room (sample_drained w)"
  by (simp_all add: sample_drained_def sample_draining_def NewEventOrderingService_def flushSpill_def
      has_room_def defaultIngestChannelSize_def)

lemma arrive_reachable: "svc_reachable server_pf w (arrive ev w)"
  using arrive_run by (simp add: svc_reachable_def)

text \<open>A database with one spilled event.\<close>

definition sample_spilled :: world where
  "sample_spilled = sample_world\<lparr>webhook_events := [event_row_of ev_queued]\<rparr>"

lemma sample_spilled [simp]:
  "healthy sample_spilled" "db_wf sample_spilled" "webhook_events sample_spilled = [event_row_of ev_queued]"
  by (simp_all add: sample_spilled_def healthy_def db_wf_def rows_known_def pk_distinct_def events_wf_def
      event_row_of_ok)

text \<open>Deliveries: an ordinary one, one of an unregistered type, and two odd ones.\<close>

lemma unmarshal_map_sample [simp]:
  "unmarshal_map (job_doc ''queued'')" "unmarshal_map (job_doc ''bogus'')" "unmarshal_map ''{}''"
  by (simp_all add: job_doc_def json_eval Let_def)

lemma unmarshal_odd [simp]:
  "unmarshal_job_event (job_doc ''bogus'') = Some \<lparr>je_Action = ''bogus'', je_WorkflowJob = zero_job\<lparr>j_ID := 7\<rparr>\<rparr>"
  "unmarshal_job_event ''{}'' = Some zero_job_event"
  by (simp_all add: job_doc_def unmarshal_job_event_def zero_job_event_def job_event_fields_def
      job_fields_def json_eval Let_def)

lemma unwrap_plain [simp]: "unwrap_payload (job_doc a) = Inr (job_doc a)" "unwrap_payload ''{}'' = Inr ''{}''"
  by (simp_all add: unwrap_payload_def has_prefix_def payload_prefix_def job_doc_def)

lemma new_room [simp]: "has_room (NewEventOrderingService w)" "ingestCh (NewEventOrderingService w) = []"
  by (simp_all add: has_room_def NewEventOrderingService_def defaultIngestChannelSize_def)

lemmas ingest_defs = Ingest_def NewWebhookHandler_lookup NewWorkflowJobHandler_def AddEvent_room
  JobExtractEventTimestamp_def JobExtractOrderingKey_def JobGetStatusPriority_def result_def

lemma sample_ingest [simp]:
  "Status (snd (Ingest NewWebhookHandler wait ''workflow_job'' ''d1'' (job_doc ''queued'') (NewEventOrderingService sample_world))) = 202"
  "Status (snd (Ingest NewWebhookHandler wait ''push'' ''d1'' (job_doc ''queued'') (NewEventOrderingService sample_world))) = 200"
  by (simp_all add: ingest_defs split: option.split)

lemma ingest_bogus:
  "Status (snd (Ingest NewWebhookHandler wait ''workflow_job'' ''d'' (job_doc ''bogus'') (NewEventOrderingService sample_world))) = 202"
  "Status (snd (Ingest NewWebhookHandler wait ''workflow_job'' ''d'' ''{}'' (NewEventOrderingService sample_world))) = 202"
  by (simp_all add: ingest_defs split: option.split)

text \<open>Two spilled events in the wrong order: the first row is the later one.\<close>

definition ev_late :: OrderedEvent where
  "ev_late = ev_queued\<lparr>Sequence := (Sequence ev_queued)\<lparr>DeliveryID := ''d9'', Timestamp := time_Add sample_now 60000000000\<rparr>\<rparr>"

definition sample_backlog :: world where
  "sample_backlog = sample_world\<lparr>webhook_events := [event_row_of ev_late, event_row_of ev_queued]\<rparr>"

lemma sample_texts:
  "format_RFC3339 sample_now = ''2024-03-01T12:00:00Z''"
  "format_RFC3339 (time_Add sample_now 60000000000) = ''2024-03-01T12:01:00Z''"
  "time_Add sample_now (wrap64 0) = sample_now"
  by code_simp+

lemma sample_backlog_query:
  "GetPendingEventsByAge 0 10 sample_backlog = (sample_backlog, Inr [event_of_row (event_row_of ev_queued), event_of_row (event_row_of ev_late)])"
proof -
  have s: "healthy sample_backlog" "clock sample_backlog = sample_now"
    "webhook_events sample_backlog = [event_row_of ev_late, event_row_of ev_queued]"
    by (simp_all add: sample_backlog_def healthy_def)
  have "order_key (event_row_of ev_queued) \<le> order_key (event_row_of ev_late)"
    "\<not> order_key (event_row_of ev_late) \<le> order_key (event_row_of ev_queued)"
    by (simp_all add: order_key_def event_row_of_def ev_late_def sample_defs sample_texts less_char_def)
  then show ?thesis
    using s by (simp add: GetPendingEventsByAge_def sample_texts Let_def select_ordered_def scan_events_def
        event_row_of_def ev_late_def sample_defs order_key_def)
qed

text \<open>A job with labels, and a job that has been queued for a long time.\<close>

definition sample_job :: WorkflowJob where
  "sample_job = \<lparr>j_ID = 7, j_Name = ''build'', j_Status = ''in_progress'', j_Labels = [''ubuntu-latest'', ''x64''],
     j_HtmlUrl = ''u'', j_Conclusion = [], j_CreatedAt = sample_now, j_StartedAt = sample_now,
     j_CompletedAt = zero_time, j_RunID = 9\<rparr>"

lemma zero_time_ok: "time_ok zero_time"
  by code_simp

lemma sample_job_simps [simp]:
  "job_storable sample_job" "j_ID sample_job = 7" "j_Status sample_job = ''in_progress''"
  "job_accepted sample_job sample_world"
  by (simp_all add: sample_job_def job_storable_def ascii_def zero_time_ok job_accepted_def accepts_def
      JobStatusPriority_def status_defs)

definition sample_stale :: world where
  "sample_stale = sample_world\<lparr>workflow_jobs :=
     [job_row_of (sample_job\<lparr>j_Status := ''queued'', j_CreatedAt := time_Add sample_now (- 10800000000000)\<rparr>) sample_now]\<rparr>"

lemma sample_cutoff:
  "format_RFC3339 (time_Add sample_now (wrap64 (- 3600000000000))) = ''2024-03-01T11:00:00Z''"
  "format_RFC3339 (time_Add sample_now (- 10800000000000)) = ''2024-03-01T09:00:00Z''"
  by code_simp+

lemma sample_utc: "year4 (UTC sample_now)"
  by code_simp

lemma sample_stale:
  "healthy sample_stale" "db_wf sample_stale" "year4 (UTC (clock sample_stale))"
  "format_RFC3339 (cutoff_time 3600000000000 sample_stale) = ''2024-03-01T11:00:00Z''"
  "workflow_jobs sample_stale = [job_row_of (sample_job\<lparr>j_Status := ''queued'', j_CreatedAt := time_Add sample_now (- 10800000000000)\<rparr>) sample_now]"
  "jr_created_at (job_row_of (sample_job\<lparr>j_Status := ''queued'', j_CreatedAt := time_Add sample_now (- 10800000000000)\<rparr>) sample_now) < ''2024-03-01T11:00:00Z''"
  by (simp_all add: sample_stale_def healthy_def db_wf_def rows_known_def pk_distinct_def events_wf_def
      JobStatusPriority_def status_defs cutoff_time_def sample_cutoff sample_utc job_row_of_def less_char_def)

text \<open>A database with a job of this morning, a snapshot and a failed event.\<close>

definition sample_snapshot :: snapshot_row where
  "sample_snapshot = \<lparr>sn_id = 1, sn_timestamp = format_datetime (time_Add sample_now 36000000000000),
     sn_running_jobs = 3, sn_queued_jobs = 1\<rparr>"

definition sample_failed :: event_row where
  "sample_failed = mark_failed (event_row_of ev_queued)"

definition sample_old :: world where
  "sample_old = sample_world\<lparr>workflow_jobs := [job_row_of sample_job sample_now],
     metrics_snapshots := [sample_snapshot], webhook_events := [sample_failed],
     clock := time_Add sample_now 86400000000000\<rparr>"

lemma sample_days:
  "date_of (time_Add sample_now 36000000000000) = date_of (time_Add (time_Add sample_now 86400000000000) (wrap64 (- 86400000000000)))"
  "year4 (time_Add sample_now 36000000000000)"
  "year4 (time_Add (time_Add sample_now 86400000000000) (wrap64 (- 86400000000000)))"
  "year4 sample_now" "t_off sample_now = t_off (time_Add sample_now 86400000000000)"
  "t_sec (time_Add (time_Add sample_now 86400000000000) (wrap64 (- 86400000000000))) = t_sec sample_now"
  "sqlite_seconds (format_datetime (time_Add sample_now 36000000000000)) = Some 1709330400"
  by code_simp+

lemma sample_old:
  "healthy sample_old" "db_wf sample_old" "clock sample_old = time_Add sample_now 86400000000000"
  "workflow_jobs sample_old = [job_row_of sample_job sample_now]"
  "metrics_snapshots sample_old = [sample_snapshot]" "webhook_events sample_old = [sample_failed]"
  by (simp_all add: sample_old_def healthy_def db_wf_def rows_known_def pk_distinct_def events_wf_def
      event_row_ok_def sample_failed_def mark_failed_def JobStatusPriority_def status_defs)

text \<open>
  Two completed jobs, one of them failed, with the documented behaviour of SQLite's two time
  functions on the texts the program stores; the same in a zone two hours east of UTC.
\<close>

definition sqlite_strftime :: sql_strftime where
  "sqlite_strftime fmt s =
     (case time_Parse layout_RFC3339 s of
        None \<Rightarrow> None
      | Some t \<Rightarrow>
          let d = format_date_time (CHR ''T'') (UTC t)
          in Some (if fmt = ''%Y-%m-%dT%H:00:00Z'' then take 13 d @ '':00:00Z'' else take 10 d @ ''T00:00:00Z''))"

definition sqlite_julianday :: sql_julianday where
  "sqlite_julianday s = map_option (\<lambda>t. of_int (t_sec t) / 86400 + 4881175 / 2) (time_Parse layout_RFC3339 s)"

definition sample_row :: "int \<Rightarrow> string \<Rightarrow> job_row" where
  "sample_row i c = \<lparr>jr_id = i, jr_name = ''build'', jr_run_id = 9, jr_status = ''completed'',
     jr_labels = labelsToJSON [''x64''], jr_html_url = ''u'', jr_conclusion = c,
     jr_created_at = ''2024-03-01T11:10:00Z'', jr_started_at = Some ''2024-03-01T11:11:00Z'',
     jr_completed_at = Some ''2024-03-01T11:20:00Z'', jr_updated_at = ''2024-03-01T11:20:00Z''\<rparr>"

definition sample_failing :: world where
  "sample_failing = sample_world\<lparr>workflow_jobs := [sample_row 1 ''failure'', sample_row 2 ''success'']\<rparr>"

lemma sample_buckets:
  "sqlite_strftime ''%Y-%m-%dT%H:00:00Z'' ''2024-03-01T11:20:00Z'' = Some ''2024-03-01T11:00:00Z''"
  "sqlite_strftime ''%Y-%m-%dT%H:00:00Z'' ''2024-03-01T11:10:00Z'' = Some ''2024-03-01T11:00:00Z''"
  "bucket_unix ''2024-03-01T11:00:00Z'' = 1709290800"
  by code_simp+

lemma sample_window:
  "completed_jobs hour_ns [] sample_failing = [sample_row 1 ''failure'', sample_row 2 ''success'']"
  "labelled_jobs hour_ns [] sample_failing = [sample_row 1 ''failure'', sample_row 2 ''success'']"
  by code_simp+

lemma sample_failing [simp]: "healthy sample_failing" "db_wf sample_failing" "clock sample_failing = sample_now"
  by (simp_all add: sample_failing_def healthy_def db_wf_def rows_known_def pk_distinct_def events_wf_def
      sample_row_def JobStatusPriority_def status_defs)

lemma sample_label: "first_label (sample_row i c) = Some ''x64''"
  by (simp add: sample_row_def first_label_def) (code_simp)

lemma hour_format: "bucketFormat hour_ns = ''%Y-%m-%dT%H:00:00Z''"
  by (simp add: bucketFormat_def hour_ns_def)

lemma sample_trends:
  "GetFailureTrend sqlite_strftime hour_ns [] sample_failing =
     (sample_failing, Inr [\<lparr>ft_Timestamp = 1709290800, ft_Failures = 1, ft_Successes = 1, ft_Cancelled = 0\<rparr>])"
  "GetLabelDemandTrend sqlite_strftime hour_ns [] sample_failing =
     (sample_failing, Inr [\<lparr>lt_Timestamp = 1709290800, lt_Label = ''x64'', lt_Count = 2\<rparr>])"
  by (simp_all add: GetFailureTrend_def GetLabelDemandTrend_def query_scan_def query_rows_healthy sample_window
        hour_format trend_points_def demand_trend_def group_by_def sample_label)
     (simp_all add: sample_row_def sample_buckets null_string_def is_failure_def is_success_def is_cancelled_def)

definition sample_east :: world where
  "sample_east = sample_failing\<lparr>clock := sample_now\<lparr>t_off := 7200\<rparr>\<rparr>"

end
