(* ===== verification/Coalescer.thy ===== *)
theory Coalescer
  imports Sse "HOL-Library.Sublist"
begin

text \<open>
  The goroutine of the coalescer, \<open>sseCoalescer\<close> of \<open>handlers/sse_handler.go\<close>: \<open>run\<close> waits for the
  ticker or for the end, a flush takes the pending map under the lock and calls the sender for each
  event outside it, so submissions may come in between.  \<open>Sse\<close> treats a flush as one action of the
  handler; the lemma \<open>flush_is_run\<close> says that it is a run of this goroutine.
\<close>

section \<open>State and steps\<close>

text \<open>Where \<open>run\<close> stands: at its \<open>select\<close>, in a flush (the flag marks the last one), or returned.\<close>

datatype run_pc = Selecting | Flushing "SSEEvent list" bool | Returned

definition defaultCoalesceInterval :: int where
  "defaultCoalesceInterval = 500000000"

text \<open>The last two fields record the submissions and the calls of the sender.\<close>

record sseCoalescer =
  co_pending :: "SSEEvent list"
  interval :: int
  stopCh :: bool
  doneCh :: bool
  co_run :: run_pc
  submitted :: "SSEEvent list"
  emitted :: "SSEEvent list"

definition newSSECoalescer :: "int \<Rightarrow> sseCoalescer" where
  "newSSECoalescer ival =
     \<lparr>co_pending = [], interval = ival, stopCh = False, doneCh = False, co_run = Selecting, submitted = [],
      emitted = []\<rparr>"

definition co_submit :: "SSEEvent \<Rightarrow> sseCoalescer \<Rightarrow> sseCoalescer" where
  "co_submit ev c = c\<lparr>co_pending := upsert_row sse_Type ev (co_pending c), submitted := submitted c @ [ev]\<rparr>"

definition take_pending :: "(SSEEvent list \<Rightarrow> SSEEvent list) \<Rightarrow> bool \<Rightarrow> sseCoalescer \<Rightarrow> sseCoalescer" where
  "take_pending iter final c = c\<lparr>co_pending := [], co_run := Flushing (iter (co_pending c)) final\<rparr>"

text \<open>\<open>stop\<close> closes the channel once and then waits for \<open>doneCh\<close>.\<close>

definition co_close :: "sseCoalescer \<Rightarrow> sseCoalescer" where
  "co_close c = c\<lparr>stopCh := True\<rparr>"

inductive co_step :: "sseCoalescer \<Rightarrow> sseCoalescer \<Rightarrow> bool" where
  co_submit: "co_step c (co_submit ev c)"
| co_close: "co_step c (co_close c)"
| co_tick: "co_run c = Selecting \<Longrightarrow> mset (iter (co_pending c)) = mset (co_pending c) \<Longrightarrow>
    co_step c (take_pending iter False c)"
| co_stopped: "co_run c = Selecting \<Longrightarrow> stopCh c \<Longrightarrow> mset (iter (co_pending c)) = mset (co_pending c) \<Longrightarrow>
    co_step c (take_pending iter True c)"
| co_send: "co_run c = Flushing (e # es) final \<Longrightarrow>
    co_step c (c\<lparr>co_run := Flushing es final, emitted := emitted c @ [e]\<rparr>)"
| co_flushed: "co_run c = Flushing [] False \<Longrightarrow> co_step c (c\<lparr>co_run := Selecting\<rparr>)"
| co_return: "co_run c = Flushing [] True \<Longrightarrow> co_step c (c\<lparr>co_run := Returned, doneCh := True\<rparr>)"

inductive_cases co_stepE: "co_step c c'"

section \<open>The invariant\<close>

definition of_type :: "string \<Rightarrow> SSEEvent list \<Rightarrow> SSEEvent list" where
  "of_type t evs = filter (\<lambda>e. sse_Type e = t) evs"

lemma of_type_simps [simp]:
  "of_type t [] = []" "of_type t (xs @ ys) = of_type t xs @ of_type t ys"
  "of_type t (e # es) = (if sse_Type e = t then e # of_type t es else of_type t es)"
  by (simp_all add: of_type_def)

fun in_flight :: "run_pc \<Rightarrow> SSEEvent list" where
  "in_flight (Flushing es final) = es"
| "in_flight pc = []"

text \<open>What was sent, is being sent and will be sent, as one sequence.\<close>

definition outstanding :: "sseCoalescer \<Rightarrow> SSEEvent list" where
  "outstanding c = emitted c @ in_flight (co_run c) @ co_pending c"

fun ending :: "run_pc \<Rightarrow> bool" where
  "ending Returned = True"
| "ending (Flushing es final) = final"
| "ending Selecting = False"

text \<open>The sequence is part of what was submitted, and for each type ends with the last submission.\<close>

definition keeps_latest :: "SSEEvent list \<Rightarrow> SSEEvent list \<Rightarrow> bool" where
  "keeps_latest out evs \<longleftrightarrow>
     subseq out evs \<and> (evs \<noteq> [] \<longrightarrow> out \<noteq> [] \<and> last out = last evs)"

definition co_inv :: "sseCoalescer \<Rightarrow> bool" where
  "co_inv c \<longleftrightarrow>
     pk_distinct sse_Type (co_pending c) \<and>
     (\<forall>t. keeps_latest (of_type t (outstanding c)) (of_type t (submitted c))) \<and>
     (doneCh c \<longleftrightarrow> co_run c = Returned) \<and> (ending (co_run c) \<longrightarrow> stopCh c)"

lemma subseq_front: "subseq (as @ bs) evs \<Longrightarrow> subseq as evs"
  using subseq_order.order_trans [of as "as @ bs" evs] by (simp add: list_emb_prefix)

lemma keeps_latest_append: "keeps_latest (as @ bs) evs \<Longrightarrow> keeps_latest (as @ [ev]) (evs @ [ev])"
proof -
  assume "keeps_latest (as @ bs) evs"
  then have "subseq (as @ bs) evs" by (simp add: keeps_latest_def)
  then have "subseq as evs" by (rule subseq_front)
  then show ?thesis by (simp add: keeps_latest_def)
qed

lemma of_type_absent: "t \<notin> sse_Type ` set es \<Longrightarrow> of_type t es = []"
  by (auto simp: of_type_def filter_empty_conv)

lemma of_type_distinct: "pk_distinct sse_Type es \<Longrightarrow> length (of_type t es) \<le> 1"
  by (induction es) (auto simp: pk_distinct_def of_type_absent)

lemma of_type_permuted:
  assumes "mset xs = mset ys" "pk_distinct sse_Type ys"
  shows "of_type t xs = of_type t ys"
proof -
  have m: "mset (of_type t xs) = mset (of_type t ys)" using assms(1) by (simp add: of_type_def)
  then have "length (of_type t xs) \<le> 1" using of_type_distinct [OF assms(2), of t] by (metis size_mset)
  with m show ?thesis by (cases "of_type t xs") (auto simp: le_Suc_eq)
qed

lemma of_type_upsert:
  assumes "pk_distinct sse_Type es"
  shows "of_type t (upsert_row sse_Type ev es) = (if sse_Type ev = t then [ev] else of_type t es)"
proof (cases "sse_Type ev \<in> sse_Type ` set es")
  case True
  have same: "sse_Type ev \<notin> sse_Type ` set xs \<Longrightarrow> map (\<lambda>x. if sse_Type x = sse_Type ev then ev else x) xs = xs" for xs
    by (induction xs) auto
  obtain xs e ys where es: "es = xs @ e # ys" "sse_Type e = sse_Type ev"
    using True by (metis imageE split_list)
  with assms have "sse_Type ev \<notin> sse_Type ` set xs" "sse_Type ev \<notin> sse_Type ` set ys"
    by (simp_all add: pk_distinct_def)
  then have "of_type t (map (\<lambda>x. if sse_Type x = sse_Type ev then ev else x) es) =
      (if sse_Type ev = t then [ev] else of_type t es)"
    by (simp add: es same) (auto simp: of_type_absent)
  with True show ?thesis by (simp add: upsert_row_def)
qed (auto simp: upsert_row_def of_type_absent)

lemma co_inv_new: "co_inv (newSSECoalescer ival)"
  by (simp add: co_inv_def keeps_latest_def newSSECoalescer_def outstanding_def pk_distinct_def)

lemma co_inv_submit:
  assumes "co_inv c"
  shows "co_inv (co_submit ev c)"
proof -
  let ?A = "\<lambda>t. of_type t (emitted c) @ of_type t (in_flight (co_run c))"
  have p: "pk_distinct sse_Type (co_pending c)" using assms by (simp add: co_inv_def)
  have "keeps_latest (?A t @ of_type t (co_pending c)) (of_type t (submitted c))" for t
    using assms by (simp add: co_inv_def outstanding_def)
  then have "keeps_latest (of_type t (outstanding (co_submit ev c))) (of_type t (submitted (co_submit ev c)))" for t
    using keeps_latest_append [of "?A t"]
    by (auto simp: outstanding_def co_submit_def of_type_upsert [OF p])
  then show ?thesis using assms p by (simp add: co_inv_def) (simp add: co_submit_def pk_distinct_upsert)
qed

lemma co_inv_take:
  assumes "co_inv c" "co_run c = Selecting" "mset (iter (co_pending c)) = mset (co_pending c)" "final \<longrightarrow> stopCh c"
  shows "co_inv (take_pending iter final c)"
proof -
  have p: "pk_distinct sse_Type (co_pending c)" using assms by (simp add: co_inv_def)
  have "of_type t (outstanding (take_pending iter final c)) = of_type t (outstanding c)" for t
    using of_type_permuted [OF assms(3) p] assms(2) by (simp add: outstanding_def take_pending_def)
  moreover have "submitted (take_pending iter final c) = submitted c" by (simp add: take_pending_def)
  moreover have "pk_distinct sse_Type (co_pending (take_pending iter final c))"
    by (simp add: take_pending_def pk_distinct_def)
  ultimately show ?thesis using assms by (simp add: co_inv_def) (simp add: take_pending_def)
qed

lemma co_inv_step: "co_step c c' \<Longrightarrow> co_inv c \<Longrightarrow> co_inv c'"
proof (induction rule: co_step.induct)
  case (co_close c)
  then show ?case by (simp add: co_inv_def outstanding_def co_close_def)
qed (simp_all add: co_inv_submit co_inv_take, simp_all add: co_inv_def outstanding_def)

lemma co_inv_reachable: "co_step\<^sup>*\<^sup>* (newSSECoalescer ival) c \<Longrightarrow> co_inv c"
  by (induction rule: rtranclp_induct) (auto intro: co_inv_new co_inv_step)

section \<open>Runs of the goroutine\<close>

lemma flush_out:
  "co_run c = Flushing es final \<Longrightarrow> co_step\<^sup>*\<^sup>* c (c\<lparr>co_run := Flushing [] final, emitted := emitted c @ es\<rparr>)"
proof (induction es arbitrary: c)
  case Nil
  then show ?case by (cases c) simp
next
  case (Cons e es)
  let ?c = "c\<lparr>co_run := Flushing es final, emitted := emitted c @ [e]\<rparr>"
  have "co_step\<^sup>*\<^sup>* ?c (c\<lparr>co_run := Flushing [] final, emitted := emitted c @ e # es\<rparr>)"
    using Cons.IH [of ?c] by simp
  with co_send [OF Cons.prems] show ?case by (rule converse_rtranclp_into_rtranclp)
qed

lemma take_run:
  assumes "co_run c = Selecting" "mset (iter (co_pending c)) = mset (co_pending c)" "final \<longrightarrow> stopCh c"
  shows "co_step\<^sup>*\<^sup>* c (c\<lparr>co_pending := [], co_run := Flushing [] final, emitted := emitted c @ iter (co_pending c)\<rparr>)"
proof -
  have "co_step c (take_pending iter final c)" using assms co_tick co_stopped by (cases final) auto
  moreover have "co_step\<^sup>*\<^sup>* (take_pending iter final c)
      (c\<lparr>co_pending := [], co_run := Flushing [] final, emitted := emitted c @ iter (co_pending c)\<rparr>)"
    using flush_out [of "take_pending iter final c"] by (simp add: take_pending_def)
  ultimately show ?thesis by (rule converse_rtranclp_into_rtranclp)
qed

text \<open>The flush of the handler, with the calls of the sender in the iteration order, is such a run.\<close>

lemma flush_is_run:
  assumes "co_run c = Selecting" "co_pending c = pending h" "mset (iter (pending h)) = mset (pending h)"
  shows "\<exists>c' es. co_step\<^sup>*\<^sup>* c c' \<and> co_run c' = Selecting \<and> emitted c' = emitted c @ es \<and>
    fst (flush iter h) = fst (send_all es (h\<lparr>pending := co_pending c'\<rparr>))"
proof -
  let ?c = "c\<lparr>co_pending := [], co_run := Flushing [] False, emitted := emitted c @ iter (co_pending c)\<rparr>"
  have "co_step\<^sup>*\<^sup>* c ?c" using assms by (intro take_run) simp_all
  then have "co_step\<^sup>*\<^sup>* c (?c\<lparr>co_run := Selecting\<rparr>)"
    by (rule rtranclp.rtrancl_into_rtrancl) (rule co_flushed, simp)
  moreover have "fst (flush iter h) = fst (send_all (iter (pending h)) (h\<lparr>pending := []\<rparr>))"
    using assms(3) by (auto simp: flush_def)
  ultimately show ?thesis using assms(2) by (intro exI [of _ "?c\<lparr>co_run := Selecting\<rparr>"] exI conjI) simp_all
qed

text \<open>A stopped goroutine can always return, without any further submission.\<close>

lemma stop_returns:
  assumes "co_inv c" "stopCh c"
  shows "\<exists>c'. co_step\<^sup>*\<^sup>* c c' \<and> doneCh c' \<and> submitted c' = submitted c"
proof -
  have ret: "\<exists>d'. co_step\<^sup>*\<^sup>* d d' \<and> doneCh d' \<and> submitted d' = submitted d" if "co_run d = Flushing [] True" for d
    using co_return [OF that] by (intro exI [of _ "d\<lparr>co_run := Returned, doneCh := True\<rparr>"]) auto
  have sel: "\<exists>d'. co_step\<^sup>*\<^sup>* d d' \<and> doneCh d' \<and> submitted d' = submitted d"
    if "co_run d = Selecting" "stopCh d" for d
    using take_run [of d id True] ret [of "d\<lparr>co_pending := [], co_run := Flushing [] True, emitted := emitted d @ co_pending d\<rparr>"] that
    by (auto intro: rtranclp_trans)
  show ?thesis
  proof (cases "co_run c")
    case Selecting
    then show ?thesis using sel assms(2) by blast
  next
    case (Flushing es final)
    let ?c = "c\<lparr>co_run := Flushing [] final, emitted := emitted c @ es\<rparr>"
    have r: "co_step\<^sup>*\<^sup>* c ?c" by (rule flush_out [OF Flushing])
    have "\<exists>d'. co_step\<^sup>*\<^sup>* ?c d' \<and> doneCh d' \<and> submitted d' = submitted ?c"
    proof (cases final)
      case True
      then show ?thesis by (intro ret) simp
    next
      case False
      then have "co_step ?c (?c\<lparr>co_run := Selecting\<rparr>)" by (intro co_flushed) simp
      with sel [of "?c\<lparr>co_run := Selecting\<rparr>"] assms(2) show ?thesis
        by (auto intro: converse_rtranclp_into_rtranclp)
    qed
    with r show ?thesis by (auto intro: rtranclp_trans)
  next
    case Returned
    then show ?thesis using assms(1) by (auto simp: co_inv_def)
  qed
qed

text \<open>From the last flush on, the last event sent of a type is not older than the \<open>n\<close>-th submission.\<close>

definition up_to_date :: "string \<Rightarrow> nat \<Rightarrow> sseCoalescer \<Rightarrow> bool" where
  "up_to_date t n c \<longleftrightarrow>
     0 < n \<and> n \<le> length (of_type t (submitted c)) \<and>
     (ending (co_run c) \<longrightarrow>
       (\<exists>k. n \<le> Suc k \<and> k < length (of_type t (submitted c)) \<and>
         of_type t (emitted c @ in_flight (co_run c)) \<noteq> [] \<and>
         last (of_type t (emitted c @ in_flight (co_run c))) = of_type t (submitted c) ! k))"

lemma up_to_date_step: "co_step c c' \<Longrightarrow> co_inv c \<Longrightarrow> up_to_date t n c \<Longrightarrow> up_to_date t n c'"
proof (induction rule: co_step.induct)
  case (co_submit c ev)
  then have "up_to_date t n c" by simp
  then show ?case by (auto simp: up_to_date_def co_submit_def nth_append less_Suc_eq)
next
  case (co_stopped c iter)
  have "keeps_latest (of_type t (emitted c) @ of_type t (co_pending c)) (of_type t (submitted c))"
    using co_stopped by (simp add: co_inv_def outstanding_def)
  moreover have "of_type t (iter (co_pending c)) = of_type t (co_pending c)"
    using co_stopped by (intro of_type_permuted) (simp_all add: co_inv_def)
  moreover have "of_type t (submitted c) \<noteq> []" using co_stopped by (auto simp: up_to_date_def)
  ultimately show ?case using co_stopped
    by (auto simp: up_to_date_def take_pending_def keeps_latest_def last_conv_nth [of "of_type t (submitted c)"]
      intro!: exI [of _ "length (of_type t (submitted c)) - 1"])
qed (auto simp: up_to_date_def take_pending_def co_close_def)

section \<open>Properties\<close>

text \<open>C19: once \<open>stop\<close> has returned, each client has been sent the state of affairs: for every type, what was
  sent is a part of what was submitted, in its order, and the last event sent is the last one submitted before
  the call or one submitted after it; and the call does return.  Between submissions and sends any
  interleaving is possible.\<close>

theorem stop_delivers_latest:
  assumes "co_step\<^sup>*\<^sup>* (newSSECoalescer ival) c0" "\<not> stopCh c0" "of_type t (submitted c0) \<noteq> []"
    and "co_step\<^sup>*\<^sup>* (co_close c0) c" "doneCh c"
  shows "subseq (of_type t (emitted c)) (of_type t (submitted c)) \<and> of_type t (emitted c) \<noteq> [] \<and>
    (\<exists>k. length (of_type t (submitted c0)) \<le> Suc k \<and> k < length (of_type t (submitted c)) \<and>
       last (of_type t (emitted c)) = of_type t (submitted c) ! k) \<and>
    (\<exists>c'. co_step\<^sup>*\<^sup>* (co_close c0) c' \<and> doneCh c' \<and> submitted c' = submitted c0)"
proof -
  have i0: "co_inv (co_close c0)" using co_inv_reachable [OF assms(1)] co_close by (rule co_inv_step [rotated])
  have "up_to_date t (length (of_type t (submitted c0))) (co_close c0)"
    using assms(2,3) co_inv_reachable [OF assms(1)] by (auto simp: up_to_date_def co_inv_def co_close_def)
  with assms(4) have c: "co_inv c \<and> up_to_date t (length (of_type t (submitted c0))) c"
    by (induction rule: rtranclp_induct) (auto intro: i0 co_inv_step up_to_date_step)
  then have "co_run c = Returned" using assms(5) by (simp add: co_inv_def)
  moreover have "subseq (of_type t (emitted c)) (of_type t (submitted c))"
    using c by (auto simp: co_inv_def keeps_latest_def outstanding_def intro: subseq_front)
  moreover have "\<exists>c'. co_step\<^sup>*\<^sup>* (co_close c0) c' \<and> doneCh c' \<and> submitted c' = submitted c0"
    using stop_returns [OF i0] by (simp add: co_close_def)
  ultimately show ?thesis using c by (auto simp: up_to_date_def)
qed

definition sample_coalescer :: sseCoalescer where
  "sample_coalescer = co_submit (hd sample_updates) (newSSECoalescer defaultCoalesceInterval)"

theorem stop_delivers_latest_witness:
  "\<exists>c. co_step\<^sup>*\<^sup>* (co_close sample_coalescer) c \<and> doneCh c \<and> last (of_type ''m'' (emitted c)) = hd sample_updates"
proof -
  have r: "co_step\<^sup>*\<^sup>* (newSSECoalescer defaultCoalesceInterval) sample_coalescer"
    unfolding sample_coalescer_def by (rule r_into_rtranclp) (rule co_submit)
  have s: "submitted sample_coalescer = [hd sample_updates]" "\<not> stopCh sample_coalescer"
    by (simp_all add: sample_coalescer_def co_submit_def newSSECoalescer_def)
  have "co_inv (co_close sample_coalescer)" using co_inv_reachable [OF r] co_close by (rule co_inv_step [rotated])
  then obtain c where c: "co_step\<^sup>*\<^sup>* (co_close sample_coalescer) c" "doneCh c" "submitted c = [hd sample_updates]"
    using stop_returns [of "co_close sample_coalescer"] s by (auto simp: co_close_def)
  have "of_type ''m'' [hd sample_updates] = [hd sample_updates]" by (simp add: sample_updates_def)
  then show ?thesis
    using stop_delivers_latest [OF r s(2) _ c(1,2), of "''m''"] c s by auto
qed

end
