(* ===== verification/Notifications.thy ===== *)
theory Notifications
  imports Handlers Coalescer
begin

text \<open>
  From an event to the browser: what the handlers of \<open>workflow_run_handler.go\<close> and
  \<open>workflow_job_handler.go\<close> announce through \<open>handlers/sse_handler.go\<close>.
\<close>

definition update_of :: "WorkflowRunEvent \<Rightarrow> gotime \<Rightarrow> WorkflowUpdateEvent" where
  "update_of event now =
     (let run = run_of_event event in
      \<lparr>wu_Type = ''run'', wu_Action = re_Action event, wu_ID = r_ID run, wu_Status = r_Status run,
       wu_Timestamp = format_RFC3339 now, wu_WorkflowJob = zero_job, wu_WorkflowRun = run\<rparr>)"

lemma RunHandleEvent_success:
  assumes "RunHandleEvent p s w = (w', None)" "unmarshal_run_event p = Some event"
  obtains bs where "w' = (if run_accepted (run_of_event event) w then SendWorkflowUpdate (update_of event (clock w)) else id)
    (w\<lparr>tape := bs, workflow_runs := put_run (run_row_of (run_of_event event)) (workflow_runs w)\<rparr>)"
proof -
  define run where "run = run_of_event event"
  note j = run_def [unfolded run_of_event_def, symmetric]
  have st: "r_Status run = re_Action event" by (simp add: run_def run_of_event_def)
  show thesis
  proof (cases "RunStatusPriority (r_Status run)")
    case None
    then have "w' = w" "\<not> run_accepted run w" "put_run (run_row_of run) (workflow_runs w) = workflow_runs w"
      using assms by (simp_all add: RunHandleEvent_def j run_accepted_def guarded_put_def accepts_def)
    then show thesis using that [of "tape w"] by (simp add: run_def)
  next
    case prio: (Some pr)
    show thesis
    proof (cases rule: AddOrUpdateRun_outcome [of run "Timestamp s" w])
      case (failed e bs)
      then show thesis using assms prio by (simp add: RunHandleEvent_def j)
    next
      case (written bs)
      then show thesis using assms prio st that [of bs]
        by (auto simp: RunHandleEvent_def j update_of_def Let_def simp flip: run_def split: if_splits)
    qed
  qed
qed

lemma job_events_are_silent: "sse (fst (JobHandleEvent p s w)) = sse w"
  by (rule JobHandleEvent_outcome [of p s w]) auto

lemma flush_delivers:
  assumes "sse_wf h" "find_row sub_id i (subs h) = Some c"
    and "mset (iter (pending h)) = mset (pending h)" "length (sub_ch c) + length (pending h) \<le> subscriberBufferSize"
  shows "\<exists>c'. find_row sub_id i (subs (fst (flush iter h))) = Some c' \<and>
    sub_ch c' = sub_ch c @ iter (pending h) \<and> of_type t (iter (pending h)) = of_type t (pending h)"
proof -
  have len: "length (iter (pending h)) = length (pending h)" using assms(3) by (metis size_mset)
  have "of_type t (iter (pending h)) = of_type t (pending h)"
    using assms(1,3) by (intro of_type_permuted) (simp_all add: sse_wf_def)
  moreover have "\<exists>c'. find_row sub_id i (subs (fst (flush iter h))) = Some c' \<and> sub_ch c' = sub_ch c @ iter (pending h)"
    using send_all_channel [of i "h\<lparr>pending := []\<rparr>" c "iter (pending h)"] assms len
    by (cases "pending h = []") (auto simp: flush_def deliver_all)
  ultimately show ?thesis by blast
qed

section \<open>Properties\<close>


end
