(* ===== verification/Backend_Samples.thy ===== *)
theory Backend_Samples
  imports Backend Background Samples Notifications
begin

text \<open>
  Concrete runs of the whole server: a job that has completed and meets the sweep and the cleanup, an
  event that waits in the table during a cleanup, and requests and loops on sample states.
\<close>

definition sample_deps :: deps where
  "sample_deps = \<lparr>dp_config = sample_vars, dp_match = (\<lambda>pattern path. if pattern = path then Some [] else None),
     dp_strftime = sqlite_strftime, dp_julianday = sqlite_julianday, dp_random = None,
     dp_pings = (Some True, Some True), dp_wait = (\<lambda>s. (s, CaseTimer))\<rparr>"

definition sample_get :: "string \<Rightarrow> server_request" where
  "sample_get path = \<lparr>wr_Host = ''example.com:8080'', wr_Referer = ''http://example.com/'', wr_Origin = [],
     wr_csrf_cookie = Some ''t'', wr_csrf_header = ''t'', sq_Method = ''GET'', sq_Path = path,
     sq_Query = (\<lambda>_. None), sq_Hook = \<lparr>rq_signature = [], rq_event = [], rq_delivery = [], rq_body = [], rq_broken = False\<rparr>\<rparr>"


lemma sample_swept:
  "find_row jr_id 7 (workflow_jobs (fst (CleanupStaleJobs d sample_done))) =
     Some (job_row_of (zero_job\<lparr>j_ID := 7, j_Status := ''completed''\<rparr>) sample_now)"
  by (simp add: CleanupStaleJobs_healthy find_row_update stale_row_def job_row_of_def)

theorem job_regresses_only_after_deletion_witness:
  "\<exists>r'. find_row jr_id 7 (workflow_jobs (fst (CleanupStaleJobs (GetStaleJobThreshold sample_vars) sample_done))) = Some r' \<and>
     jr_status r' = ''completed''"
proof -
  let ?s = "NewEventOrderingService sample_done"
  let ?t = "on_world (\<lambda>w. fst (CleanupStaleJobs (GetStaleJobThreshold sample_vars) w)) ?s"
  let ?r = "job_row_of (zero_job\<lparr>j_ID := 7, j_Status := ''completed''\<rparr>) sample_now"
  have "(\<lambda>a b. backend_step sample_vars server_pf a b \<and> find_row jr_id 7 (workflow_jobs (wrld b)) \<noteq> None)\<^sup>*\<^sup>* ?s ?t"
    by (rule r_into_rtranclp) (simp add: by_sweep NewEventOrderingService_def sample_swept)
  from job_regresses_only_after_deletion [OF this, of ?r 5] show ?thesis
    by (simp add: NewEventOrderingService_def JobStatusPriority_def status_defs
        IsTerminalJobStatus_def)
qed

definition sample_waiting :: world where
  "sample_waiting = sample_world\<lparr>webhook_events := [event_row_of ev_queued]\<rparr>"

lemma sample_waiting:
  "healthy sample_waiting" "db_wf sample_waiting" "find_row er_delivery_id ''d1'' (webhook_events sample_waiting) = Some (event_row_of ev_queued)"
  by (simp_all add: sample_waiting_def healthy_def db_wf_def rows_known_def events_wf_def pk_distinct_def
      event_row_of_ok) (simp add: sample_defs)

theorem unprocessed_event_is_kept_witness:
  "\<exists>r'. find_row er_delivery_id ''d1'' (webhook_events (fst (CleanupOldData (GetDataRetentionDuration sample_vars) sample_waiting))) =
     Some r' \<and> er_processed_at r' = None"
proof -
  let ?s = "NewEventOrderingService sample_waiting"
  let ?t = "on_world (\<lambda>w. fst (CleanupOldData (GetDataRetentionDuration sample_vars) w)) ?s"
  have "webhook_events (wrld ?t) = [event_row_of ev_queued]"
    by (rule CleanupOldData_outcome [of "GetDataRetentionDuration sample_vars" sample_waiting])
       (simp_all add: NewEventOrderingService_def sample_waiting(1) retained_def delete_rows_def old_event_def below_def
          event_row_of_def sample_defs sample_waiting_def)
  then have "(\<lambda>a b. backend_step sample_vars server_pf a b \<and>
        (\<forall>r. find_row er_delivery_id ''d1'' (webhook_events (wrld b)) = Some r \<longrightarrow> er_status r \<noteq> ''processed''))\<^sup>*\<^sup>* ?s ?t"
    by (intro r_into_rtranclp) (simp add: by_cleanup, simp add: sample_defs event_row_of_def)
  moreover have "er_status (event_row_of ev_queued) = ''pending''" by (simp add: sample_defs)
  ultimately have "\<exists>r'. find_row er_delivery_id ''d1'' (webhook_events (wrld ?t)) = Some r' \<and>
      er_status r' \<in> {''pending'', ''failed''} \<and> er_processed_at r' = None"
    by (intro unprocessed_event_is_kept [of sample_vars "''d1''" ?s ?t "event_row_of ev_queued"])
       (simp_all add: NewEventOrderingService_def sample_waiting)
  then show ?thesis by (auto simp: NewEventOrderingService_def)
qed


section \<open>A run announced to a client\<close>

text \<open>A server with one connected browser.\<close>

definition sample_watched :: world where
  "sample_watched = sample_world\<lparr>sse := Some (fst (subscribe InitSSEHandler))\<rparr>"


section \<open>Stopping a service\<close>


end
