(* ===== verification/Json_Marshal.thy ===== *)
theory Json_Marshal
  imports Json_Labels
begin

text \<open>
  \<open>json.Marshal\<close>: the value a Go value stands for and its text, and the theorem that \<open>Unmarshal\<close>
  reads the text of a value as that value.  Which struct becomes which object is said where the
  structs are (\<open>Models_Wire\<close>).
\<close>

section \<open>Values and their text\<close>

datatype jval =
    VNull
  | VBool bool
  | VInt int
  | VStr string
  | VArr "jval list"
  | VObj "(string \<times> jval) list"

fun render :: "jval \<Rightarrow> string" where
  "render VNull = ''null''"
| "render (VBool b) = (if b then ''true'' else ''false'')"
| "render (VInt i) = go_itoa i"
| "render (VStr s) = quote_string s"
| "render (VArr vs) = CHR ''['' # join_comma (map render vs) @ '']''"
| "render (VObj kvs) = CHR ''{'' # join_comma (map (\<lambda>(k, v). quote_string k @ CHR '':'' # render v) kvs) @ ''}''"

text \<open>The value the decoder sees, the tokens of the text, and what the text needs.\<close>

fun json_of :: "jval \<Rightarrow> json" where
  "json_of VNull = JNull"
| "json_of (VBool b) = JBool b"
| "json_of (VInt i) = JNum (go_itoa i)"
| "json_of (VStr s) = JStr (escape_string s)"
| "json_of (VArr vs) = JArr (map json_of vs)"
| "json_of (VObj kvs) = JObj (map (\<lambda>(k, v). (escape_string k, json_of v)) kvs)"

fun sep_comma :: "token list list \<Rightarrow> token list" where
  "sep_comma [] = []"
| "sep_comma [ts] = ts"
| "sep_comma (ts # tss) = ts @ TComma # sep_comma tss"

fun tokens :: "jval \<Rightarrow> token list" where
  "tokens VNull = [TNull]"
| "tokens (VBool b) = [if b then TTrue else TFalse]"
| "tokens (VInt i) = [TNum (go_itoa i)]"
| "tokens (VStr s) = [TStr (escape_string s)]"
| "tokens (VArr vs) = TLBrack # sep_comma (map tokens vs) @ [TRBrack]"
| "tokens (VObj kvs) =
     TLBrace # sep_comma (map (\<lambda>(k, v). TStr (escape_string k) # TColon # tokens v) kvs) @ [TRBrace]"

fun ascii_value :: "jval \<Rightarrow> bool" where
  "ascii_value (VStr s) = ascii s"
| "ascii_value (VArr vs) = list_all ascii_value vs"
| "ascii_value (VObj kvs) = list_all (\<lambda>(k, v). ascii k \<and> ascii_value v) kvs"
| "ascii_value v = True"

fun depth :: "jval \<Rightarrow> nat" where
  "depth (VArr vs) = Suc (foldr max (map depth vs) 0)"
| "depth (VObj kvs) = Suc (foldr max (map (\<lambda>(k, v). depth v) kvs) 0)"
| "depth v = 0"

section \<open>Reading the text\<close>

lemma go_utoa_nonempty: "go_utoa n \<noteq> []"
  by (subst go_utoa.simps) simp

lemma go_utoa_zero: "go_utoa n = CHR ''0'' # s \<Longrightarrow> n = 0 \<and> s = []"
proof (induction n arbitrary: s rule: go_utoa.induct)
  case (1 n)
  show ?case
  proof (cases "n < 10")
    case True
    then have "digit_char n = digit_char 0" "s = []" using "1.prems" by (simp_all add: utoa_1 zero_digit)
    with True show ?thesis by (simp add: digit_char_inj)
  next
    case False
    then have "go_utoa n = go_utoa (n div 10) @ [digit_char (n mod 10)]" by (intro utoa_step) simp
    with "1.prems" obtain t where "go_utoa (n div 10) = CHR ''0'' # t"
      by (cases "go_utoa (n div 10)") (simp_all add: go_utoa_nonempty)
    with "1.IH" [OF False] False show ?thesis by (auto simp: div_eq_0_iff)
  qed
qed

text \<open>What may follow a value inside a document.\<close>

definition delimited :: "string \<Rightarrow> bool" where
  "delimited r \<longleftrightarrow> (\<forall>c s. r = c # s \<longrightarrow> c \<in> {CHR '','', CHR '']'', CHR ''}''})"

lemma delimited_simps [simp]:
  "delimited []" "delimited (CHR '','' # s)" "delimited (CHR '']'' # s)" "delimited (CHR ''}'' # s)"
  by (simp_all add: delimited_def)

lemma delimited_stops:
  assumes "delimited r"
  shows "takeWhile is_digit r = []" "dropWhile is_digit r = r" "lex_frac r = Some ([], r)" "lex_exp r = Some ([], r)"
  using assms by (cases r; auto simp: delimited_def is_digit_def lex_frac_def lex_exp_def)+

lemma lex_int_utoa:
  assumes "delimited r"
  shows "lex_int (go_utoa n @ r) = Some (go_utoa n, r)"
proof -
  obtain c s where n: "go_utoa n = c # s" by (cases "go_utoa n") (simp_all add: go_utoa_nonempty)
  then have d: "is_digit c" "takeWhile is_digit (c # s @ r) = c # s" "dropWhile is_digit (c # s @ r) = r"
    using go_utoa_digits [of n] delimited_stops(1,2) [OF assms]
    by (auto simp: takeWhile_append2 dropWhile_append2)
  show ?thesis
  proof (cases "c = CHR ''0''")
    case True
    then show ?thesis using go_utoa_zero [of n s] n by (simp add: lex_int_def)
  next
    case False
    then show ?thesis using n d by (simp add: lex_int_def)
  qed
qed

lemma lex_number_itoa:
  assumes "delimited r"
  shows "lex_number (go_itoa i @ r) = Some (go_itoa i, r)"
proof -
  obtain c s where n: "go_utoa (nat i) = c # s" by (cases "go_utoa (nat i)") (simp_all add: go_utoa_nonempty)
  then have "c \<noteq> CHR ''-''" using go_utoa_not_minus by auto
  then show ?thesis
    using lex_int_utoa [OF assms, of "nat i"] lex_int_utoa [OF assms, of "nat (- i)"] delimited_stops(3,4) [OF assms]
    by (simp add: lex_number_def go_itoa_def n Let_def)
qed

lemma lex_punct [simp]:
  "lex (CHR '','' # s) = map_option (Cons TComma) (lex s)" "lex (CHR '':'' # s) = map_option (Cons TColon) (lex s)"
  "lex (CHR ''['' # s) = map_option (Cons TLBrack) (lex s)" "lex (CHR '']'' # s) = map_option (Cons TRBrack) (lex s)"
  "lex (CHR ''{'' # s) = map_option (Cons TLBrace) (lex s)" "lex (CHR ''}'' # s) = map_option (Cons TRBrace) (lex s)"
  by (simp_all add: is_space_def punct_def)

declare lex.simps(2) [simp del]

lemma lex_number_head:
  assumes "lex_number (c # s) = Some (n, t)" "is_digit c \<or> c = CHR ''-''"
  shows "lex (c # s) = map_option (Cons (TNum n)) (lex t)"
proof -
  have "\<not> is_space c" "punct c = None" "c \<noteq> quote_char"
    using assms(2) by (auto simp: is_space_def punct_def is_digit_def)
  moreover have "c \<notin> {CHR ''t'', CHR ''f'', CHR ''n''}" using assms(2) by (auto simp: is_digit_def)
  then have "literal_token (c # s) = None" by (auto simp: literal_token_def)
  ultimately show ?thesis using assms(1) by (simp add: lex.simps(2))
qed

lemma lex_itoa: "delimited r \<Longrightarrow> lex (go_itoa i @ r) = map_option (Cons (TNum (go_itoa i))) (lex r)"
proof -
  assume r: "delimited r"
  obtain c s where "go_itoa i = c # s" "is_digit c \<or> c = CHR ''-''"
  proof -
    obtain c s where "go_utoa (nat i) = c # s" by (cases "go_utoa (nat i)") (simp_all add: go_utoa_nonempty)
    moreover from this have "is_digit c" using go_utoa_digits [of "nat i"] by simp
    ultimately show thesis using that by (cases "i < 0") (simp_all add: go_itoa_def)
  qed
  then show ?thesis using lex_number_head [of c "s @ r"] lex_number_itoa [OF r, of i] by simp
qed

lemma lex_join:
  assumes "\<And>x r. x \<in> set xs \<Longrightarrow> delimited r \<Longrightarrow> lex (f x @ r) = map_option (append (g x)) (lex r)" "delimited r"
  shows "lex (join_comma (map f xs) @ r) = map_option (append (sep_comma (map g xs))) (lex r)"
  using assms(1)
proof (induction xs rule: induct_list012)
  case 1
  then show ?case by (simp add: option.map_ident)
next
  case (2 x)
  then show ?case using assms(2) by simp
next
  case (3 x y zs)
  have "lex (join_comma (map f (y # zs)) @ r) = map_option (append (sep_comma (map g (y # zs)))) (lex r)"
    by (rule "3.IH"(2)) (rule "3.prems", simp_all)
  then show ?case using "3.prems" [of x] by (simp add: option.map_comp comp_def)
qed

lemma lex_render: "ascii_value v \<Longrightarrow> delimited r \<Longrightarrow> lex (render v @ r) = map_option (append (tokens v)) (lex r)"
proof (induction v arbitrary: r)
  case VNull
  then show ?case by (simp add: lex.simps(2) is_space_def punct_def literal_token_def)
next
  case (VBool b)
  then show ?case
    by (simp add: lex.simps(2) is_space_def punct_def literal_token_def)
next
  case (VInt i)
  then show ?case using lex_itoa [of r i] by (simp add: comp_def)
next
  case (VStr s)
  then show ?case using lex_quoted [of s r] by (simp add: comp_def)
next
  case (VArr vs)
  then have "lex (join_comma (map render vs) @ CHR '']'' # r) =
      map_option (append (sep_comma (map tokens vs))) (lex (CHR '']'' # r))"
    by (intro lex_join) (auto simp: list_all_iff)
  then show ?case by (simp add: option.map_comp comp_def)
next
  case (VObj kvs)
  have "lex (join_comma (map (\<lambda>(k, v). quote_string k @ CHR '':'' # render v) kvs) @ CHR ''}'' # r) =
      map_option (append (sep_comma (map (\<lambda>(k, v). TStr (escape_string k) # TColon # tokens v) kvs))) (lex (CHR ''}'' # r))"
  proof (rule lex_join)
    fix x r'
    assume x: "x \<in> set kvs" and "delimited r'"
    obtain k v where kv: "x = (k, v)" by (cases x)
    then have "lex (render v @ r') = map_option (append (tokens v)) (lex r')" "ascii k"
      using VObj x \<open>delimited r'\<close> by (auto simp: list_all_iff)
    then show "lex ((case x of (k, v) \<Rightarrow> quote_string k @ CHR '':'' # render v) @ r') =
        map_option (append (case x of (k, v) \<Rightarrow> TStr (escape_string k) # TColon # tokens v)) (lex r')"
      by (simp add: kv lex_quoted option.map_comp comp_def fun_eq_iff [of "append (_ # _)"] cong: option.map_cong)
  qed simp
  then show ?case by (simp add: option.map_comp comp_def)
qed

section \<open>The parser on the tokens\<close>

lemma tokens_head: "\<exists>t ts. tokens v = t # ts \<and> t \<notin> {TRBrack, TRBrace, TComma, TColon}"
  by (cases v) auto

lemma first_element:
  "json_steps st MValOrEnd (tokens v @ ts) = json_steps st MVal (tokens v @ ts)"
proof -
  obtain t us where "tokens v = t # us" "t \<noteq> TRBrack" using tokens_head [of v] by auto
  then show ?thesis by (simp add: json_step_def)
qed

lemma steps_elements:
  assumes "\<And>v xs ts. v \<in> set vs \<Longrightarrow>
      json_steps (FArr xs # st) MVal (tokens v @ ts) = json_steps (FArr (json_of v # xs) # st) MArrNext ts" "vs \<noteq> []"
  shows "json_steps (FArr xs # st) MVal (sep_comma (map tokens vs) @ TRBrack # ts) =
    (case emit (JArr (rev xs @ map json_of vs)) st of (st', m) \<Rightarrow> json_steps st' m ts)"
  using assms
proof (induction vs arbitrary: xs rule: induct_list012)
  case (3 v v' vs)
  have "json_steps (FArr (json_of v # xs) # st) MVal (sep_comma (map tokens (v' # vs)) @ TRBrack # ts) =
      (case emit (JArr (rev (json_of v # xs) @ map json_of (v' # vs))) st of (st', m) \<Rightarrow> json_steps st' m ts)"
    by (rule "3.IH"(2)) (rule "3.prems", simp_all)
  then show ?case using "3.prems"(1) [of v] by (simp add: json_step_def)
qed (simp_all add: json_step_def split: prod.split)

lemma steps_members:
  assumes "\<And>k v ms ts. (k, v) \<in> set kvs \<Longrightarrow>
      json_steps (FObj ms (escape_string k) # st) MVal (tokens v @ ts) =
      json_steps (FObj ((escape_string k, json_of v) # ms) (escape_string k) # st) MObjNext ts" "kvs \<noteq> []"
    and "m = MKey \<or> m = MKeyOrEnd"
  shows "json_steps (FObj ms k0 # st) m
      (sep_comma (map (\<lambda>(k, v). TStr (escape_string k) # TColon # tokens v) kvs) @ TRBrace # ts) =
    (case emit (JObj (rev ms @ map (\<lambda>(k, v). (escape_string k, json_of v)) kvs)) st of (st', m) \<Rightarrow> json_steps st' m ts)"
  using assms
proof (induction kvs arbitrary: ms k0 m rule: induct_list012)
  case (2 x)
  then show ?case by (cases x) (auto simp: json_step_def split: prod.split)
next
  case (3 x y kvs)
  obtain k v where x: "x = (k, v)" by (cases x)
  have "json_steps (FObj ((escape_string k, json_of v) # ms) (escape_string k) # st) MKey
      (sep_comma (map (\<lambda>(k, v). TStr (escape_string k) # TColon # tokens v) (y # kvs)) @ TRBrace # ts) =
    (case emit (JObj (rev ((escape_string k, json_of v) # ms) @
       map (\<lambda>(k, v). (escape_string k, json_of v)) (y # kvs))) st of (st', m) \<Rightarrow> json_steps st' m ts)"
    by (rule "3.IH"(2)) (rule "3.prems", simp_all)
  then show ?case using "3.prems"(1) [of k v] "3.prems"(3) by (auto simp: x json_step_def)
qed simp

lemma foldr_max_ge: "n \<in> set ns \<Longrightarrow> n \<le> foldr max ns (0 :: nat)"
  by (induction ns) auto

lemma steps_tokens:
  "length st + depth v \<le> maxNestingDepth \<Longrightarrow>
   json_steps st MVal (tokens v @ ts) = (case emit (json_of v) st of (st', m) \<Rightarrow> json_steps st' m ts)"
proof (induction v arbitrary: st ts)
  case (VArr vs)
  have e: "json_steps (FArr xs # st) MVal (tokens v @ ts) = json_steps (FArr (json_of v # xs) # st) MArrNext ts"
    if "v \<in> set vs" for v xs ts
    using VArr.IH [OF that, of "FArr xs # st" ts] VArr.prems foldr_max_ge [of "depth v" "map depth vs"] that by simp
  show ?case
  proof (cases vs)
    case Nil
    then show ?thesis using VArr.prems by (simp add: json_step_def)
  next
    case (Cons v vs')
    obtain ts' where "sep_comma (map tokens vs) @ TRBrack # ts = tokens v @ ts'"
      using Cons by (cases vs') auto
    then have "json_steps (FArr [] # st) MValOrEnd (sep_comma (map tokens vs) @ TRBrack # ts) =
        json_steps (FArr [] # st) MVal (sep_comma (map tokens vs) @ TRBrack # ts)"
      by (simp add: first_element)
    also have "\<dots> = (case emit (JArr (rev [] @ map json_of vs)) st of (st', m) \<Rightarrow> json_steps st' m ts)"
      using Cons by (intro steps_elements e) simp_all
    finally show ?thesis using VArr.prems by (simp add: json_step_def)
  qed
next
  case (VObj kvs)
  have e: "json_steps (FObj ms (escape_string k) # st) MVal (tokens v @ ts) =
      json_steps (FObj ((escape_string k, json_of v) # ms) (escape_string k) # st) MObjNext ts"
    if "(k, v) \<in> set kvs" for k v ms ts
    using VObj.IH [OF that, of v "FObj ms (escape_string k) # st" ts] VObj.prems
      foldr_max_ge [of "depth v" "map (\<lambda>(k, v). depth v) kvs"] that by force
  show ?case
  proof (cases "kvs = []")
    case True
    then show ?thesis using VObj.prems by (simp add: json_step_def)
  next
    case False
    then show ?thesis
      using steps_members [OF e False, of MKeyOrEnd "[]" "[]" ts] VObj.prems by (simp add: json_step_def)
  qed
qed (auto simp: json_step_def split: prod.split)

theorem parse_render:
  assumes "ascii_value v" "depth v \<le> maxNestingDepth"
  shows "json_parse (render v) = Some (json_of v)"
  using lex_render [OF assms(1), of "[]"] steps_tokens [of "[]" v "[]"] assms(2) by (simp add: json_parse_def)

end
