(* ===== verification/Models_Wire.thy ===== *)
theory Models_Wire
  imports Json_Marshal Sse
begin

text \<open>
  What the structs of \<open>models/models.go\<close> become as JSON: the answers about runs and jobs, and the
  events of \<open>handlers/sse_handler.go\<close>.  A value that cannot be marshalled (a time outside the years
  \<open>json\<close> admits) is \<open>None\<close>.
\<close>

section \<open>Times\<close>

text \<open>\<open>time.RFC3339Nano\<close>: the fraction without its trailing zeros.\<close>

definition frac_text :: "int \<Rightarrow> string" where
  "frac_text nsec =
     (if nsec = 0 then []
      else CHR ''.'' # rev (dropWhile (\<lambda>c. c = CHR ''0'') (rev (append_int nsec 9))))"

definition format_RFC3339Nano :: "gotime \<Rightarrow> string" where
  "format_RFC3339Nano t = format_date_time (CHR ''T'') t @ frac_text (t_nsec t) @ format_zone (t_off t)"

definition time_value :: "gotime \<Rightarrow> jval option" where
  "time_value t = (if year4 t \<and> \<bar>t_off t\<bar> < 86400 then Some (VStr (format_RFC3339Nano t)) else None)"

section \<open>Structs\<close>

definition struct_value :: "(string \<times> jval option) list \<Rightarrow> jval option" where
  "struct_value ms =
     (if list_all (\<lambda>(k, v). v \<noteq> None) ms then Some (VObj (map (\<lambda>(k, v). (k, the v)) ms)) else None)"

text \<open>A slice of strings; the flag says whether an empty one is \<open>nil\<close>, which is written \<open>null\<close>.\<close>

definition strings_value :: "bool \<Rightarrow> string list \<Rightarrow> jval" where
  "strings_value nil ss = (if ss = [] \<and> nil then VNull else VArr (map VStr ss))"

definition job_value :: "bool \<Rightarrow> WorkflowJob \<Rightarrow> jval option" where
  "job_value nil job = struct_value
     [(''id'', Some (VInt (j_ID job))), (''name'', Some (VStr (j_Name job))),
      (''status'', Some (VStr (j_Status job))), (''labels'', Some (strings_value nil (j_Labels job))),
      (''html_url'', Some (VStr (j_HtmlUrl job))), (''conclusion'', Some (VStr (j_Conclusion job))),
      (''created_at'', time_value (j_CreatedAt job)), (''started_at'', time_value (j_StartedAt job)),
      (''completed_at'', time_value (j_CompletedAt job)), (''run_id'', Some (VInt (j_RunID job)))]"

definition run_value :: "WorkflowRun \<Rightarrow> jval option" where
  "run_value run = struct_value
     [(''id'', Some (VInt (r_ID run))), (''name'', Some (VStr (r_Name run))),
      (''status'', Some (VStr (r_Status run))), (''html_url'', Some (VStr (r_HtmlUrl run))),
      (''display_title'', Some (VStr (r_DisplayTitle run))), (''conclusion'', Some (VStr (r_Conclusion run))),
      (''created_at'', time_value (r_CreatedAt run)), (''run_started_at'', time_value (r_RunStartedAt run)),
      (''updated_at'', time_value (r_UpdatedAt run)), (''repository_name'', Some (VStr (r_RepositoryName run)))]"

text \<open>
  \<open>omitempty\<close> has no effect on a struct: both members of an update are always written.  The job of an
  update is never set, so its labels are \<open>nil\<close>.
\<close>

definition update_value :: "WorkflowUpdateEvent \<Rightarrow> jval option" where
  "update_value u = struct_value
     [(''type'', Some (VStr (wu_Type u))), (''action'', Some (VStr (wu_Action u))),
      (''id'', Some (VInt (wu_ID u))), (''status'', Some (VStr (wu_Status u))),
      (''timestamp'', Some (VStr (wu_Timestamp u))), (''workflow_job'', job_value True (wu_WorkflowJob u)),
      (''workflow_run'', run_value (wu_WorkflowRun u))]"

fun data_value :: "sse_data \<Rightarrow> jval option" where
  "data_value (WorkflowUpdate u) = update_value u"
| "data_value (MetricsUpdate running queued ts) = struct_value
     [(''running_jobs'', Some (VInt (int running))), (''queued_jobs'', Some (VInt (int queued))),
      (''timestamp'', Some (VStr ts))]"

text \<open>\<open>json.Marshal (event)\<close> of the stream.\<close>

definition marshal_event :: "SSEEvent \<Rightarrow> string option" where
  "marshal_event ev =
     map_option render (struct_value [(''type'', Some (VStr (sse_Type ev))), (''data'', data_value (sse_Data ev))])"

section \<open>The text of a time\<close>

definition plain_char :: "char \<Rightarrow> bool" where
  "plain_char c \<longleftrightarrow> c \<in> set ''0123456789-:TZ+.''"

lemma plain_escape: "plain_char c \<Longrightarrow> escape_byte c = [c] \<and> of_char c < (128 :: nat)"
proof -
  have "list_all (\<lambda>c. escape_byte c = [c] \<and> of_char c < (128 :: nat)) ''0123456789-:TZ+.''" by code_simp
  then show "plain_char c \<Longrightarrow> ?thesis" unfolding plain_char_def list_all_iff by blast
qed

lemma escape_plain: "list_all plain_char s \<Longrightarrow> escape_string s = s \<and> ascii s"
  by (induction s) (simp_all add: plain_escape ascii_def)

lemma digit_plain: "is_digit c \<Longrightarrow> plain_char c"
  by (auto simp: is_digit_def plain_char_def)

lemma append_int_plain: "list_all plain_char (append_int x w)"
  using go_utoa_digits [of "nat \<bar>x\<bar>"] digit_plain
  by (auto simp: append_int_def list_all_iff Let_def) (simp_all add: plain_char_def)

lemma format_plain: "list_all plain_char (format_RFC3339 t)"
  by (auto simp: format_RFC3339_def format_date_time_def format_zone_def append_int_plain Let_def plain_char_def
    split: prod.split)

lemma whole_seconds: "t_nsec t = 0 \<Longrightarrow> format_RFC3339Nano t = format_RFC3339 t"
  by (simp add: format_RFC3339Nano_def format_RFC3339_def frac_text_def)

text \<open>The times that are read back: four digits for the year, a zone of whole minutes, whole seconds.\<close>

definition plain_time :: "gotime \<Rightarrow> bool" where
  "plain_time t \<longleftrightarrow> year4 t \<and> zone_ok (t_off t) \<and> t_nsec t = 0"

lemma plain_time_value: "plain_time t \<Longrightarrow> time_value t = Some (VStr (format_RFC3339 t))"
  by (simp add: plain_time_def time_value_def zone_ok_def whole_seconds)

lemma decode_plain_time: "plain_time t \<Longrightarrow> decode_time cur (JStr (escape_string (format_RFC3339 t))) = Some t"
  using escape_plain [OF format_plain [of t]] parse_format_RFC3339 [of t]
  by (cases t) (simp add: decode_time_def plain_time_def)

section \<open>Reading a struct back\<close>

lemma key_matches_escaped: "ascii k \<Longrightarrow> key_matches n (escape_string k) \<longleftrightarrow> fold_name k = fold_name n"
  by (simp add: key_matches_def unquote_escaped)

lemma decode_int_back: "in_int64 i \<Longrightarrow> decode_int64 cur (JNum (go_itoa i)) = Some i"
proof -
  have "int_literal (go_itoa i) = Some i"
    using go_utoa_digits [of "nat i"] go_utoa_digits [of "nat (- i)"] go_utoa_nonempty [of "nat i"]
      go_utoa_nonempty [of "nat (- i)"] go_utoa_not_minus [of "nat i"] digits_val_utoa [of "nat i"]
    by (cases "go_utoa (nat i)") (auto simp: int_literal_def go_itoa_def Let_def)
  then show "in_int64 i \<Longrightarrow> decode_int64 cur (JNum (go_itoa i)) = Some i" by (simp add: decode_int64_def)
qed

lemma decode_string_back: "ascii s \<Longrightarrow> decode_string cur (JStr (escape_string s)) = Some s"
  by (simp add: decode_string_def unquote_escaped)

lemma decode_strings_back:
  "\<forall>s \<in> set ss. ascii s \<Longrightarrow> decode_strings [] (json_of (strings_value nil ss)) = Some ss"
  by (simp add: decode_strings_def strings_value_def decode_escaped comp_def)

text \<open>The names of all members are told apart by the matching of keys, which ignores case.\<close>

definition member_names :: "string list" where
  "member_names =
     [''id'', ''name'', ''status'', ''labels'', ''html_url'', ''conclusion'', ''created_at'', ''started_at'',
      ''completed_at'', ''run_id'', ''display_title'', ''run_started_at'', ''updated_at'', ''repository_name'',
      ''action'', ''workflow_job'', ''workflow_run'', ''repository'', ''url'', ''type'', ''timestamp'', ''data'']"

lemma member_names_distinct: "distinct (map fold_name member_names)" "list_all ascii member_names"
  by (code_simp, simp add: member_names_def ascii_def)

lemma member_key:
  "k \<in> set member_names \<Longrightarrow> n \<in> set member_names \<Longrightarrow> key_matches n (escape_string k) \<longleftrightarrow> k = n"
  using member_names_distinct by (auto simp: key_matches_escaped list_all_iff distinct_map inj_on_def)

lemma member_ascii: "k \<in> set member_names \<Longrightarrow> ascii k"
  using member_names_distinct(2) by (simp add: list_all_iff)

lemma lookup_member:
  assumes "k \<in> set member_names" "set (map fst fs) \<subseteq> set member_names"
  shows "lookup_field fs (escape_string k) = map_of fs k"
  using assms by (induction fs) (auto simp: member_key)

lemmas read_back_rules = decode_members.simps field_decoder_def decode_int_back decode_string_back decode_plain_time

definition plain_job :: "WorkflowJob \<Rightarrow> bool" where
  "plain_job job \<longleftrightarrow>
     in_int64 (j_ID job) \<and> in_int64 (j_RunID job) \<and> ascii (j_Name job) \<and> ascii (j_Status job) \<and>
     (\<forall>l \<in> set (j_Labels job). ascii l) \<and> ascii (j_HtmlUrl job) \<and> ascii (j_Conclusion job) \<and>
     plain_time (j_CreatedAt job) \<and> plain_time (j_StartedAt job) \<and> plain_time (j_CompletedAt job)"

definition plain_run :: "WorkflowRun \<Rightarrow> bool" where
  "plain_run run \<longleftrightarrow>
     in_int64 (r_ID run) \<and> ascii (r_Name run) \<and> ascii (r_Status run) \<and> ascii (r_HtmlUrl run) \<and>
     ascii (r_DisplayTitle run) \<and> ascii (r_Conclusion run) \<and> plain_time (r_CreatedAt run) \<and>
     plain_time (r_RunStartedAt run) \<and> plain_time (r_UpdatedAt run) \<and> ascii (r_RepositoryName run)"

lemma job_members: "set (map fst job_fields) \<subseteq> set member_names"
  by (simp add: job_fields_def member_names_def)

lemma run_members: "set (map fst run_fields) \<subseteq> set member_names"
  by (simp add: run_fields_def member_names_def)

lemma repository_members: "set (map fst repository_fields) \<subseteq> set member_names"
  by (simp add: repository_fields_def member_names_def)

lemma job_event_members: "set (map fst job_event_fields) \<subseteq> set member_names"
  by (simp add: job_event_fields_def member_names_def)

lemma run_event_members: "set (map fst run_event_fields) \<subseteq> set member_names"
  by (simp add: run_event_fields_def member_names_def)

lemma job_lookups:
  "lookup_field job_fields (escape_string ''id'') = Some (field_decoder decode_int64 j_ID (\<lambda>x. j_ID_update (\<lambda>_. x)))"
  "lookup_field job_fields (escape_string ''name'') = Some (field_decoder decode_string j_Name (\<lambda>x. j_Name_update (\<lambda>_. x)))"
  "lookup_field job_fields (escape_string ''status'') = Some (field_decoder decode_string j_Status (\<lambda>x. j_Status_update (\<lambda>_. x)))"
  "lookup_field job_fields (escape_string ''labels'') = Some (field_decoder decode_strings j_Labels (\<lambda>x. j_Labels_update (\<lambda>_. x)))"
  "lookup_field job_fields (escape_string ''html_url'') = Some (field_decoder decode_string j_HtmlUrl (\<lambda>x. j_HtmlUrl_update (\<lambda>_. x)))"
  "lookup_field job_fields (escape_string ''conclusion'') = Some (field_decoder decode_string j_Conclusion (\<lambda>x. j_Conclusion_update (\<lambda>_. x)))"
  "lookup_field job_fields (escape_string ''created_at'') = Some (field_decoder decode_time j_CreatedAt (\<lambda>x. j_CreatedAt_update (\<lambda>_. x)))"
  "lookup_field job_fields (escape_string ''started_at'') = Some (field_decoder decode_time j_StartedAt (\<lambda>x. j_StartedAt_update (\<lambda>_. x)))"
  "lookup_field job_fields (escape_string ''completed_at'') = Some (field_decoder decode_time j_CompletedAt (\<lambda>x. j_CompletedAt_update (\<lambda>_. x)))"
  "lookup_field job_fields (escape_string ''run_id'') = Some (field_decoder decode_int64 j_RunID (\<lambda>x. j_RunID_update (\<lambda>_. x)))"
  by (subst lookup_member [OF _ job_members], simp add: member_names_def, simp add: job_fields_def)+

lemma run_lookups:
  "lookup_field run_fields (escape_string ''id'') = Some (field_decoder decode_int64 r_ID (\<lambda>x. r_ID_update (\<lambda>_. x)))"
  "lookup_field run_fields (escape_string ''name'') = Some (field_decoder decode_string r_Name (\<lambda>x. r_Name_update (\<lambda>_. x)))"
  "lookup_field run_fields (escape_string ''status'') = Some (field_decoder decode_string r_Status (\<lambda>x. r_Status_update (\<lambda>_. x)))"
  "lookup_field run_fields (escape_string ''html_url'') = Some (field_decoder decode_string r_HtmlUrl (\<lambda>x. r_HtmlUrl_update (\<lambda>_. x)))"
  "lookup_field run_fields (escape_string ''display_title'') = Some (field_decoder decode_string r_DisplayTitle (\<lambda>x. r_DisplayTitle_update (\<lambda>_. x)))"
  "lookup_field run_fields (escape_string ''conclusion'') = Some (field_decoder decode_string r_Conclusion (\<lambda>x. r_Conclusion_update (\<lambda>_. x)))"
  "lookup_field run_fields (escape_string ''created_at'') = Some (field_decoder decode_time r_CreatedAt (\<lambda>x. r_CreatedAt_update (\<lambda>_. x)))"
  "lookup_field run_fields (escape_string ''run_started_at'') = Some (field_decoder decode_time r_RunStartedAt (\<lambda>x. r_RunStartedAt_update (\<lambda>_. x)))"
  "lookup_field run_fields (escape_string ''updated_at'') = Some (field_decoder decode_time r_UpdatedAt (\<lambda>x. r_UpdatedAt_update (\<lambda>_. x)))"
  "lookup_field run_fields (escape_string ''repository_name'') = Some (field_decoder decode_string r_RepositoryName (\<lambda>x. r_RepositoryName_update (\<lambda>_. x)))"
  by (subst lookup_member [OF _ run_members], simp add: member_names_def, simp add: run_fields_def)+

lemma repository_lookups:
  "lookup_field repository_fields (escape_string ''name'') = Some (field_decoder decode_string repo_Name (\<lambda>x. repo_Name_update (\<lambda>_. x)))"
  "lookup_field repository_fields (escape_string ''url'') = Some (field_decoder decode_string repo_Url (\<lambda>x. repo_Url_update (\<lambda>_. x)))"
  by (subst lookup_member [OF _ repository_members], simp add: member_names_def, simp add: repository_fields_def)+

lemma job_event_lookups:
  "lookup_field job_event_fields (escape_string ''action'') = Some (field_decoder decode_string je_Action (\<lambda>x. je_Action_update (\<lambda>_. x)))"
  "lookup_field job_event_fields (escape_string ''workflow_job'') = Some (field_decoder (decode_struct (lookup_field job_fields)) je_WorkflowJob (\<lambda>x. je_WorkflowJob_update (\<lambda>_. x)))"
  by (subst lookup_member [OF _ job_event_members], simp add: member_names_def, simp add: job_event_fields_def)+

lemma run_event_lookups:
  "lookup_field run_event_fields (escape_string ''action'') = Some (field_decoder decode_string re_Action (\<lambda>x. re_Action_update (\<lambda>_. x)))"
  "lookup_field run_event_fields (escape_string ''repository'') = Some (field_decoder (decode_struct (lookup_field repository_fields)) re_Repository (\<lambda>x. re_Repository_update (\<lambda>_. x)))"
  "lookup_field run_event_fields (escape_string ''workflow_run'') = Some (field_decoder (decode_struct (lookup_field run_fields)) re_WorkflowRun (\<lambda>x. re_WorkflowRun_update (\<lambda>_. x)))"
  by (subst lookup_member [OF _ run_event_members], simp add: member_names_def, simp add: run_event_fields_def)+

lemma strings_depth: "foldr max (map (depth \<circ> VStr) ss) 0 = 0"
  by (induction ss) simp_all

lemma job_reads_back:
  assumes "plain_job job"
  shows "\<exists>v. job_value nil job = Some v \<and> ascii_value v \<and> depth v \<le> 2 \<and>
    decode_struct (lookup_field job_fields) zero_job (json_of v) = Some job"
proof -
  have "job_value nil job \<noteq> None"
    using assms by (simp add: job_value_def struct_value_def plain_job_def plain_time_value)
  then obtain v where v: "job_value nil job = Some v" by blast
  have l: "ascii_value (strings_value nil (j_Labels job))" "depth (strings_value nil (j_Labels job)) \<le> 1"
    using assms by (auto simp: strings_value_def plain_job_def list_all_iff strings_depth)
  have "ascii_value v \<and> depth v \<le> 2"
    using v l assms escape_plain [OF format_plain]
    by (auto simp: job_value_def struct_value_def plain_job_def plain_time_value ascii_def split: if_splits)
  moreover have "map_option (\<lambda>v. decode_struct (lookup_field job_fields) zero_job (json_of v)) (job_value nil job) = Some (Some job)"
    using assms decode_strings_back [of "j_Labels job" nil]
    by (cases job) (simp add: job_value_def struct_value_def plain_job_def plain_time_value decode_struct_def
      job_lookups read_back_rules zero_job_def del: escape_string.simps)
  ultimately show ?thesis using v by auto
qed

lemma run_reads_back:
  assumes "plain_run run"
  shows "\<exists>v. run_value run = Some v \<and> ascii_value v \<and> depth v \<le> 1 \<and>
    decode_struct (lookup_field run_fields) zero_run (json_of v) = Some run"
proof -
  have "run_value run \<noteq> None"
    using assms by (simp add: run_value_def struct_value_def plain_run_def plain_time_value)
  then obtain v where v: "run_value run = Some v" by blast
  have "ascii_value v \<and> depth v \<le> 1"
    using v assms escape_plain [OF format_plain]
    by (auto simp: run_value_def struct_value_def plain_run_def plain_time_value ascii_def split: if_splits)
  moreover have "map_option (\<lambda>v. decode_struct (lookup_field run_fields) zero_run (json_of v)) (run_value run) = Some (Some run)"
    using assms
    by (cases run) (simp add: run_value_def struct_value_def plain_run_def plain_time_value decode_struct_def
      run_lookups read_back_rules zero_run_def del: escape_string.simps)
  ultimately show ?thesis using v by auto
qed

lemma plain_zero_job: "plain_job zero_job"
proof -
  have "plain_time zero_time" by code_simp
  then show ?thesis by (simp add: plain_job_def zero_job_def ascii_def in_int64_def)
qed

text \<open>
  A frame of the stream: the run of an update comes back as it is, and beside it, always, the empty job,
  as \<open>omitempty\<close> does not leave out a struct.
\<close>

lemma update_frame:
  assumes "plain_run (wu_WorkflowRun u)" "wu_WorkflowJob u = zero_job" "ascii (wu_Type u)" "ascii (wu_Action u)"
    "ascii (wu_Status u)" "ascii (wu_Timestamp u)"
  shows "\<exists>txt ms r j. marshal_event \<lparr>sse_Type = ''workflow_update'', sse_Data = WorkflowUpdate u\<rparr> = Some txt \<and>
    json_parse txt = Some (JObj [(''type'', JStr ''workflow_update''), (''data'', JObj ms)]) \<and>
    (''workflow_run'', r) \<in> set ms \<and> decode_struct (lookup_field run_fields) zero_run r = Some (wu_WorkflowRun u) \<and>
    (''workflow_job'', j) \<in> set ms \<and> decode_struct (lookup_field job_fields) zero_job j = Some zero_job"
proof -
  obtain j where j: "job_value True zero_job = Some j" "ascii_value j" "depth j \<le> 2"
    "decode_struct (lookup_field job_fields) zero_job (json_of j) = Some zero_job"
    using job_reads_back [OF plain_zero_job] by blast
  obtain r where r: "run_value (wu_WorkflowRun u) = Some r" "ascii_value r" "depth r \<le> 1"
    "decode_struct (lookup_field run_fields) zero_run (json_of r) = Some (wu_WorkflowRun u)"
    using run_reads_back [OF assms(1)] by blast
  let ?ms = "[(''type'', VStr (wu_Type u)), (''action'', VStr (wu_Action u)), (''id'', VInt (wu_ID u)),
    (''status'', VStr (wu_Status u)), (''timestamp'', VStr (wu_Timestamp u)), (''workflow_job'', j), (''workflow_run'', r)]"
  let ?v = "VObj [(''type'', VStr ''workflow_update''), (''data'', VObj ?ms)]"
  have m: "marshal_event \<lparr>sse_Type = ''workflow_update'', sse_Data = WorkflowUpdate u\<rparr> = Some (render ?v)"
    by (simp add: marshal_event_def update_value_def struct_value_def j(1) r(1) assms(2) del: render.simps)
  have names: "list_all ascii [''type'', ''data'', ''workflow_update'', ''action'', ''id'', ''status'', ''timestamp'',
      ''workflow_job'', ''workflow_run'']" by (simp add: ascii_def)
  have "json_parse (render ?v) = Some (json_of ?v)"
    using names assms(3-6) j(2,3) r(2,3) by (intro parse_render) (simp_all add: maxNestingDepth_def)
  moreover have esc: "escape_string ''type'' = ''type''" "escape_string ''data'' = ''data''"
    "escape_string ''workflow_update'' = ''workflow_update''" "escape_string ''workflow_job'' = ''workflow_job''"
    "escape_string ''workflow_run'' = ''workflow_run''" by code_simp+
  ultimately have "json_parse (render ?v) = Some (JObj [(''type'', JStr ''workflow_update''),
      (''data'', JObj (map (\<lambda>(k, v). (escape_string k, json_of v)) ?ms))])"
    by (simp del: escape_string.simps render.simps)
  moreover have "(''workflow_run'', json_of r) \<in> set (map (\<lambda>(k, v). (escape_string k, json_of v)) ?ms)"
    "(''workflow_job'', json_of j) \<in> set (map (\<lambda>(k, v). (escape_string k, json_of v)) ?ms)"
    by (simp_all add: esc del: escape_string.simps)
  ultimately show ?thesis using m j(4) r(4) by blast
qed

section \<open>Properties\<close>


definition sample_wire_run :: WorkflowRun where
  "sample_wire_run = zero_run\<lparr>r_ID := 9, r_Name := ''build & test'', r_Status := ''completed'',
     r_CreatedAt := \<lparr>t_sec = 1709294400, t_nsec = 0, t_off = 3600\<rparr>\<rparr>"


end
