(* ===== verification/Sse_Stream.thy ===== *)
theory Sse_Stream
  imports Models_Wire "HOL-Library.Sublist"
begin

text \<open>
  The stream of one client, \<open>HandleSSE\<close> of \<open>handlers/sse_handler.go\<close>: the greeting, the loop over the
  client's channel, the keep-alive ticker and the end of the connection, with what the rest of the
  server does to the registry in between.  The framing of \<open>c.SSEvent\<close> is the HTTP library's; a frame
  here is its event with the JSON it is sent as; an event that cannot be marshalled is skipped.
\<close>

section \<open>Definitions\<close>

datatype sse_frame =
    Connected string
  | EventFrame SSEEvent string
  | Ping string

text \<open>
  What the \<open>select\<close> of the client meets (an event of its channel, the ticker at a time, the end of the
  request), and what other goroutines do meanwhile: sends, the coalescer's tick with its iteration
  order, other clients.
\<close>

datatype stream_case =
    TakeEvent
  | KeepAlive gotime
  | ClientGone
  | OtherSubmit SSEEvent
  | OtherSend SSEEvent
  | OtherTick "SSEEvent list \<Rightarrow> SSEEvent list"
  | OtherConnect
  | OtherDisconnect nat
  | OtherReceive nat

fun stream_loop :: "nat \<Rightarrow> stream_case list \<Rightarrow> SSEHandler \<Rightarrow> SSEHandler \<times> sse_frame list \<times> bool" where
  "stream_loop i [] h = (h, [], False)"
| "stream_loop i (ClientGone # cs) h = (h, [], True)"
| "stream_loop i (KeepAlive t # cs) h =
     (case stream_loop i cs h of (h, fs, e) \<Rightarrow> (h, Ping (format_RFC3339 t) # fs, e))"
| "stream_loop i (TakeEvent # cs) h =
     (case receive i h of
        (h, None) \<Rightarrow> stream_loop i cs h
      | (h, Some ev) \<Rightarrow>
          (case stream_loop i cs h of
             (h, fs, e) \<Rightarrow> (h, (case marshal_event ev of None \<Rightarrow> fs | Some txt \<Rightarrow> EventFrame ev txt # fs), e)))"
| "stream_loop i (OtherSubmit ev # cs) h = stream_loop i cs (submit ev h)"
| "stream_loop i (OtherSend ev # cs) h = stream_loop i cs (fst (sendEventNow ev h))"
| "stream_loop i (OtherTick iter # cs) h = stream_loop i cs (fst (flush iter h))"
| "stream_loop i (OtherConnect # cs) h = stream_loop i cs (fst (subscribe h))"
| "stream_loop i (OtherDisconnect j # cs) h = stream_loop i cs (if j = i then h else unsubscribe j h)"
| "stream_loop i (OtherReceive j # cs) h = stream_loop i cs (if j = i then h else fst (receive j h))"

definition HandleSSE :: "gotime \<Rightarrow> stream_case list \<Rightarrow> SSEHandler \<Rightarrow> SSEHandler \<times> sse_frame list" where
  "HandleSSE now cs h =
     (case subscribe h of (h, i) \<Rightarrow>
      case stream_loop i cs h of (h, fs, ended) \<Rightarrow>
        (if ended then unsubscribe i h else h, Connected (format_RFC3339 now) # fs))"

section \<open>What is broadcast\<close>

text \<open>The events sent to the subscribers while the loop runs, in order.\<close>

fun broadcasts :: "nat \<Rightarrow> stream_case list \<Rightarrow> SSEHandler \<Rightarrow> SSEEvent list" where
  "broadcasts i [] h = []"
| "broadcasts i (ClientGone # cs) h = []"
| "broadcasts i (KeepAlive t # cs) h = broadcasts i cs h"
| "broadcasts i (TakeEvent # cs) h = broadcasts i cs (fst (receive i h))"
| "broadcasts i (OtherSubmit ev # cs) h = broadcasts i cs (submit ev h)"
| "broadcasts i (OtherSend ev # cs) h = ev # broadcasts i cs (fst (sendEventNow ev h))"
| "broadcasts i (OtherTick iter # cs) h =
     (if pending h = [] then [] else iter (pending h)) @ broadcasts i cs (fst (flush iter h))"
| "broadcasts i (OtherConnect # cs) h = broadcasts i cs (fst (subscribe h))"
| "broadcasts i (OtherDisconnect j # cs) h = broadcasts i cs (if j = i then h else unsubscribe j h)"
| "broadcasts i (OtherReceive j # cs) h = broadcasts i cs (if j = i then h else fst (receive j h))"

fun event_of_frame :: "sse_frame \<Rightarrow> SSEEvent option" where
  "event_of_frame (EventFrame ev txt) = Some ev"
| "event_of_frame _ = None"

definition channel_of :: "nat \<Rightarrow> SSEHandler \<Rightarrow> SSEEvent list" where
  "channel_of i h = (case find_row sub_id i (subs h) of Some s \<Rightarrow> sub_ch s | None \<Rightarrow> [])"

section \<open>The channel of one client\<close>

lemma find_offer: "find_row sub_id i (map (offer ev) ss) = map_option (offer ev) (find_row sub_id i ss)"
  by (induction ss) auto

lemma channel_send:
  "channel_of i (fst (sendEventNow ev h)) = channel_of i h \<or>
   channel_of i (fst (sendEventNow ev h)) = channel_of i h @ [ev]"
  by (auto simp: channel_of_def sendEventNow_def find_offer offer_def split: option.split)

lemma channel_send_all: "\<exists>es. subseq es evs \<and> channel_of i (fst (send_all evs h)) = channel_of i h @ es"
proof (induction evs arbitrary: h)
  case Nil
  show ?case by simp
next
  case (Cons ev evs)
  obtain es where es: "subseq es evs"
    "channel_of i (fst (send_all evs (fst (sendEventNow ev h)))) = channel_of i (fst (sendEventNow ev h)) @ es"
    using Cons.IH by blast
  have "fst (send_all (ev # evs) h) = fst (send_all evs (fst (sendEventNow ev h)))"
    by (simp split: prod.split)
  with es channel_send [of i ev h] show ?case
    by (metis append.assoc append_Cons append_Nil subseq_Cons' subseq_Cons2 list_emb_Cons)
qed

lemma channel_flush:
  "\<exists>es. subseq es (if pending h = [] then [] else iter (pending h)) \<and>
     channel_of i (fst (flush iter h)) = channel_of i h @ es"
proof (cases "pending h = []")
  case True
  then show ?thesis by (simp add: flush_def)
next
  case False
  have "channel_of i (h\<lparr>pending := []\<rparr>) = channel_of i h" by (simp add: channel_of_def)
  with False channel_send_all [of "iter (pending h)" i "h\<lparr>pending := []\<rparr>"] show ?thesis
    by (simp add: flush_def)
qed

lemma find_channel_update:
  "find_row sub_id i (update_rows (\<lambda>x. sub_id x = j) (\<lambda>x. x\<lparr>sub_ch := evs\<rparr>) ss) =
     (if i = j then map_option (\<lambda>x. x\<lparr>sub_ch := evs\<rparr>) (find_row sub_id i ss) else find_row sub_id i ss)"
  by (induction ss) (auto simp: update_rows_def)

lemma channel_receive:
  "receive i h = (h', x) \<Longrightarrow> channel_of i h = (case x of None \<Rightarrow> [] | Some ev \<Rightarrow> [ev]) @ channel_of i h'"
  "j \<noteq> i \<Longrightarrow> channel_of i (fst (receive j h)) = channel_of i h"
  by (auto simp: receive_def channel_of_def find_channel_update split: option.splits list.splits)

lemma find_row_delete_other: "j \<noteq> i \<Longrightarrow> find_row key i (delete_rows (\<lambda>s. key s = j) ss) = find_row key i ss"
  by (induction ss) (auto simp: delete_rows_def)

lemma channel_others:
  "channel_of i (submit ev h) = channel_of i h" "channel_of i (fst (subscribe h)) = channel_of i h"
  "j \<noteq> i \<Longrightarrow> channel_of i (unsubscribe j h) = channel_of i h"
proof -
  show "channel_of i (submit ev h) = channel_of i h" by (simp add: channel_of_def submit_def)
  show "channel_of i (fst (subscribe h)) = channel_of i h"
    by (auto simp: channel_of_def subscribe_def find_row_append split: option.split)
  assume "j \<noteq> i"
  then have "find_row sub_id i (delete_rows (\<lambda>s. sub_id s = j) (subs h)) = find_row sub_id i (subs h)"
    by (rule find_row_delete_other)
  then show "channel_of i (unsubscribe j h) = channel_of i h" by (simp add: channel_of_def unsubscribe_def)
qed

lemma subseq_step:
  assumes "subseq xs (c @ es @ bs)" "subseq es new"
  shows "subseq xs (c @ new @ bs)"
  using assms(1) by (rule subseq_order.trans) (intro list_emb_append_mono assms(2) subseq_order.refl)

lemma stream_loop_order:
  "stream_loop i cs h = (h', fs, e) \<Longrightarrow>
   subseq (List.map_filter event_of_frame fs @ channel_of i h') (channel_of i h @ broadcasts i cs h)"
proof (induction i cs h arbitrary: h' fs e rule: stream_loop.induct)
  case (4 i cs h)
  obtain h1 x where r: "receive i h = (h1, x)" by (cases "receive i h")
  obtain h2 fs2 e2 where l: "stream_loop i cs h1 = (h2, fs2, e2)" by (cases "stream_loop i cs h1")
  note c = channel_receive(1) [OF r]
  show ?case
  proof (cases x)
    case None
    then show ?thesis using 4 r c by simp
  next
    case (Some ev)
    then have "subseq (List.map_filter event_of_frame fs2 @ channel_of i h2) (channel_of i h1 @ broadcasts i cs h1)"
      using 4(2) [OF r [symmetric] Some l] by simp
    then show ?thesis using Some 4(3) r c l by (auto simp: map_filter_simps list_emb_Cons split: option.split)
  qed
next
  case (6 i ev cs h)
  then have s: "subseq (List.map_filter event_of_frame fs @ channel_of i h')
      (channel_of i (fst (sendEventNow ev h)) @ broadcasts i cs (fst (sendEventNow ev h)))" by simp
  obtain es where "subseq es [ev]" "channel_of i (fst (sendEventNow ev h)) = channel_of i h @ es"
    using channel_send [of i ev h] by (metis append_Nil2 list_emb_Nil subseq_order.refl)
  with s subseq_step [of _ "channel_of i h" es _ "[ev]"] show ?case by simp
next
  case (7 i iter cs h)
  then have s: "subseq (List.map_filter event_of_frame fs @ channel_of i h')
      (channel_of i (fst (flush iter h)) @ broadcasts i cs (fst (flush iter h)))" by simp
  obtain es where "subseq es (if pending h = [] then [] else iter (pending h))"
    "channel_of i (fst (flush iter h)) = channel_of i h @ es"
    using channel_flush [of h iter i] by blast
  with s subseq_step [of _ "channel_of i h" es] show ?case by simp
qed (auto simp: channel_others channel_receive(2) map_filter_simps split: prod.splits)

section \<open>Properties\<close>

text \<open>C32: a client sees events in the order in which they were broadcast, none twice and none that was not
  broadcast while it was connected, however the other goroutines and clients interleave; and when its
  stream ends it is no longer registered.\<close>

theorem stream_in_order:
  assumes "sse_step\<^sup>*\<^sup>* InitSSEHandler h" "HandleSSE now cs h = (h', fs)"
  shows "subseq (List.map_filter event_of_frame fs) (broadcasts (next_sub h) cs (fst (subscribe h))) \<and>
    hd fs = Connected (format_RFC3339 now) \<and>
    (snd (snd (stream_loop (next_sub h) cs (fst (subscribe h)))) \<longrightarrow> next_sub h \<notin> sub_id ` set (subs h'))"
proof -
  let ?i = "next_sub h"
  have s: "subscribe h = (fst (subscribe h), ?i)" by (simp add: subscribe_def)
  obtain h1 fs1 e where l: "stream_loop ?i cs (fst (subscribe h)) = (h1, fs1, e)"
    by (cases "stream_loop ?i cs (fst (subscribe h))")
  have f: "fs = Connected (format_RFC3339 now) # fs1" "h' = (if e then unsubscribe ?i h1 else h1)"
    using assms(2) unfolding HandleSSE_def by (subst (asm) s, simp add: l)+
  have "find_row sub_id ?i (subs h) = None"
    using sse_wf_reachable [OF assms(1)] by (auto simp: find_row_None sse_wf_def)
  then have "channel_of ?i (fst (subscribe h)) = []"
    unfolding channel_others by (simp add: channel_of_def)
  then have "subseq (List.map_filter event_of_frame fs1 @ channel_of ?i h1) (broadcasts ?i cs (fst (subscribe h)))"
    using stream_loop_order [OF l] by simp
  then have "subseq (List.map_filter event_of_frame fs1) (broadcasts ?i cs (fst (subscribe h)))"
    by (rule subseq_order.trans [rotated]) (simp add: list_emb_prefix)
  then show ?thesis by (auto simp: f l map_filter_simps unsubscribe_def)
qed

theorem stream_in_order_witness:
  "List.map_filter event_of_frame (snd (HandleSSE zero_time
      [OtherSubmit (hd sample_updates), OtherSubmit (last sample_updates), OtherTick rev, TakeEvent,
       KeepAlive zero_time, TakeEvent, ClientGone] InitSSEHandler)) = [last sample_updates] \<and>
   subseq (List.map_filter event_of_frame (snd (HandleSSE zero_time
      [OtherSubmit (hd sample_updates), OtherSubmit (last sample_updates), OtherTick rev, TakeEvent,
       KeepAlive zero_time, TakeEvent, ClientGone] InitSSEHandler))) [last sample_updates]"
proof -
  let ?cs = "[OtherSubmit (hd sample_updates), OtherSubmit (last sample_updates), OtherTick rev, TakeEvent,
       KeepAlive zero_time, TakeEvent, ClientGone]"
  obtain h' fs where r: "HandleSSE zero_time ?cs InitSSEHandler = (h', fs)" by (cases "HandleSSE zero_time ?cs InitSSEHandler")
  have "broadcasts (next_sub InitSSEHandler) ?cs (fst (subscribe InitSSEHandler)) = [last sample_updates]"
    by (simp add: sample_updates_def InitSSEHandler_def subscribe_def submit_def upsert_row_def)
  moreover have "List.map_filter event_of_frame fs = [last sample_updates]"
    using r by (auto simp: HandleSSE_def sample_updates_def InitSSEHandler_def subscribe_def submit_def upsert_row_def
        flush_def sendEventNow_def offer_def subscriberBufferSize_def receive_def update_rows_def
        marshal_event_def struct_value_def)
  ultimately show ?thesis using stream_in_order [OF rtranclp.rtrancl_refl r] r by simp
qed

end
