(* ===== verification/Registry.thy ===== *)
theory Registry
  imports Maintenance Sql_Groups
begin

text \<open>
  The Prometheus registry of \<open>pkg/metrics/metrics.go\<close>: the collectors \<open>NewRegistry\<close> creates and
  registers, and the value each operation leaves in them.  The other theories only log the
  operations (\<open>mlog\<close>); here the log is given its meaning as gauges and counters.
\<close>

section \<open>Collectors\<close>

datatype collector_kind = GaugeVec | Gauge | CounterVec | HistogramVec | Histogram

record collector =
  cl_Name :: string
  cl_Help :: string
  cl_Kind :: collector_kind
  cl_Labels :: "string list"
  cl_Buckets :: "rat list"

text \<open>\<open>prometheus.ExponentialBuckets (start, factor, count)\<close>.\<close>

definition ExponentialBuckets :: "rat \<Rightarrow> rat \<Rightarrow> nat \<Rightarrow> rat list" where
  "ExponentialBuckets start factor n = map (\<lambda>k. start * factor ^ k) [0..<n]"

definition NewRegistry :: "collector list" where
  "NewRegistry = map (\<lambda>(n, h, k, ls, bs). \<lparr>cl_Name = n, cl_Help = h, cl_Kind = k, cl_Labels = ls, cl_Buckets = bs\<rparr>)
     [(''github_runners_jobs'',
        ''Current number of jobs by status'',
        GaugeVec, [''job_status''], []),
      (''github_runners_jobs_by_label'',
        ''Current number of jobs by runner label and status'',
        GaugeVec, [''label'', ''job_status''], []),
      (''github_runners_queue_duration_seconds'',
        ''Time spent waiting in queue before job execution starts'',
        HistogramVec, [''label''], [1, 5, 10, 30, 60, 120, 300, 600, 1200, 1800, 3600]),
      (''github_runners_job_conclusions_total'',
        ''Total number of completed jobs by conclusion'',
        CounterVec, [''conclusion''], []),
      (''live_actions_webhook_events_total'',
        ''Total number of webhook deliveries received, partitioned by event type and outcome'',
        CounterVec, [''event_type'', ''outcome''], []),
      (''live_actions_ingest_queue_capacity'',
        ''Maximum number of events the in-memory ingest queue can buffer'',
        Gauge, [], []),
      (''live_actions_flush_batch_duration_seconds'',
        ''Wall time spent draining a single flushReadyEvents tick (one or more batches)'',
        Histogram, [], ExponentialBuckets (1 / 1000) 2 12),
      (''live_actions_flush_batch_events'',
        ''Number of events processed in a single flushReadyEvents tick'',
        Histogram, [], ExponentialBuckets 1 2 14),
      (''live_actions_sse_events_broadcast_total'',
        ''Total number of SSE events fanned out to subscribers (counts the broadcast, not per-subscriber sends)'',
        CounterVec, [''type''], []),
      (''live_actions_sse_events_dropped_total'',
        ''Total number of SSE events dropped because a subscriber'' @ [CHR 0x27] @ ''s per-connection buffer was full'',
        CounterVec, [''type''], [])]"

section \<open>Registration\<close>

text \<open>
  What is registered: the collectors of \<open>NewRegistry\<close>, gauges that call back into the server at a scrape
  (the state they read is the parameter \<open>'s\<close>), and the statistics of a connection pool, a collector of
  the client library.  Two entries with one identity exclude each other.
\<close>

datatype 's registered =
    Static collector
  | GaugeFunc collector "'s \<Rightarrow> nat"
  | DBStats string

datatype collector_id = Named string | Pool string

fun identity :: "'s registered \<Rightarrow> collector_id" where
  "identity (Static c) = Named (cl_Name c)"
| "identity (GaugeFunc c f) = Named (cl_Name c)"
| "identity (DBStats pool) = Pool pool"

text \<open>\<open>prometheus.Register\<close>: \<open>None\<close> is the error for a duplicate, on which \<open>MustRegister\<close> panics.\<close>

definition Register :: "'s registered \<Rightarrow> 's registered list \<Rightarrow> 's registered list option" where
  "Register e rs = (if identity e \<in> identity ` set rs then None else Some (rs @ [e]))"

fun MustRegister :: "'s registered list \<Rightarrow> 's registered list \<Rightarrow> 's registered list option" where
  "MustRegister [] rs = Some rs"
| "MustRegister (e # es) rs = (case Register e rs of None \<Rightarrow> None | Some rs' \<Rightarrow> MustRegister es rs')"

text \<open>\<open>GetRegistry\<close> creates the registry on its first call.\<close>

definition GetRegistry :: "'s registered list option \<Rightarrow> 's registered list option" where
  "GetRegistry global =
     (case global of None \<Rightarrow> MustRegister (map Static NewRegistry) [] | Some rs \<Rightarrow> Some rs)"

text \<open>The registrations of the start ignore the error.\<close>

definition register_quietly :: "'s registered \<Rightarrow> 's registered list \<Rightarrow> 's registered list" where
  "register_quietly e rs = (case Register e rs of None \<Rightarrow> rs | Some rs' \<Rightarrow> rs')"

definition RegisterIngestQueueDepth :: "('s \<Rightarrow> nat) \<Rightarrow> 's registered list \<Rightarrow> 's registered list" where
  "RegisterIngestQueueDepth depth = register_quietly (GaugeFunc
     \<lparr>cl_Name = ''live_actions_ingest_queue_depth'',
      cl_Help = ''Current number of events buffered in the in-memory ingest queue'',
      cl_Kind = Gauge, cl_Labels = [], cl_Buckets = []\<rparr> depth)"

definition RegisterSSESubscribers :: "('s \<Rightarrow> nat) \<Rightarrow> 's registered list \<Rightarrow> 's registered list" where
  "RegisterSSESubscribers clients = register_quietly (GaugeFunc
     \<lparr>cl_Name = ''live_actions_sse_subscribers'', cl_Help = ''Current number of connected SSE clients'',
      cl_Kind = Gauge, cl_Labels = [], cl_Buckets = []\<rparr> clients)"

definition RegisterDBStats :: "string \<Rightarrow> 's registered list \<Rightarrow> 's registered list" where
  "RegisterDBStats pool = register_quietly (DBStats pool)"

text \<open>The value a scrape in state \<open>s\<close> reads from a gauge that calls back.\<close>

fun gauge_value :: "string \<Rightarrow> 's registered list \<Rightarrow> 's \<Rightarrow> nat option" where
  "gauge_value n [] s = None"
| "gauge_value n (GaugeFunc c f # rs) s = (if cl_Name c = n then Some (f s) else gauge_value n rs s)"
| "gauge_value n (e # rs) s = gauge_value n rs s"

lemma MustRegister_distinct:
  "distinct (map identity es) \<Longrightarrow> identity ` set es \<inter> identity ` set rs = {} \<Longrightarrow> MustRegister es rs = Some (rs @ es)"
  by (induction es arbitrary: rs) (auto simp: Register_def)

lemma registry_names: "distinct (map cl_Name NewRegistry)"
  by (simp add: NewRegistry_def)

lemma registration_succeeds: "GetRegistry None = Some (map Static NewRegistry)"
proof -
  have "distinct (map (\<lambda>c. Named (cl_Name c)) NewRegistry)"
    using registry_names by (simp add: distinct_map inj_on_def)
  then show ?thesis by (simp add: GetRegistry_def MustRegister_distinct comp_def)
qed

lemma gauge_value_append:
  "gauge_value n (rs @ rs') s = (case gauge_value n rs s of None \<Rightarrow> gauge_value n rs' s | Some v \<Rightarrow> Some v)"
proof (induction rs)
  case (Cons e rs)
  then show ?case by (cases e) simp_all
qed simp

lemma gauge_value_static: "gauge_value n (map Static cs) s = None"
  by (induction cs) simp_all

section \<open>Values\<close>

record registry =
  CurrentJobs :: "string \<rightharpoonup> nat"
  JobsByLabel :: "string \<times> string \<rightharpoonup> nat"
  QueueDurationSeconds :: "string \<Rightarrow> int list"
  JobConclusionsTotal :: "string \<Rightarrow> nat"
  WebhookEventsTotal :: "string \<times> string \<Rightarrow> nat"
  FlushBatchEvents :: "nat list"
  FlushBatchDurations :: nat
  SSEEventsBroadcastTotal :: "string \<Rightarrow> nat"
  SSEEventsDroppedTotal :: "string \<Rightarrow> nat"

definition empty_registry :: registry where
  "empty_registry =
     \<lparr>CurrentJobs = Map.empty, JobsByLabel = Map.empty, QueueDurationSeconds = (\<lambda>_. []),
      JobConclusionsTotal = (\<lambda>_. 0), WebhookEventsTotal = (\<lambda>_. 0), FlushBatchEvents = [],
      FlushBatchDurations = 0, SSEEventsBroadcastTotal = (\<lambda>_. 0), SSEEventsDroppedTotal = (\<lambda>_. 0)\<rparr>"

fun record_op :: "metric_op \<Rightarrow> registry \<Rightarrow> registry" where
  "record_op (WebhookEventsInc t oc) r =
     r\<lparr>WebhookEventsTotal := (WebhookEventsTotal r)((t, oc) := Suc (WebhookEventsTotal r (t, oc)))\<rparr>"
| "record_op (QueueDurationObserve l d) r =
     r\<lparr>QueueDurationSeconds := (QueueDurationSeconds r)(l := QueueDurationSeconds r l @ [d])\<rparr>"
| "record_op (JobConclusionInc c) r =
     r\<lparr>JobConclusionsTotal := (JobConclusionsTotal r)(c := Suc (JobConclusionsTotal r c))\<rparr>"
| "record_op (CurrentJobsSet st n) r = r\<lparr>CurrentJobs := (CurrentJobs r)(st \<mapsto> n)\<rparr>"
| "record_op JobsByLabelReset r = r\<lparr>JobsByLabel := Map.empty\<rparr>"
| "record_op (JobsByLabelSet l st n) r = r\<lparr>JobsByLabel := (JobsByLabel r)((l, st) \<mapsto> n)\<rparr>"
| "record_op (SSEBroadcastInc t) r =
     r\<lparr>SSEEventsBroadcastTotal := (SSEEventsBroadcastTotal r)(t := Suc (SSEEventsBroadcastTotal r t))\<rparr>"
| "record_op (SSEDroppedInc t) r =
     r\<lparr>SSEEventsDroppedTotal := (SSEEventsDroppedTotal r)(t := Suc (SSEEventsDroppedTotal r t))\<rparr>"
| "record_op (FlushBatchEventsObserve n) r = r\<lparr>FlushBatchEvents := FlushBatchEvents r @ [n]\<rparr>"
| "record_op FlushBatchDurationObserve r = r\<lparr>FlushBatchDurations := Suc (FlushBatchDurations r)\<rparr>"

text \<open>What a scrape of \<open>/metrics\<close> reads.\<close>

definition scrape :: "world \<Rightarrow> registry" where
  "scrape w = fold record_op (mlog w) empty_registry"

lemma scrape_emit: "scrape (emit ms w) = fold record_op ms (scrape w)"
  by (simp add: scrape_def)

section \<open>The label gauges after an update\<close>

lemma label_sets:
  "JobsByLabel (fold record_op (label_metrics lcs) r) =
     fold (\<lambda>lc m. m((lc_Label lc, ''in_progress'') \<mapsto> lc_Running lc, (lc_Label lc, ''queued'') \<mapsto> lc_Queued lc)) lcs (JobsByLabel r)"
  "CurrentJobs (fold record_op (label_metrics lcs) r) = CurrentJobs r"
  by (induction lcs arbitrary: r) (simp_all add: label_metrics_def)

lemma fold_label_maps:
  "distinct (map lc_Label lcs) \<Longrightarrow>
   fold (\<lambda>lc m. m((lc_Label lc, ''in_progress'') \<mapsto> lc_Running lc, (lc_Label lc, ''queued'') \<mapsto> lc_Queued lc)) lcs m (l, st) =
     (case find_row lc_Label l lcs of
        None \<Rightarrow> m (l, st)
      | Some lc \<Rightarrow> if st = ''in_progress'' then Some (lc_Running lc)
                   else if st = ''queued'' then Some (lc_Queued lc) else m (l, st))"
proof (induction lcs arbitrary: m)
  case Nil
  then show ?case by simp
next
  case (Cons lc lcs)
  have "lc_Label lc = l \<Longrightarrow> find_row lc_Label l lcs = None" using Cons.prems by (auto simp: find_row_None)
  then show ?case using Cons by (auto split: option.split)
qed

lemma find_label_counts:
  "find_row lc_Label l (label_counts rows) =
     (if \<exists>r \<in> set rows. active_row r \<and> first_label r = Some l
      then Some \<lparr>lc_Label = l,
           lc_Running = rows_affected (\<lambda>r. first_label r = Some l \<and> jr_status r = ''in_progress'') rows,
           lc_Queued = rows_affected (\<lambda>r. first_label r = Some l \<and> jr_status r = ''queued'') rows\<rparr>
      else None)"
proof -
  have find: "find_row lc_Label l (map (\<lambda>l. \<lparr>lc_Label = l, lc_Running = f l, lc_Queued = g l\<rparr>) ls) =
      (if l \<in> set ls then Some \<lparr>lc_Label = l, lc_Running = f l, lc_Queued = g l\<rparr> else None)" for f g ls
    by (induction ls) auto
  have "l \<in> set (sort (remdups (List.map_filter first_label (filter active_row rows)))) \<longleftrightarrow>
      (\<exists>r \<in> set rows. active_row r \<and> first_label r = Some l)"
    by (force simp: List.map_filter_def)
  then show ?thesis unfolding label_counts_def find by simp
qed

lemma label_counts_distinct: "distinct (map lc_Label (label_counts rows))"
  by (simp add: label_counts_def comp_def)

section \<open>Properties\<close>

text \<open>C34: after an update on a healthy engine a scrape shows the tables: the job gauges are the numbers of
  running and queued jobs, and the gauges per label are the counts of exactly the labels that have an
  active job; whatever was set before, nothing of it is left.\<close>

theorem gauges_mirror_tables:
  assumes "healthy w"
  defines "r \<equiv> scrape (updateMetrics w)"
  shows "CurrentJobs r ''in_progress'' = Some (rows_affected (\<lambda>r. jr_status r = ''in_progress'') (workflow_jobs w)) \<and>
    CurrentJobs r ''queued'' = Some (rows_affected (\<lambda>r. jr_status r = ''queued'') (workflow_jobs w)) \<and>
    JobsByLabel r (l, st) =
      (if (\<exists>j \<in> set (workflow_jobs w). active_row j \<and> first_label j = Some l) \<and> st \<in> {''in_progress'', ''queued''}
       then Some (rows_affected (\<lambda>j. first_label j = Some l \<and> jr_status j = st) (workflow_jobs w)) else None)"
proof -
  have "mlog (updateMetrics w) = mlog w @
      [CurrentJobsSet ''in_progress'' (rows_affected (\<lambda>r. jr_status r = ''in_progress'') (workflow_jobs w)),
       CurrentJobsSet ''queued'' (rows_affected (\<lambda>r. jr_status r = ''queued'') (workflow_jobs w)), JobsByLabelReset] @
      label_metrics (label_counts (workflow_jobs w))"
    using assms(1)
    by (simp add: updateMetrics_def GetCurrentJobCounts_def GetCurrentJobCountsByLabel_def query_rows_healthy
      fold_labels InsertMetricsSnapshot_def UpdateCurrentJobCounts_def ResetJobsByLabel_def Let_def)
  then show ?thesis
    by (auto simp: r_def scrape_def label_sets fold_label_maps [OF label_counts_distinct] find_label_counts)
qed

end
