(* ===== verification/Scrape.thy ===== *)
theory Scrape
  imports Registry Startup
begin

text \<open>
  The collectors \<open>SetupAndRun\<close> registers once the pools and the services exist (\<open>cmd/server/server.go\<close>),
  and what a scrape reads from them.
\<close>

text \<open>The registry of the process after the start; the gauges read the state of the ordering service.\<close>

definition subscriber_count :: "svc \<Rightarrow> nat" where
  "subscriber_count s = (case sse (wrld s) of None \<Rightarrow> 0 | Some h \<Rightarrow> SubscriberCount h)"

definition register_at_start :: "svc registered list \<Rightarrow> svc registered list" where
  "register_at_start =
     RegisterSSESubscribers subscriber_count \<circ> RegisterIngestQueueDepth IngestQueueLen \<circ>
     RegisterDBStats ''read'' \<circ> RegisterDBStats ''write''"

lemma registered_at_start:
  "map identity (register_at_start (map Static NewRegistry)) =
     map (Named \<circ> cl_Name) NewRegistry @ [Pool ''write'', Pool ''read'',
       Named ''live_actions_ingest_queue_depth'', Named ''live_actions_sse_subscribers'']"
  by (simp add: register_at_start_def RegisterSSESubscribers_def RegisterIngestQueueDepth_def RegisterDBStats_def
    register_quietly_def Register_def NewRegistry_def)

text \<open>A second start of the same process changes nothing: the gauges keep calling the first service.\<close>

lemma registering_again:
  "register_at_start (register_at_start (map Static NewRegistry)) = register_at_start (map Static NewRegistry)"
  by (simp add: register_at_start_def RegisterSSESubscribers_def RegisterIngestQueueDepth_def RegisterDBStats_def
    register_quietly_def Register_def NewRegistry_def)

text \<open>The depth a scrape shows tells whether the next delivery finds room.\<close>

lemma scraped_depth:
  assumes "svc_inv s"
  shows "\<exists>d. gauge_value ''live_actions_ingest_queue_depth'' (register_at_start (map Static NewRegistry)) s = Some d \<and>
    d \<le> IngestQueueCap s \<and> (has_room s \<longleftrightarrow> d < IngestQueueCap s)"
proof -
  have "gauge_value ''live_actions_ingest_queue_depth'' (register_at_start (map Static NewRegistry)) s =
      Some (IngestQueueLen s)"
    by (simp add: register_at_start_def RegisterSSESubscribers_def RegisterIngestQueueDepth_def RegisterDBStats_def
      register_quietly_def Register_def NewRegistry_def gauge_value_append)
  then show ?thesis using assms by (simp add: IngestQueueLen_def IngestQueueCap_def has_room_def svc_inv_def)
qed

end
