(* ===== verification/Shutdown.thy ===== *)
theory Shutdown
  imports Main
begin

text \<open>
  The end of the process, \<open>cmd/server/shutdown.go\<close> and the tail of \<open>SetupAndRun\<close>: the goroutine that
  waits for a signal, puts a token into a channel of capacity 1 and then calls \<open>server.Shutdown\<close>; the
  main goroutine, which leaves \<open>ListenAndServe\<close> when \<open>Shutdown\<close> has been called (or with an error),
  takes the token and stops the services one after the other; the HTTP requests and the relay.
  A request counts as in flight from its acceptance to its answer.
\<close>

section \<open>States and steps\<close>

datatype signal_pc = AwaitSignal | SendToken | CallShutdown | AwaitConnections | SignalDone

datatype main_pc =
    Listening | Waiting | CancelRelay | AwaitRelay | StopIngest | StopCleanup | StopMetrics | CloseDatabase
  | Exited nat

record process =
  main_at :: main_pc
  signal_at :: signal_pc
  shutdown_ch :: nat          \<comment> \<open>tokens in \<open>gs.shutdown\<close>\<close>
  listening :: bool           \<comment> \<open>the listener accepts connections\<close>
  in_flight :: nat
  relay_configured :: bool
  relay_cancelled :: bool
  relay_running :: bool
  ingest_running :: bool
  cleanup_running :: bool
  metrics_running :: bool
  database_open :: bool

definition start_process :: "bool \<Rightarrow> process" where
  "start_process relay =
     \<lparr>main_at = Listening, signal_at = AwaitSignal, shutdown_ch = 0, listening = True, in_flight = 0,
      relay_configured = relay, relay_cancelled = False, relay_running = relay, ingest_running = True,
      cleanup_running = True, metrics_running = True, database_open = True\<rparr>"

definition alive :: "process \<Rightarrow> bool" where
  "alive p \<longleftrightarrow> (case main_at p of Exited _ \<Rightarrow> False | _ \<Rightarrow> True)"

text \<open>\<open>IsShuttingDown\<close> receives from the channel: asking takes the token away.\<close>

definition IsShuttingDown :: "process \<Rightarrow> process \<times> bool" where
  "IsShuttingDown p = (if 0 < shutdown_ch p then (p\<lparr>shutdown_ch := shutdown_ch p - 1\<rparr>, True) else (p, False))"

inductive process_step :: "process \<Rightarrow> process \<Rightarrow> bool" where
  step_request: "alive p \<Longrightarrow> listening p \<Longrightarrow> process_step p (p\<lparr>in_flight := Suc (in_flight p)\<rparr>)"
| step_answer: "alive p \<Longrightarrow> in_flight p = Suc n \<Longrightarrow> process_step p (p\<lparr>in_flight := n\<rparr>)"
| step_relay_ends: "alive p \<Longrightarrow> relay_running p \<Longrightarrow> relay_cancelled p \<Longrightarrow> process_step p (p\<lparr>relay_running := False\<rparr>)"
| step_signal: "alive p \<Longrightarrow> signal_at p = AwaitSignal \<Longrightarrow> process_step p (p\<lparr>signal_at := SendToken\<rparr>)"
| step_token: "alive p \<Longrightarrow> signal_at p = SendToken \<Longrightarrow> shutdown_ch p < 1 \<Longrightarrow>
    process_step p (p\<lparr>shutdown_ch := Suc (shutdown_ch p), signal_at := CallShutdown\<rparr>)"
| step_shutdown: "alive p \<Longrightarrow> signal_at p = CallShutdown \<Longrightarrow>
    process_step p (p\<lparr>listening := False, signal_at := AwaitConnections\<rparr>)"
| step_drained: "alive p \<Longrightarrow> signal_at p = AwaitConnections \<Longrightarrow> in_flight p = 0 \<Longrightarrow>
    process_step p (p\<lparr>signal_at := SignalDone\<rparr>)"
| step_timeout: "alive p \<Longrightarrow> signal_at p = AwaitConnections \<Longrightarrow> process_step p (p\<lparr>signal_at := SignalDone\<rparr>)"
| step_listen_failed: "main_at p = Listening \<Longrightarrow> listening p \<Longrightarrow> process_step p (p\<lparr>main_at := Exited 1\<rparr>)"
| step_server_closed: "main_at p = Listening \<Longrightarrow> \<not> listening p \<Longrightarrow> process_step p (p\<lparr>main_at := Waiting\<rparr>)"
| step_wait: "main_at p = Waiting \<Longrightarrow> shutdown_ch p = Suc n \<Longrightarrow>
    process_step p (p\<lparr>shutdown_ch := n, main_at := (if relay_configured p then CancelRelay else StopIngest)\<rparr>)"
| step_cancel_relay: "main_at p = CancelRelay \<Longrightarrow> process_step p (p\<lparr>relay_cancelled := True, main_at := AwaitRelay\<rparr>)"
| step_relay_done: "main_at p = AwaitRelay \<Longrightarrow> \<not> relay_running p \<Longrightarrow> process_step p (p\<lparr>main_at := StopIngest\<rparr>)"
| step_stop_ingest: "main_at p = StopIngest \<Longrightarrow> process_step p (p\<lparr>ingest_running := False, main_at := StopCleanup\<rparr>)"
| step_stop_cleanup: "main_at p = StopCleanup \<Longrightarrow> process_step p (p\<lparr>cleanup_running := False, main_at := StopMetrics\<rparr>)"
| step_stop_metrics: "main_at p = StopMetrics \<Longrightarrow> process_step p (p\<lparr>metrics_running := False, main_at := CloseDatabase\<rparr>)"
| step_close: "main_at p = CloseDatabase \<Longrightarrow> process_step p (p\<lparr>database_open := False, main_at := Exited 0\<rparr>)"

inductive_cases process_stepE: "process_step p q"

abbreviation process_run :: "process \<Rightarrow> process \<Rightarrow> bool" where
  "process_run \<equiv> process_step\<^sup>*\<^sup>*"

section \<open>The invariant\<close>

text \<open>How far the main goroutine is, as a number; a failed listen counts as not yet waiting.\<close>

fun phase :: "main_pc \<Rightarrow> nat" where
  "phase Listening = 0"
| "phase Waiting = 1"
| "phase CancelRelay = 2"
| "phase AwaitRelay = 3"
| "phase StopIngest = 4"
| "phase StopCleanup = 5"
| "phase StopMetrics = 6"
| "phase CloseDatabase = 7"
| "phase (Exited n) = (if n = 0 then 8 else 0)"

definition ordered :: "process \<Rightarrow> bool" where
  "ordered p \<longleftrightarrow>
     (0 < phase (main_at p) \<longrightarrow> \<not> listening p \<and> signal_at p \<in> {AwaitConnections, SignalDone}) \<and>
     (\<not> listening p \<longleftrightarrow> signal_at p \<in> {AwaitConnections, SignalDone}) \<and>
     (shutdown_ch p = (if phase (main_at p) < 2 \<and> signal_at p \<notin> {AwaitSignal, SendToken} then 1 else 0)) \<and>
     (relay_running p \<longrightarrow> relay_configured p \<and> phase (main_at p) < 4) \<and>
     (phase (main_at p) \<in> {2, 3} \<longrightarrow> relay_configured p) \<and> (phase (main_at p) = 3 \<longrightarrow> relay_cancelled p) \<and>
     (ingest_running p \<longleftrightarrow> phase (main_at p) < 5) \<and> (cleanup_running p \<longleftrightarrow> phase (main_at p) < 6) \<and>
     (metrics_running p \<longleftrightarrow> phase (main_at p) < 7) \<and> (database_open p \<longleftrightarrow> phase (main_at p) < 8)"

lemma ordered_start: "ordered (start_process relay)"
  by (simp add: ordered_def start_process_def)

lemma ordered_step: "process_step p q \<Longrightarrow> ordered p \<Longrightarrow> ordered q"
  by (erule process_stepE) (auto simp: ordered_def alive_def split: main_pc.splits if_splits)

lemma ordered_run: "process_run (start_process relay) p \<Longrightarrow> ordered p"
  by (induction rule: rtranclp_induct) (auto intro: ordered_start ordered_step)

lemma run_in_flight:
  "process_run p q \<Longrightarrow> \<not> listening p \<Longrightarrow> \<not> listening q \<and> in_flight q \<le> in_flight p"
  by (induction rule: rtranclp_induct) (auto elim!: process_stepE)

section \<open>The end can be reached\<close>

fun signal_stage :: "signal_pc \<Rightarrow> nat" where
  "signal_stage AwaitSignal = 0"
| "signal_stage SendToken = 1"
| "signal_stage CallShutdown = 2"
| "signal_stage _ = 3"

definition distance :: "process \<Rightarrow> nat" where
  "distance p = (8 - phase (main_at p)) + (3 - signal_stage (signal_at p)) + (if relay_running p then 1 else 0)"

text \<open>Once \<open>Shutdown\<close> has been called, the main goroutine is never blocked for good.\<close>

lemma closer_main:
  assumes "ordered p" "alive p" "signal_at p \<in> {AwaitConnections, SignalDone}"
  shows "\<exists>q. process_step p q \<and> distance q < distance p \<and> signal_at q = signal_at p \<and> in_flight q = in_flight p \<and>
    (alive q \<or> main_at q = Exited 0)"
proof (cases "main_at p")
  case Listening
  with assms have "process_step p (p\<lparr>main_at := Waiting\<rparr>)" by (intro step_server_closed) (auto simp: ordered_def)
  then show ?thesis using Listening assms(3) by (intro exI conjI) (assumption, auto simp: distance_def alive_def)
next
  case CancelRelay
  with assms have "process_step p (p\<lparr>relay_cancelled := True, main_at := AwaitRelay\<rparr>)" by (intro step_cancel_relay) (auto simp: ordered_def)
  then show ?thesis using CancelRelay assms(3) by (intro exI conjI) (assumption, auto simp: distance_def alive_def)
next
  case StopIngest
  with assms have "process_step p (p\<lparr>ingest_running := False, main_at := StopCleanup\<rparr>)" by (intro step_stop_ingest) (auto simp: ordered_def)
  then show ?thesis using StopIngest assms(3) by (intro exI conjI) (assumption, auto simp: distance_def alive_def)
next
  case StopCleanup
  with assms have "process_step p (p\<lparr>cleanup_running := False, main_at := StopMetrics\<rparr>)" by (intro step_stop_cleanup) (auto simp: ordered_def)
  then show ?thesis using StopCleanup assms(3) by (intro exI conjI) (assumption, auto simp: distance_def alive_def)
next
  case StopMetrics
  with assms have "process_step p (p\<lparr>metrics_running := False, main_at := CloseDatabase\<rparr>)" by (intro step_stop_metrics) (auto simp: ordered_def)
  then show ?thesis using StopMetrics assms(3) by (intro exI conjI) (assumption, auto simp: distance_def alive_def)
next
  case CloseDatabase
  with assms have "process_step p (p\<lparr>database_open := False, main_at := Exited 0\<rparr>)" by (intro step_close) (auto simp: ordered_def)
  then show ?thesis using CloseDatabase assms(3) by (intro exI conjI) (assumption, auto simp: distance_def alive_def)
next
  case Waiting
  with assms have "shutdown_ch p = Suc 0" by (auto simp: ordered_def)
  with Waiting have "process_step p (p\<lparr>shutdown_ch := 0, main_at := (if relay_configured p then CancelRelay else StopIngest)\<rparr>)"
    by (intro step_wait)
  then show ?thesis using Waiting assms(3) by (intro exI conjI) (assumption, auto simp: distance_def alive_def)
next
  case AwaitRelay
  show ?thesis
  proof (cases "relay_running p")
    case True
    with assms AwaitRelay have "process_step p (p\<lparr>relay_running := False\<rparr>)"
      by (intro step_relay_ends) (auto simp: ordered_def)
    then show ?thesis using AwaitRelay True assms(3) by (intro exI conjI) (assumption, auto simp: distance_def alive_def)
  next
    case False
    with AwaitRelay have "process_step p (p\<lparr>main_at := StopIngest\<rparr>)" by (intro step_relay_done)
    then show ?thesis using AwaitRelay assms(3) by (intro exI conjI) (assumption, auto simp: distance_def alive_def)
  qed
next
  case (Exited n)
  then show ?thesis using assms(2) by (simp add: alive_def)
qed

lemma reach_exit:
  assumes "ordered p" "signal_at p \<in> {AwaitConnections, SignalDone}" "alive p \<or> main_at p = Exited 0"
  shows "\<exists>q. process_run p q \<and> main_at q = Exited 0 \<and> signal_at q = signal_at p \<and> in_flight q = in_flight p"
  using assms
proof (induction "distance p" arbitrary: p rule: less_induct)
  case less
  show ?case
  proof (cases "alive p")
    case True
    then obtain q where q: "process_step p q" "distance q < distance p" "signal_at q = signal_at p"
      "in_flight q = in_flight p" "alive q \<or> main_at q = Exited 0"
      using closer_main [OF less.prems(1) _ less.prems(2)] by blast
    then obtain r where "process_run q r" "main_at r = Exited 0" "signal_at r = signal_at p" "in_flight r = in_flight p"
      using less.hyps [OF q(2) ordered_step [OF q(1) less.prems(1)]] less.prems(2) by auto
    then show ?thesis using q(1) by (meson converse_rtranclp_into_rtranclp)
  next
    case False
    then show ?thesis using less.prems(3) by blast
  qed
qed

lemma reach_shutdown:
  assumes "ordered p" "alive p" "signal_at p = SendToken \<or> signal_at p = CallShutdown"
  shows "\<exists>q. process_run p q \<and> alive q \<and> signal_at q = AwaitConnections \<and> in_flight q = in_flight p"
proof -
  have call: "process_run q (q\<lparr>listening := False, signal_at := AwaitConnections\<rparr>)"
    if "alive q" "signal_at q = CallShutdown" for q
    using that by (intro r_into_rtranclp step_shutdown)
  show ?thesis
  proof (cases "signal_at p = CallShutdown")
    case True
    with call [OF assms(2)] assms(2) show ?thesis by (intro exI conjI) (assumption, simp_all add: alive_def)
  next
    case False
    let ?q = "p\<lparr>shutdown_ch := Suc (shutdown_ch p), signal_at := CallShutdown\<rparr>"
    have "process_step p ?q" using False assms by (intro step_token) (auto simp: ordered_def)
    moreover have "process_run ?q (?q\<lparr>listening := False, signal_at := AwaitConnections\<rparr>)"
      using assms(2) by (intro call) (simp_all add: alive_def)
    ultimately have "process_run p (?q\<lparr>listening := False, signal_at := AwaitConnections\<rparr>)"
      by (rule converse_rtranclp_into_rtranclp)
    then show ?thesis using assms(2) by (intro exI conjI) (assumption, simp_all add: alive_def)
  qed
qed

section \<open>Properties\<close>

text \<open>The services are stopped in one order: the listener is closed first, the relay has returned
  before the ingest service is stopped, then the cleanup, then the metrics service, and the database
  is closed when nothing of them runs any more.\<close>

theorem services_stop_in_order:
  assumes "process_run (start_process relay) p"
  shows "(\<not> ingest_running p \<longrightarrow> \<not> listening p \<and> \<not> relay_running p) \<and>
    (\<not> cleanup_running p \<longrightarrow> \<not> ingest_running p) \<and> (\<not> metrics_running p \<longrightarrow> \<not> cleanup_running p) \<and>
    (\<not> database_open p \<longrightarrow> \<not> metrics_running p) \<and> shutdown_ch p \<le> 1"
proof -
  note o = ordered_run [OF assms, unfolded ordered_def]
  define n where "n = phase (main_at p)"
  have runs: "ingest_running p \<longleftrightarrow> n < 5" "cleanup_running p \<longleftrightarrow> n < 6" "metrics_running p \<longleftrightarrow> n < 7"
    "database_open p \<longleftrightarrow> n < 8" using o by (simp_all add: n_def)
  have before: "0 < n \<Longrightarrow> \<not> listening p" "relay_running p \<Longrightarrow> n < 4" "shutdown_ch p \<le> 1"
    using o by (simp_all add: n_def)
  show ?thesis using before unfolding runs by (intro conjI impI; linarith?)
qed

text \<open>C23: the process does not wait for its requests.  \<open>Wait\<close> returns when the shutdown has been initiated,
  not when it is complete: with any number of requests in flight there is a run in which the services
  are stopped, the database is closed and the process ends while \<open>server.Shutdown\<close> still waits.\<close>

theorem exit_does_not_wait:
  "\<exists>p. process_run (start_process relay) p \<and> main_at p = Exited 0 \<and> in_flight p = n \<and>
     signal_at p = AwaitConnections \<and> \<not> ingest_running p \<and> \<not> database_open p"
proof -
  let ?s = "\<lambda>k. (start_process relay)\<lparr>in_flight := k\<rparr>"
  have req: "process_run (start_process relay) (?s k)" for k
  proof (induction k)
    case 0
    then show ?case by (simp add: start_process_def)
  next
    case (Suc k)
    have "process_step (?s k) ((?s k)\<lparr>in_flight := Suc (in_flight (?s k))\<rparr>)"
      by (rule step_request) (simp_all add: alive_def start_process_def)
    with Suc show ?case by (simp add: rtranclp.rtrancl_into_rtrancl)
  qed
  let ?t = "(?s n)\<lparr>signal_at := SendToken\<rparr>"
  have "process_step (?s n) ?t" by (rule step_signal) (simp_all add: alive_def start_process_def)
  with req [of n] have t: "process_run (start_process relay) ?t" by (rule rtranclp.rtrancl_into_rtrancl)
  obtain q where q: "process_run ?t q" "alive q" "signal_at q = AwaitConnections" "in_flight q = n"
    using reach_shutdown [OF ordered_run [OF t]] by (auto simp: alive_def start_process_def)
  obtain p where p: "process_run q p" "main_at p = Exited 0" "signal_at p = AwaitConnections" "in_flight p = n"
    using reach_exit [OF ordered_run [OF rtranclp_trans [OF t q(1)]]] q by auto
  have run: "process_run (start_process relay) p" using t q(1) p(1) by simp
  then have "\<not> ingest_running p \<and> \<not> database_open p"
    using ordered_run [OF run] p(2) by (simp add: ordered_def)
  with run p show ?thesis by blast
qed


lemma signalled_run: "process_run (start_process relay) ((start_process relay)\<lparr>signal_at := SendToken\<rparr>)"
  by (intro r_into_rtranclp step_signal) (simp_all add: alive_def start_process_def)

theorem services_stop_in_order_witness:
  "shutdown_ch ((start_process True)\<lparr>signal_at := SendToken\<rparr>) \<le> 1"
  using services_stop_in_order [OF signalled_run] by blast


end
