(* ===== verification/Durations.thy ===== *)
theory Durations
  imports GoTime GoFloat
begin

text \<open>
  \<open>FormatDuration\<close> of \<open>internal/utils/utils.go\<close>, from seconds in \<open>float64\<close> to text, with
  \<open>Duration.String\<close> of the standard library, which writes the hours, minutes and seconds, or one
  unit below a second, and cuts the zeros at the end of a fraction.
\<close>

section \<open>Duration.String\<close>

text \<open>
  \<open>fmtFrac\<close>: the last \<open>prec\<close> digits of a number as a fraction, built from its end, and the number
  without these digits.
\<close>

fun frac_digits :: "nat \<Rightarrow> nat \<Rightarrow> bool \<Rightarrow> string \<Rightarrow> string \<times> nat" where
  "frac_digits 0 v print acc = (if print then CHR ''.'' # acc else acc, v)"
| "frac_digits (Suc i) v print acc =
     (let print = print \<or> v mod 10 \<noteq> 0
      in frac_digits i (v div 10) print (if print then digit_char (v mod 10) # acc else acc))"

definition fmtFrac :: "nat \<Rightarrow> nat \<Rightarrow> string \<times> nat" where
  "fmtFrac prec v = frac_digits prec v False []"

text \<open>The unit below a second, its text in UTF-8, and the digits behind the point.\<close>

definition sub_second :: "nat \<Rightarrow> string \<times> nat" where
  "sub_second u =
     (if u < 1000 then (''ns'', 0)
      else if u < 1000000 then (CHR 0xC2 # CHR 0xB5 # ''s'', 3)
      else (''ms'', 6))"

definition hms :: "nat \<Rightarrow> string \<Rightarrow> string" where
  "hms u rest =
     (let m = u div 60; h = m div 60; secs = go_utoa (u mod 60) @ rest in
      if m = 0 then secs
      else if h = 0 then go_utoa (m mod 60) @ ''m'' @ secs
      else go_utoa h @ ''h'' @ go_utoa (m mod 60) @ ''m'' @ secs)"

definition Duration_String :: "int \<Rightarrow> string" where
  "Duration_String d =
     (let u = nat \<bar>d\<bar>; sign = (if d < 0 then ''-'' else []) in
      if u = 0 then ''0s''
      else if u < 1000000000 then
        (case sub_second u of (unit, prec) \<Rightarrow>
         case fmtFrac prec u of (digits, v) \<Rightarrow> sign @ go_utoa v @ digits @ unit)
      else (case fmtFrac 9 u of (digits, v) \<Rightarrow> sign @ hms v (digits @ ''s'')))"

section \<open>FormatDuration\<close>

text \<open>
  The conversion to \<open>time.Duration\<close> cuts the fraction.  What it makes of a number outside the 64-bit
  integers is left to the implementation of the language, the argument \<open>other\<close>.
\<close>

definition duration_of_float :: "(rat \<Rightarrow> int) \<Rightarrow> rat \<Rightarrow> int" where
  "duration_of_float other x =
     (let n = (if 0 \<le> x then \<lfloor>x\<rfloor> else \<lceil>x\<rceil>) in if - (2 ^ 63) \<le> n \<and> n < 2 ^ 63 then n else other x)"

definition FormatDuration :: "(rat \<Rightarrow> int) \<Rightarrow> rat \<Rightarrow> string" where
  "FormatDuration other seconds =
     (if seconds = 0 then ''0s''
      else Duration_String (duration_of_float other (f64 (seconds * 1000000000))))"

text \<open>The guard for 0 decides nothing.\<close>

lemma FormatDuration_guard:
  "FormatDuration other seconds = Duration_String (duration_of_float other (f64 (seconds * 1000000000)))"
  by (simp add: FormatDuration_def duration_of_float_def Duration_String_def)

lemma frac_digits_zeros: "frac_digits i (v * 10 ^ i) False [] = ([], v)"
  by (induction i) (simp_all add: ac_simps)

text \<open>Whole seconds have no fraction.\<close>

lemma Duration_String_seconds:
  assumes "0 < s"
  shows "Duration_String (of_nat s * 1000000000) = hms s ''s''"
proof -
  have "nat \<bar>of_nat s * 1000000000\<bar> = s * 10 ^ 9" by (simp add: nat_mult_distrib)
  then show ?thesis
    using assms frac_digits_zeros [of 9 s] by (simp add: Duration_String_def fmtFrac_def)
qed

text \<open>
  For whole seconds up to more than 140 years the product is exact in \<open>float64\<close>, since a thousand
  million is 1953125 times a power of two, and the text is that of hours, minutes and seconds.
\<close>

theorem FormatDuration_seconds:
  assumes "0 < s" "s \<le> 4611686018"
  shows "FormatDuration other (of_nat s) = hms s ''s''"
proof -
  have "f64 (of_nat s * 1000000000) = of_nat s * 1000000000"
    using assms(2) by (intro f64_exact [of _ "int s * 1953125" 9]) simp_all
  moreover have "duration_of_float other (of_nat s * 1000000000) = int s * 1000000000"
    using assms(2) floor_of_int [of "int s * 1000000000", where ?'a = rat] by (simp add: duration_of_float_def)
  ultimately show ?thesis using assms(1) Duration_String_seconds [of s] by (simp add: FormatDuration_def)
qed

lemma hms_samples: "hms 59 ''s'' = ''59s''" "hms 3600 ''s'' = ''1h0m0s''" "hms 61 ''s'' = ''1m1s''"
  by code_simp+

lemma frac_digits_numeral [simp]:
  "frac_digits (numeral n) v print acc =
     (let print = print \<or> v mod 10 \<noteq> 0
      in frac_digits (pred_numeral n) (v div 10) print (if print then digit_char (v mod 10) # acc else acc))"
  by (simp only: numeral_eq_Suc [of n] frac_digits.simps)

lemma Duration_String_samples:
  "Duration_String (- 1500000) = ''-1.5ms''" "Duration_String 90500000000 = ''1m30.5s''"
  "Duration_String 12 = ''12ns''"
  by (simp_all add: Duration_String_def sub_second_def fmtFrac_def hms_def digit_char_def
    go_utoa.simps [of "Suc 0"] go_utoa.simps [of 3] go_utoa.simps [of 12] go_utoa.simps [of 30])

end
