(* ===== verification/Spec2Isabelle.thy ===== *)
theory Spec2Isabelle
  imports Backend_Samples Sse_Stream Scrape Shutdown Durations
begin

text \<open>
  A model of the Live Actions server (Go), which receives GitHub webhook deliveries about workflow
  jobs and runs, keeps their state in SQLite, and serves it to a browser by a REST interface and a
  stream of server-sent events.  File names below are relative to \<open>src/\<close>.

  \<^bold>\<open>The way of a delivery.\<close>  A delivery arrives at \<open>POST /webhook\<close> or through the WebSocket relay; its
  signature is checked (\<open>ValidateGitHubWebhook\<close>), \<open>Ingest\<close> validates it against the handler of its
  type and puts an event into the bounded queue of the event ordering service.  The ingest worker
  processes events from the queue at once; an event whose processing fails for a reason that may
  pass goes into the spill buffer, which is written in batches to the table \<open>webhook_events\<close>.  The
  flush worker replays the events of that table.  Processing writes the row of the job or run if the
  lifecycle accepts the new status, updates metrics and submits an event to the coalescer of the
  event stream.  Background services delete old rows, mark stale jobs and take snapshots.  Reads
  are queries on the tables.

  \<^bold>\<open>Theories.\<close>

  \<^item> \<open>Prelude\<close>: errors with wrapping, 64-bit arithmetic, tables as lists of rows with a primary key.
    \<open>GoTime\<close>: \<open>time.Time\<close>, the calendar, \<open>Format\<close> and \<open>Parse\<close> of the layouts used.  \<open>GoFloat\<close>:
    \<open>float64\<close> by rounding of exact results.  \<open>GoJson\<close>, \<open>Json_Stream\<close>, \<open>Json_Marshal\<close>: \<open>Unmarshal\<close>,
    \<open>Decoder\<close> and \<open>Marshal\<close> of \<open>encoding/json\<close> for the types used.  \<open>Base64\<close>, \<open>Crypto\<close>:
    \<open>encoding/base64\<close>, SHA-256, HMAC and hexadecimal text.  \<open>GoUrl\<close>, \<open>Http\<close>: query escaping,
    \<open>url.Parse\<close> (as of Go 1.24) and \<open>net.SplitHostPort\<close>, answers.  \<open>Sql_Groups\<close>: \<open>GROUP BY\<close>,
    \<open>ORDER BY\<close>, aggregates.  These are the standard library and SQL, as far as the sources use them.
  \<^item> \<open>Models\<close>, \<open>Models_Wire\<close>, \<open>Lifecycle\<close>: \<open>models/models.go\<close>, what it is as JSON in both directions,
    \<open>models/status_priority.go\<close>.
  \<^item> \<open>Db_Core\<close>, \<open>Db_Workflow\<close>, \<open>Json_Labels\<close>, \<open>Db_Events\<close>, \<open>Migrations\<close>: \<open>internal/database/workflow.go\<close>,
    \<open>event.go\<close>, \<open>db.go\<close>; \<open>World\<close> adds the metrics log and the event stream to the tables and holds
    the invariant \<open>db_wf\<close>.
  \<^item> \<open>Handlers\<close>, \<open>Webhook\<close>: the files \<open>handlers/event_handler.go\<close>, \<open>workflow_job_handler.go\<close>,
    \<open>workflow_run_handler.go\<close>, \<open>webhook_handler.go\<close>.
  \<^item> \<open>Ordering\<close>: \<open>internal/services/event_ordering_service.go\<close>.
  \<^item> \<open>Sse\<close>, \<open>Coalescer\<close>, \<open>Sse_Stream\<close>: \<open>handlers/sse_handler.go\<close>, the fan-out, the goroutine of the
    coalescer, the stream of a client; \<open>Notifications\<close>: which events reach a browser.
  \<^item> \<open>Registry\<close>, \<open>Scrape\<close>: \<open>pkg/metrics\<close> and what \<open>SetupAndRun\<close> registers.
  \<^item> \<open>AppConfig\<close>: \<open>internal/config/config.go\<close>.  \<open>Logging\<close>: \<open>pkg/logger/logger.go\<close>.
  \<^item> \<open>Maintenance\<close>, \<open>Services\<close>, \<open>Background\<close>: retention, snapshots and label counts
    (\<open>internal/database/workflow.go\<close>, \<open>metrics.go\<close>), the loops and the goroutines of
    \<open>internal/services/cleanup_service.go\<close> and \<open>metrics_update_service.go\<close>.
  \<^item> \<open>Analytics\<close>: \<open>internal/database/failure_analytics.go\<close>, \<open>label_demand.go\<close>, \<open>repo_filter.go\<close>, the
    summary of \<open>metrics.go\<close>.  \<open>Api\<close>, \<open>Origin\<close>, \<open>Durations\<close>: \<open>handlers/api.go\<close>,
    \<open>handlers/health_handler.go\<close>, \<open>internal/utils\<close>.  \<open>Middleware\<close>: \<open>internal/middleware\<close>.
  \<^item> \<open>Relay\<close>, \<open>Relay_Wire\<close>: \<open>internal/services/ghws/subscriber.go\<close>, the cycles and what goes over the
    wire.
  \<^item> \<open>Startup\<close>, \<open>Server\<close>, \<open>Shutdown\<close>: \<open>main.go\<close>, \<open>cmd/server/server.go\<close>, \<open>cmd/server/shutdown.go\<close>.
    \<open>Backend\<close>: the ordering service and the background services as one step relation.
  \<^item> \<open>Samples\<close>, \<open>Backend_Samples\<close>: the concrete states on which the properties are instantiated.

  \<^bold>\<open>State.\<close>  A table is the list of its rows in row-id order (\<open>dbw\<close>); \<open>world\<close> extends the tables by the
  metrics log and the stream handler; \<open>svc\<close> is the ordering service around a world.  The outcome of
  each engine call (\<open>BEGIN\<close>, a statement, \<open>COMMIT\<close>, an iteration) is taken from \<open>tape\<close>, so every
  error path of the code is a run of the model; an empty tape is an engine without failures
  (\<open>healthy\<close>).  Times are instants with a zone offset, the clock a field of the world, durations
  numbers of nanoseconds wrapped to 64 bits.  A Go string is a list of bytes.

  \<^bold>\<open>Interfaces.\<close>  Locales state what one part relies on in another: the lifecycle of a status table
  (\<open>lifecycle\<close>), rows by primary key (\<open>pk_store\<close>) and under a lifecycle (\<open>guarded_table\<close>), an encoding
  and its decoding (\<open>codec\<close>, which \<open>base64_alphabet\<close> gives for every alphabet), an event handler
  (\<open>event_handler_contract\<close>) and the map of handlers (\<open>registered_handlers\<close>), from which the
  contract of the processing function the ordering service calls follows (\<open>process_contract\<close>), what
  the relay calls (\<open>ingester_contract\<close>), a round of a background service (\<open>background_round\<close>) and a
  read (\<open>read_only\<close>).  Each is interpreted on the definitions of the server, and the properties
  rest on these interpretations.

  \<^bold>\<open>Steps and bounds.\<close>  \<open>svc_step\<close> interleaves the callers of \<open>AddEvent\<close>, the ingest worker, the flush
  worker, \<open>Stop\<close>, the passing of time and what other goroutines observe; one step is a channel
  operation, one call of the processing function, or one database call with the work up to the next
  of these.  After a batch the flush worker may fetch the next one or go back to its ticker at any
  time, so the limits of the code, 20 batches and 500 ms, allow fewer runs than \<open>svc_step\<close>;
  \<open>flushReadyEvents\<close> has them.  \<open>backend_step\<close> adds the writes of the background services.
  \<open>flushAll\<close> takes the number of batches that fit into its 30 seconds as an argument; one batch of
  1000 more than the pending events fill is enough for it to finish, which is what the property
  about it asks for.  \<open>drain\<close> recurs on the queue; the expiry of its context is a failure of the
  engine.  The redial loop of the relay recurs on a list of cycles, each with the answers of the
  network; the loops of the services and of a client's stream recur on a list of what their \<open>select\<close>
  meets.  \<open>co_step\<close> interleaves the goroutine of the coalescer with its callers, \<open>bg_step\<close> that of a
  background service with a caller of \<open>Stop\<close>, \<open>process_step\<close> the signal handler, the main goroutine,
  the requests and the relay at the end of the process.

  \<^bold>\<open>What the lemmas show.\<close>  Lifecycle: a status never regresses while its row is kept, a terminal one
  stays, the order of events does not matter.  Pipeline: every accepted event is accounted for; the
  drain and the final flush empty what they should, and what is lost at shutdown is stated.  Tables:
  invariant, outcomes of each upsert, round trips, ordered replay, migrations that resume.  Wire: the
  JSON of jobs and runs and the frames of the relay are read back as they were.  Endpoint: signature
  gate, equivalence of acceptance and successful processing, harmless refusals.  Reads: they change
  nothing, need the origin check, pages partition the result, trends agree with summaries, rates in
  \<open>float64\<close> stay between 0 and 100.  Notifications: an accepted run reaches every client once, \<open>stop\<close>
  delivers the latest events.  Services, stream, relay and shutdown: bounds, order, cleaning up,
  waiting for the last round.

  \<^bold>\<open>Parameters.\<close>  What third-party code decides is an argument: the iteration order of a Go map,
  \<open>strings.ToLower\<close>, SQLite's \<open>strftime\<close> and \<open>julianday\<close> in the analytics (with their documented
  behaviour on stored texts in \<open>Samples\<close>), what a migration script does to the schema, the random
  bytes of a token, the router's matching of a path, the answers of the network, the pings.

  \<^bold>\<open>Conventions.\<close>  Rows with equal sort keys, which SQL leaves in any order, keep their table order.
  The averages SQLite computes are exact rationals, \<open>ROUND (AVG (...))\<close> is computed on integers.  \<open>strings.TrimSpace\<close> and the comparison of hosts are modelled for ASCII text.  Log lines
  are left out, except for those of \<open>RequestLogger\<close> and \<open>SecurityLogger\<close>.

  \<^bold>\<open>Not modelled.\<close>  The frontend, the load tests and the scripts are not part of the Go server;
  \<open>internal/database/mock.go\<close> is a test double.  The core of the zap logger, gin, the HTTP server,
  the Prometheus client, which writes the text of a scrape, and its collector of pool statistics are
  libraries.  Of the answers of the REST interface the model gives the values, as JSON only jobs,
  runs and events.  \<open>EventBuffer\<close> is used nowhere.  Memory, time limits of HTTP and the scheduling of
  goroutines beyond the interleavings above are outside the model.
\<close>

section \<open>The lifecycle of jobs and runs, end to end\<close>

text \<open>C1: the status a job reaches does not depend on the order in which its events are processed.
  Two lists with the same events, processed on a healthy engine with no earlier row for the job,
  leave the same status, as long as at most one terminal status is among the job's events.\<close>

theorem job_status_order_independent:
  assumes "healthy w" "db_wf w" "\<forall>ev \<in> set evs. parses ev" "mset evs = mset evs'"
    and "find_row jr_id k (workflow_jobs w) = None"
    and "job.one_terminal {jr_status r |r. r \<in> set (job_rows (clock w) evs) \<and> jr_id r = k}"
  shows "map_option jr_status (find_row jr_id k
           (workflow_jobs (processEvents server_pf evs w))) =
         map_option jr_status (find_row jr_id k
           (workflow_jobs (processEvents server_pf evs' w)))"
proof -
  have s: "set evs' = set evs" using assms(4) by (metis set_mset_mset)
  then have p: "\<forall>ev \<in> set evs'. parses ev" using assms(3) by simp
  have "set (job_rows (clock w) evs) = set (job_rows (clock w) evs')"
    using s by (auto simp: job_rows_def List.map_filter_def)
  then show ?thesis
    using assms(2,5,6) job_table.gput_order_independent [of "workflow_jobs w" k "job_rows (clock w) evs" "job_rows (clock w) evs'"]
    by (simp add: processEvents_jobs(1) [OF assms(1,3)] processEvents_jobs(1) [OF assms(1) p] db_wf_def)
qed

lemma job_rows_sample:
  "job_rows now [ev_queued, ev_progress, ev_completed] =
     map (\<lambda>a. job_row_of (zero_job\<lparr>j_ID := 7, j_Status := a\<rparr>) now) [''queued'', ''in_progress'', ''completed'']"
  by (simp add: job_rows_def sample_defs map_filter_simps job_of_event_def)

theorem job_status_order_independent_witness:
  "map_option jr_status (find_row jr_id 7
     (workflow_jobs (processEvents server_pf [ev_queued, ev_progress, ev_completed] sample_world))) =
   map_option jr_status (find_row jr_id 7
     (workflow_jobs (processEvents server_pf [ev_completed, ev_queued, ev_progress] sample_world)))"
  by (rule job_status_order_independent)
     (auto simp: job_rows_sample job.one_terminal_def IsTerminalJobStatus_def status_defs)

text \<open>C2: whatever the engine, the two workers, the callers and the shutdown do, a job row with a
  terminal status is never changed again by event processing.\<close>

theorem terminal_job_is_final:
  assumes "(svc_step server_pf)\<^sup>*\<^sup>* s s'" "db_wf (wrld s)"
    and "find_row jr_id k (workflow_jobs (wrld s)) = Some r" "IsTerminalJobStatus (jr_status r)"
  shows "find_row jr_id k (workflow_jobs (wrld s')) = Some r"
proof -
  obtain rs where "workflow_jobs (wrld s') = fold put_job rs (workflow_jobs (wrld s))"
    using server_run_puts [OF assms(1)] by blast
  then show ?thesis
    using assms(2-4) job_table.gput_terminal_final [of "workflow_jobs (wrld s)" k r rs]
    by (simp add: db_wf_def)
qed

theorem terminal_job_is_final_witness:
  "map_option jr_status (find_row jr_id 7 (workflow_jobs (wrld (arrive ev_queued sample_done)))) = Some ''completed''"
proof -
  let ?r = "job_row_of (zero_job\<lparr>j_ID := 7, j_Status := ''completed''\<rparr>) sample_now"
  have "find_row jr_id 7 (workflow_jobs (wrld (arrive ev_queued sample_done))) = Some ?r"
    by (rule terminal_job_is_final [OF arrive_run]) (simp_all add: sample_done)
  then show ?thesis by simp
qed

text \<open>C3: along every run, whatever fails or interleaves, the priority of a job's status never goes
  down, and the priority of a workflow run's status neither.\<close>

theorem status_never_regresses:
  assumes "(svc_step server_pf)\<^sup>*\<^sup>* s s'" "db_wf (wrld s)"
    and "find_row jr_id k (workflow_jobs (wrld s)) = Some r" "JobStatusPriority (jr_status r) = Some p"
    and "find_row rr_id i (workflow_runs (wrld s)) = Some u" "RunStatusPriority (rr_status u) = Some q"
  shows "(\<exists>r' p'. find_row jr_id k (workflow_jobs (wrld s')) = Some r' \<and>
            JobStatusPriority (jr_status r') = Some p' \<and> p \<le> p') \<and>
         (\<exists>u' q'. find_row rr_id i (workflow_runs (wrld s')) = Some u' \<and>
            RunStatusPriority (rr_status u') = Some q' \<and> q \<le> q')"
proof -
  obtain rs us where p: "workflow_jobs (wrld s') = fold put_job rs (workflow_jobs (wrld s))"
    "workflow_runs (wrld s') = fold put_run us (workflow_runs (wrld s))"
    using server_run_puts [OF assms(1)] by blast
  show ?thesis
    using assms(2-6) job_table.gput_mono [of "workflow_jobs (wrld s)" k r p rs]
      run_table.gput_mono [of "workflow_runs (wrld s)" i u q us]
    by (simp add: p db_wf_def)
qed

theorem status_never_regresses_witness:
  "\<exists>r' p'. find_row jr_id 7 (workflow_jobs (wrld (arrive ev_queued sample_both))) = Some r' \<and>
     JobStatusPriority (jr_status r') = Some p' \<and> 5 \<le> p'"
proof -
  have "(\<exists>r' p'. find_row jr_id 7 (workflow_jobs (wrld (arrive ev_queued sample_both))) = Some r' \<and>
            JobStatusPriority (jr_status r') = Some p' \<and> 5 \<le> p') \<and>
         (\<exists>u' q'. find_row rr_id 9 (workflow_runs (wrld (arrive ev_queued sample_both))) = Some u' \<and>
            RunStatusPriority (rr_status u') = Some q' \<and> 1 \<le> q')"
    by (rule status_never_regresses [OF arrive_run]) (simp_all add: sample_both, simp_all)
  then show ?thesis by blast
qed

section \<open>The ingest pipeline\<close>

text \<open>C7: no event vanishes without a trace.  In every state the server reaches, whatever its services,
  requests and loops do, the events accepted so far are
  the taken ones followed by the queued ones, first in first out, and each taken event is in the
  spill buffer or has exactly one recorded fate; the queue and the buffer keep their bounds.\<close>

theorem events_accounted:
  assumes "(backend_step config pf)\<^sup>*\<^sup>* (NewEventOrderingService w) s"
  shows "accepted s = taken s @ ingestCh s \<and>
    mset (taken s) = mset (spill s) + mset (map fst (fates s)) \<and>
    length (ingestCh s) \<le> defaultIngestChannelSize \<and> length (spill s) < defaultIngestBatchSize"
  using backend_accounts [OF assms svc_inv_init] by (simp add: svc_inv_def)

theorem events_accounted_witness:
  "accepted (arrive ev_queued sample_world) =
     taken (arrive ev_queued sample_world) @ ingestCh (arrive ev_queued sample_world)"
  using events_accounted [OF service_run [OF arrive_run]] by blast

text \<open>C8: the drain after \<open>Stop\<close> is a run of the ingest worker that ends with an empty queue and an
  empty spill buffer, and then every event ever accepted has a fate.\<close>

theorem stop_drains_ingest:
  assumes "svc_reachable pf w s" "ingest_at s = IngestDrain"
  shows "(svc_step pf)\<^sup>*\<^sup>* s (drain pf (ingestCh s) s) \<and>
    ingestCh (drain pf (ingestCh s) s) = [] \<and> spill (drain pf (ingestCh s) s) = [] \<and>
    ingest_at (drain pf (ingestCh s) s) = IngestDone \<and>
    mset (map fst (fates (drain pf (ingestCh s) s))) = mset (accepted s)"
  using drain_steps [of s "ingestCh s" pf] drain_result [of s "ingestCh s" pf]
    drain_accounts [OF svc_inv_reachable [OF assms(1)] assms(2), of pf] assms(2) by simp

theorem stop_drains_ingest_witness:
  "ingest_at (drain server_pf (ingestCh (sample_draining sample_world)) (sample_draining sample_world)) = IngestDone"
  using stop_drains_ingest [OF sample_draining_run [of server_pf sample_world]]
  by (simp add: sample_draining_def)

text \<open>C9: the final flush of the flush worker empties the set of pending events when the engine is
  healthy, every pending event is of a registered type and the 30 seconds suffice for one batch of
  1000 more than the pending events fill.\<close>

theorem final_flush_empties_pending:
  assumes "flush_at s = FlushIdle" "ctxDone s" "ingest_at s = IngestDone"
    and "healthy (wrld s)" "db_wf (wrld s)"
    and "\<forall>r \<in> set (pending_rows (wrld s)). er_event_type r = ''workflow_job'' \<or> er_event_type r = ''workflow_run''"
    and "length (pending_rows (wrld s)) < n * flushAllBatch"
  shows "\<exists>s'. (svc_step server_pf)\<^sup>*\<^sup>* s s' \<and> flush_at s' = FlushDone \<and>
    wrld s' = flushAll server_pf n (wrld s) \<and> pending_rows (wrld s') = []"
proof -
  have "\<forall>r \<in> set (pending_rows (wrld s)). NewWebhookHandler (er_event_type r) \<noteq> None"
    using assms(6) by (auto simp: NewWebhookHandler_lookup)
  then have "pending_rows (flushAll server_pf n (wrld s)) = []"
    using assms(4,5,7) by (intro server.replayed.flushAll_drains)
  then show ?thesis
    using flushAll_steps [of s server_pf n] assms(1-3)
    by (intro exI [of _ "s\<lparr>wrld := flushAll server_pf n (wrld s), flush_at := FlushDone\<rparr>"]) simp
qed

theorem final_flush_empties_pending_witness:
  "pending_rows sample_spilled = [event_row_of ev_queued] \<and>
   pending_rows (flushAll server_pf 1 sample_spilled) = []"
proof -
  have p: "pending_rows sample_spilled = [event_row_of ev_queued]"
    by (simp add: pending_rows_def is_pending_def sample_defs)
  have "\<exists>s'. (svc_step server_pf)\<^sup>*\<^sup>* (sample_drained sample_spilled) s' \<and> flush_at s' = FlushDone \<and>
    wrld s' = flushAll server_pf 1 (wrld (sample_drained sample_spilled)) \<and> pending_rows (wrld s') = []"
    by (rule final_flush_empties_pending) (simp_all add: p sample_defs flushAllBatch_def)
  with p show ?thesis by auto
qed



text \<open>C26: after shutdown \<open>AddEvent\<close> still answers nil while the queue has room, and the event it accepts
  is never taken from the queue in any continuation: it is lost although the delivery is
  acknowledged with 202.\<close>

theorem accepted_after_shutdown_is_lost:
  assumes "svc_reachable pf w s" "ingest_at s = IngestDone" "has_room s"
  shows "snd (AddEvent wait ev s) = None \<and>
    (\<forall>s'. (svc_step pf)\<^sup>*\<^sup>* (fst (AddEvent wait ev s)) s' \<longrightarrow>
       ev \<in> set (ingestCh s') \<and> taken s' = taken s \<and> fates s' = fates s)"
proof -
  have a: "AddEvent wait ev s = (send_event ev s, None)" using assms(3) by (simp add: AddEvent_def)
  have "ev \<in> set (ingestCh s') \<and> taken s' = taken s \<and> fates s' = fates s"
    if "(svc_step pf)\<^sup>*\<^sup>* (send_event ev s) s'" for s'
    using done_run [OF that] assms(2) by (auto simp: send_event_def)
  with a show ?thesis by simp
qed

theorem accepted_after_shutdown_is_lost_witness:
  "snd (AddEvent (\<lambda>s. (s, CaseTimer)) ev_queued (sample_drained sample_world)) = None \<and>
   ev_queued \<in> set (ingestCh (fst (AddEvent (\<lambda>s. (s, CaseTimer)) ev_queued (sample_drained sample_world))))"
  using accepted_after_shutdown_is_lost [OF sample_drained_run [of sample_world],
      of "\<lambda>s. (s, CaseTimer)" ev_queued] by auto

text \<open>C27: a tick of the ingest worker that wins the race against the cancelled service context writes
  under that context, so a healthy engine is not even asked and the whole buffer is dropped.\<close>

theorem spill_under_cancelled_context_is_lost:
  assumes "ingest_at s = IngestLoop" "ctxDone s" "spill s = evs"
  shows "\<exists>s'. svc_step pf s s' \<and> spill s' = [] \<and> webhook_events (wrld s') = webhook_events (wrld s) \<and>
    fates s' = fates s @ map (\<lambda>ev. (ev, SpillFailed)) evs"
proof (intro exI conjI)
  show "svc_step pf s (flushSpill (ctxDone s) s)" using assms(1) by (rule step_tick)
  show "webhook_events (wrld (flushSpill (ctxDone s) s)) = webhook_events (wrld s)"
    "fates (flushSpill (ctxDone s) s) = fates s @ map (\<lambda>ev. (ev, SpillFailed)) evs"
    by (rule flushSpill_outcome [of s "ctxDone s"]; use assms in simp)+
qed simp

theorem spill_under_cancelled_context_is_lost_witness:
  "\<exists>s'. svc_step server_pf ((NewEventOrderingService sample_world)\<lparr>ctxDone := True, spill := [ev_queued]\<rparr>) s' \<and>
     fates s' = [(ev_queued, SpillFailed)]"
  using spill_under_cancelled_context_is_lost
    [of "(NewEventOrderingService sample_world)\<lparr>ctxDone := True, spill := [ev_queued]\<rparr>" "[ev_queued]" server_pf]
  by (auto simp: NewEventOrderingService_def)

section \<open>The webhook endpoint\<close>


text \<open>A correctly signed delivery is let through, whatever its content: the signature GitHub
  sends, \<open>sha256=\<close> and the lower case hexadecimal HMAC, is accepted.\<close>

theorem signed_delivery_passes:
  assumes "secret \<noteq> []" "length p \<le> maxBodySize" "t \<noteq> []"
  shows "ValidateGitHubWebhook secret \<lparr>rq_signature = ''sha256='' @ hex_encode (hmac_sha256 secret p),
    rq_event = t, rq_delivery = d, rq_body = p, rq_broken = False\<rparr> = Inr t"
proof -
  have "hmac_sha256 secret p \<noteq> []" using hmac_length [of secret p] by auto
  then have "strip_sha256 (''sha256='' @ hex_encode (hmac_sha256 secret p)) = hex_encode (hmac_sha256 secret p)"
    using hex_encode_not_Nil by (simp add: strip_sha256_def)
  then show ?thesis using assms by (simp add: passes_iff hex_round_trip)
qed

theorem signed_delivery_passes_witness:
  "ValidateGitHubWebhook ''s'' \<lparr>rq_signature = ''sha256='' @ hex_encode (hmac_sha256 ''s'' ''{}''),
    rq_event = ''ping'', rq_delivery = ''d'', rq_body = ''{}'', rq_broken = False\<rparr> = Inr ''ping''"
  by (rule signed_delivery_passes) (simp_all add: maxBodySize_def)



text \<open>C31: with room in the queue, a delivery that is not accepted leaves queue, tables and history
  as they were, and is answered with 200 or 400.\<close>

theorem rejected_delivery_is_harmless:
  assumes "Ingest hs wait t d body s = (s', r)" "has_room s" "Status r \<noteq> 202"
  shows "Status r \<in> {200, 400} \<and> (\<exists>ms. s' = s\<lparr>wrld := emit ms (wrld s)\<rparr>)"
proof (cases rule: Ingest_room [OF assms(2), of body hs t d wait])
  case (1 jsonData h tm key prio ev)
  then show ?thesis using assms(1,3) by (auto simp: result_def)
next
  case (2 st m ms)
  then show ?thesis using assms(1) by (auto simp: result_def on_world_def)
qed

theorem rejected_delivery_is_harmless_witness:
  "Status (snd (Ingest NewWebhookHandler (\<lambda>s. (s, CaseTimer)) ''push'' ''d1'' (job_doc ''queued'')
     (NewEventOrderingService sample_world))) \<in> {200, 400}"
  using rejected_delivery_is_harmless [of NewWebhookHandler "\<lambda>s. (s, CaseTimer)" "''push''" "''d1''" "job_doc ''queued''"
      "NewEventOrderingService sample_world", OF prod.collapse [symmetric]] sample_ingest
  by auto

text \<open>A delivery with an action the lifecycle does not know, and one without any field of a job,
  are answered with 202, although the documentation of the result promises 400 for both.\<close>

theorem unknown_action_is_accepted:
  "Status (snd (Ingest NewWebhookHandler wait ''workflow_job'' ''d'' (job_doc ''bogus'') (NewEventOrderingService sample_world))) = 202 \<and>
   Status (snd (Ingest NewWebhookHandler wait ''workflow_job'' ''d'' ''{}'' (NewEventOrderingService sample_world))) = 202"
  by (simp add: ingest_bogus)

section \<open>The typed tables\<close>



text \<open>C18: an accepted upsert is read back by id as it was written: every field survives, labels
  included, and the times are cut to the second; an absent time comes back as the zero time.\<close>

theorem accepted_job_reads_back:
  assumes "healthy w" "db_wf w" "job_accepted job w" "job_storable job"
  shows "GetWorkflowJobByID (j_ID job) (fst (AddOrUpdateJob job ts w)) =
    (fst (AddOrUpdateJob job ts w), Inr (job_read job))"
proof -
  have "find_row jr_id (j_ID job) (put_job (job_row_of job (clock w)) (workflow_jobs w)) =
      Some (job_row_of job (clock w))"
    using assms(2,3) job_table.look_gput [of "workflow_jobs w" "j_ID job" "job_row_of job (clock w)"]
    by (simp add: db_wf_def job_accepted_def)
  then show ?thesis
    using assms(1) by (simp add: AddOrUpdateJob_healthy GetWorkflowJobByID_def
        job_row_round_trip [OF assms(4)] healthy_def)
qed

theorem accepted_job_reads_back_witness:
  "snd (GetWorkflowJobByID 7 (fst (AddOrUpdateJob sample_job sample_now sample_world))) = Inr (job_read sample_job)"
  using accepted_job_reads_back [of sample_world sample_job sample_now] by simp

text \<open>An upsert writes the row exactly when the lifecycle accepts the status and the engine runs
  every statement; it reports what it did, an unknown status is refused without an error, and an
  error leaves every table as it was.\<close>

theorem upsert_outcomes:
  "case AddOrUpdateJob job ts w of
     (w', Inl e) \<Rightarrow> (\<exists>bs. w' = w\<lparr>tape := bs\<rparr>) \<and> \<not> healthy w
   | (w', Inr b) \<Rightarrow> b = job_accepted job w \<and>
       (\<exists>bs. w' = w\<lparr>tape := bs, workflow_jobs :=
          (if b then upsert_row jr_id (job_row_of job (clock w)) (workflow_jobs w) else workflow_jobs w)\<rparr>)"
proof (cases rule: AddOrUpdateJob_outcome [of job ts w])
  case (failed e bs)
  then show ?thesis using AddOrUpdateJob_error [of job ts w e] by auto
next
  case (written bs)
  then show ?thesis by (auto simp: guarded_put_def job_accepted_def)
qed

text \<open>The sweep of stale jobs marks exactly the queued and running jobs created before the cutoff
  as stale, counts them, and leaves every other row as it was.\<close>

theorem stale_sweep:
  assumes "healthy w" "db_wf w"
  shows "snd (CleanupStaleJobs d w) = Inr (rows_affected (stale_row (format_RFC3339 (cutoff_time d w))) (workflow_jobs w)) \<and>
    find_row jr_id k (workflow_jobs (fst (CleanupStaleJobs d w))) =
      map_option (\<lambda>r. if (jr_status r = ''queued'' \<or> jr_status r = ''in_progress'') \<and>
                          jr_created_at r < format_RFC3339 (cutoff_time d w)
                       then r\<lparr>jr_status := ''stale'', jr_completed_at := Some (sqlite_datetime (clock w))\<rparr> else r)
        (find_row jr_id k (workflow_jobs w))"
proof -
  show ?thesis
    by (simp add: CleanupStaleJobs_healthy [OF assms(1)] find_row_update) (simp add: mark_stale_def stale_row_def cong: if_cong)
qed

theorem stale_sweep_witness:
  "snd (CleanupStaleJobs 3600000000000 sample_stale) = Inr 1 \<and>
   map_option jr_status (find_row jr_id 7 (workflow_jobs (fst (CleanupStaleJobs 3600000000000 sample_stale)))) = Some ''stale''"
  using stale_sweep [of sample_stale 3600000000000 7] sample_stale
  by (simp add: rows_affected_def stale_row_def)

text \<open>The completion time the sweep writes cannot be read back: SQLite's clock text is in none of the
  layouts \<open>parseTime\<close> knows, so every stale job appears with the zero completion time.\<close>

theorem stale_completion_time_is_lost:
  assumes "healthy w" "db_wf w" "find_row jr_id k (workflow_jobs w) = Some r"
    and "stale_row (format_RFC3339 (cutoff_time d w)) r" "year4 (UTC (clock w))"
  shows "\<exists>job. snd (GetWorkflowJobByID k (fst (CleanupStaleJobs d w))) = Inr job \<and>
    j_Status job = ''stale'' \<and> j_CompletedAt job = zero_time"
proof -
  note s = CleanupStaleJobs_healthy [OF assms(1), of d]
  have "find_row jr_id k (workflow_jobs (fst (CleanupStaleJobs d w))) = Some (mark_stale (sqlite_datetime (clock w)) r)"
    using assms(3,4) by (simp add: s find_row_update)
  moreover have "parseTime (sqlite_datetime (clock w)) = zero_time"
    using assms(5) by (simp add: sqlite_datetime_def parseTime_datetime)
  moreover have "healthy (fst (CleanupStaleJobs d w))" using assms(1) by (simp add: s healthy_def)
  ultimately show ?thesis
    by (simp add: GetWorkflowJobByID_def job_of_row_def mark_stale_def null_string_def)
qed

theorem stale_completion_time_is_lost_witness:
  "\<exists>job. snd (GetWorkflowJobByID 7 (fst (CleanupStaleJobs 3600000000000 sample_stale))) = Inr job \<and>
    j_Status job = ''stale'' \<and> j_CompletedAt job = zero_time"
  by (rule stale_completion_time_is_lost) (simp_all add: sample_stale stale_row_def, simp_all add: sample_stale)

section \<open>Instances of the properties of the event table\<close>

theorem spilled_event_reads_back_witness:
  "\<exists>evs. GetPendingEventsGrouped 1000 (fst (StoreWebhookEvents [Some ev_queued] sample_world)) =
     (fst (StoreWebhookEvents [Some ev_queued] sample_world), Inr evs) \<and> evs \<noteq> []"
proof -
  have "time_ok (Timestamp (Sequence ev_queued))" "time_ok (ReceivedAt (Sequence ev_queued))"
    "ProcessedAt ev_queued = None" by (simp_all add: sample_defs)
  then show ?thesis
    using spilled_event_reads_back [of sample_world ev_queued 1000] by (auto simp: events_wf_def pk_distinct_def)
qed


section \<open>Instances of the properties of the background services\<close>

theorem cleanup_keeps_recent_jobs_witness:
  "find_row jr_id 7 (workflow_jobs (fst (CleanupOldData 86400000000000 sample_old))) = Some (job_row_of sample_job sample_now)"
  using cleanup_keeps_recent_jobs [of sample_old 7 "job_row_of sample_job sample_now" sample_now 86400000000000]
  by (simp add: sample_old cutoff_time_def sample_days job_row_of_def [of sample_job])
     (simp add: sample_job_def)

theorem snapshot_cleanup_ignores_time_of_day_witness:
  "metrics_snapshots sample_old = [sample_snapshot] \<and>
   sample_snapshot \<notin> set (metrics_snapshots (fst (CleanupOldData 86400000000000 sample_old)))"
  using snapshot_cleanup_ignores_time_of_day [of sample_old sample_snapshot "time_Add sample_now 36000000000000" 86400000000000]
  by (simp add: sample_old cutoff_time_def sample_days) (simp add: sample_snapshot_def)

theorem failed_events_are_never_cleaned_witness:
  "sample_failed \<in> set (webhook_events (fst (CleanupOldData 86400000000000 sample_old)))"
  by (rule failed_events_are_never_cleaned)
     (simp_all add: sample_old sample_failed_def mark_failed_def event_row_of_def sample_defs)

theorem metrics_update_witness:
  "metrics_snapshots (updateMetrics sample_done) =
     [\<lparr>sn_id = 1, sn_timestamp = sqlite_datetime sample_now, sn_running_jobs = 0, sn_queued_jobs = 0\<rparr>]"
  using metrics_update [of sample_done]
  by (simp add: rows_affected_def Let_def) (simp add: sample_done_def fresh_id_def)

theorem history_is_bounded_witness:
  "length (history_points (bucket_seconds 86400000000000) [sample_snapshot]) \<le> 577"
  using history_is_bounded [of 86400000000000 1709300000 "[sample_snapshot]"]
  by (simp add: sample_snapshot_def sample_days)

theorem pages_partition_runs_witness:
  "map r_ID (concat (map (\<lambda>p. case snd (GetWorkflowRunsPaginated (int p) 25 [] [] sample_both) of
     Inr (runs, _) \<Rightarrow> runs | Inl _ \<Rightarrow> [])
       [1..<Suc (nat (page_count (length (matching_runs [] [] sample_both)) 25))])) = [9]"
  by (subst conjunct1 [OF pages_partition_runs [of sample_both 25 "[]" "[]"]])
     (simp_all add: matching_runs_def run_filter_def order_desc_def run_of_row_def run_row_of_def)

section \<open>Instances of the properties of the analytics\<close>

theorem trend_partitions_summary_witness:
  "TotalFailed (case snd (GetFailureAnalytics hour_ns [] sample_failing) of Inr s \<Rightarrow> s) = 1"
proof -
  obtain w s where a: "GetFailureAnalytics hour_ns [] sample_failing = (w, Inr s)"
    by (simp add: GetFailureAnalytics_def Let_def query_rows_healthy)
  show ?thesis using trend_partitions_summary [OF sample_trends(1) a] by (simp add: a)
qed

theorem failure_summary_consistent_witness:
  "FailureRate (case snd (GetFailureAnalytics hour_ns [] sample_failing) of Inr s \<Rightarrow> s) \<le> 100"
proof -
  obtain w s where a: "GetFailureAnalytics hour_ns [] sample_failing = (w, Inr s)"
    by (simp add: GetFailureAnalytics_def Let_def query_rows_healthy)
  show ?thesis using failure_summary_consistent [OF a] by (simp add: a)
qed

theorem label_trend_matches_summary_witness:
  "sum_list (map ld_TotalJobs
     (case snd (GetLabelDemandSummary sqlite_julianday hour_ns [] sample_failing) of Inr ss \<Rightarrow> ss)) = 2"
proof -
  have a: "GetLabelDemandSummary sqlite_julianday hour_ns [] sample_failing =
      (sample_failing, Inr (demand_groups sqlite_julianday (labelled_jobs hour_ns [] sample_failing)))"
    by (simp add: GetLabelDemandSummary_def query_rows_healthy)
  show ?thesis using label_trend_matches_summary [OF sample_trends(2) a] by (simp add: a sample_window)
qed

theorem window_is_empty_east_witness:
  "map jr_id (workflow_jobs sample_east) = [1, 2] \<and> completed_jobs hour_ns [] sample_east = []"
proof -
  have t: "''2024-03-01T11:20:00Z'' = format_RFC3339 (time_Add sample_now (- 2400000000000))"
    "t_off (time_Add sample_now (- 2400000000000)) = 0" "year4 (time_Add sample_now (- 2400000000000))"
    "t_sec (time_Add sample_now (- 2400000000000)) \<le> t_sec sample_now"
    "year4 (cutoff_time hour_ns sample_east)" "t_sec (clock sample_east) < t_sec (cutoff_time hour_ns sample_east) + t_off (clock sample_east)"
    by code_simp+
  have j: "workflow_jobs sample_east = [sample_row 1 ''failure'', sample_row 2 ''success'']" "t_sec (clock sample_east) = t_sec sample_now"
    by (simp_all add: sample_east_def sample_failing_def)
  have "completed_jobs hour_ns [] sample_east = []"
    by (rule window_is_empty_east) (use t j in \<open>auto simp: sample_row_def\<close>)
  then show ?thesis using j by (simp add: sample_row_def)
qed

section \<open>Instances of the properties of the server and its services\<close>

lemma sample_origin: "ValidateOrigin (sample_get path) = None"
proof -
  have "url_Parse ''http://example.com/'' = Some \<lparr>u_Scheme = ''http'', u_Host = ''example.com''\<rparr>"
    "Hostname \<lparr>u_Scheme = ''http'', u_Host = ''example.com''\<rparr> = ''example.com''"
    "SplitHostPort ''example.com:8080'' = Some (''example.com'', ''8080'')" by code_simp+
  then show ?thesis by (simp add: ValidateOrigin_def sample_get_def)
qed

lemma sample_input: "InputValidator (c_Query (sample_get path)) = None"
  by (simp add: InputValidator_def validateQueryParams_def c_Query_def sample_get_def)

lemma sample_repositories:
  "snd (serve sample_deps (sample_get ''/api/repositories'') (NewEventOrderingService sample_both)) = Repositories []"
proof -
  have "find_route sample_deps (sample_get ''/api/repositories'') =
      Some \<lparr>rt_Method = ''GET'', rt_Path = ''/api/repositories'', rt_Guard = OriginGuard, rt_Endpoint = RepositoriesEP\<rparr>"
    by (simp add: find_route_def routes_def sample_deps_def sample_get_def)
  then show ?thesis
    by (simp add: serve_def sample_input guard_check_def sample_origin handle_endpoint_def reading_def
        APIGetRepositories_def GetRepositories_def query_rows_healthy run_row_of_def zero_run_def)
qed




theorem cleanup_service_retains_witness:
  "\<exists>w. final_state (CleanupService_Start sample_vars [Ticked sample_now, CtxDone] sample_done) = Some w \<and> healthy w"
proof -
  have "CleanupService_Start sample_vars [Ticked sample_now, CtxDone] sample_done \<noteq> Panicked"
    by (simp add: CleanupService_Start_def GetCleanupInterval_def sample_vars_def read_vars_def
        getEnvOrDefaultInt_def hour_ns_def wrap64_def)
  then obtain w where "final_state (CleanupService_Start sample_vars [Ticked sample_now, CtxDone] sample_done) = Some w"
    by (cases "CleanupService_Start sample_vars [Ticked sample_now, CtxDone] sample_done") auto
  then show ?thesis using cleanup_service_retains [OF sample_done(2)] by blast
qed

theorem one_snapshot_per_round_witness:
  "\<exists>w. final_state (MetricsUpdateService_Start 2000000000 [Ticked sample_now, Ticked sample_now] sample_world) = Some w \<and>
     length (metrics_snapshots w) = 3"
  using one_snapshot_per_round [of sample_world 2000000000 "[Ticked sample_now, Ticked sample_now]"]
  by (simp add: numeral_3_eq_3)

theorem gauges_mirror_tables_witness:
  "CurrentJobs (scrape (updateMetrics sample_old)) ''in_progress'' = Some 1 \<and>
   JobsByLabel (scrape (updateMetrics sample_old)) (''ubuntu-latest'', ''in_progress'') = Some 1"
proof -
  have "first_label (job_row_of sample_job sample_now) = Some ''ubuntu-latest''"
    "jr_status (job_row_of sample_job sample_now) = ''in_progress''"
    by (simp_all add: job_row_of_def sample_job_def first_label_def) (code_simp)
  then show ?thesis
    using gauges_mirror_tables [of sample_old "''ubuntu-latest''" "''in_progress''"]
    by (simp add: sample_old active_row_def rows_affected_def)
qed

section \<open>Replays that fail\<close>


lemma busy_replay:
  "\<exists>e. JobHandleEvent (job_doc ''queued'') q (sample_spilled\<lparr>tape := [True, False]\<rparr>) =
     (sample_spilled\<lparr>tape := []\<rparr>, Some e) \<and> \<not> IsPermanent e"
  by (simp add: JobHandleEvent_def GetWorkflowJobByID_def AddOrUpdateJob_def engine_def Let_def
      JobStatusPriority_def status_defs sample_spilled_def IsPermanent_def db_error_def)


end
